(* ===== verification/Prelude.thy ===== *)
theory Prelude
  imports Main "HOL-Library.AList" "HOL-Library.Sublist"
begin

section \<open>Prelude: shared types, collections and generic lemmas\<close>

text \<open>
  What every component of the development uses: the names of the model's basic types, the
  collections the component proofs draw on, and facts about association lists and list searches.

  A Go map that the code ranges over (\<open>for k, v := range m\<close>) is an association list with
  distinct keys; its order stands for the iteration order, which Go leaves open. Theorems quantify
  over the list, so they hold for every order. A Go map that is only indexed is a partial
  function. An error return is \<open>Inl\<close>, a normal return \<open>Inr\<close>.
\<close>

type_synonym charger_id = string
type_synonym time = int       \<comment> \<open>nanoseconds since Go's zero \<open>time.Time\<close>\<close>
type_synonym duration = int   \<comment> \<open>nanoseconds\<close>

named_theorems repo_laws \<open>lookup-after-update laws of the in-memory stores\<close>
named_theorems inv_pres \<open>operations that preserve an invariant\<close>
named_theorems effect_simps \<open>what an operation appends to the trace\<close>

subsection \<open>Association lists\<close>

abbreviation keys_of :: "('k \<times> 'v) list \<Rightarrow> 'k list" where
  "keys_of al \<equiv> map fst al"

abbreviation vals_of :: "('k \<times> 'v) list \<Rightarrow> 'v list" where
  "vals_of al \<equiv> map snd al"

lemma map_of_update [simp, repo_laws]:
  "map_of (AList.update k v al) k' = (if k' = k then Some v else map_of al k')"
  by (simp add: update_conv')

lemma distinct_keys_update [intro, inv_pres]:
  "distinct (keys_of al) \<Longrightarrow> distinct (keys_of (AList.update k v al))"
  by (rule distinct_update)

lemma set_keys_update [simp]:
  "set (keys_of (AList.update k v al)) = insert k (set (keys_of al))"
  by (induction al) auto

lemma set_update_distinct:
  assumes "distinct (keys_of al)"
  shows "set (AList.update k v al) = {(k, v)} \<union> {(k', v') \<in> set al. k' \<noteq> k}"
  using assms by (induction al) (auto simp: rev_image_eqI)

lemma map_of_eq_Some_distinct:
  "distinct (keys_of al) \<Longrightarrow> map_of al k = Some v \<longleftrightarrow> (k, v) \<in> set al"
  by (rule map_of_eq_Some_iff)

lemma vals_of_update_subset:
  "set (vals_of (AList.update k v al)) \<subseteq> insert v (set (vals_of al))"
  by (induction al) auto

lemma vals_of_update_new [simp]: "v \<in> set (vals_of (AList.update k v al))"
  by (induction al) auto

text \<open>An association list whose keys are distinct and are the values' own keys.\<close>

definition keyed_by :: "('v \<Rightarrow> 'k) \<Rightarrow> ('k \<times> 'v) list \<Rightarrow> bool" where
  "keyed_by key al \<longleftrightarrow> distinct (keys_of al) \<and> (\<forall>(k, v) \<in> set al. key v = k)"

lemma keyed_by_Nil [simp, intro]: "keyed_by key []"
  by (simp add: keyed_by_def)

lemma keyed_by_update [intro, inv_pres]:
  "keyed_by key al \<Longrightarrow> key v = k \<Longrightarrow> keyed_by key (AList.update k v al)"
  unfolding keyed_by_def by (auto simp: set_update_distinct distinct_update)

lemma keyed_by_map_of: "keyed_by key al \<Longrightarrow> map_of al k = Some v \<Longrightarrow> key v = k"
  by (auto simp: keyed_by_def dest: map_of_SomeD)

lemma keyed_by_vals_iff:
  "keyed_by key al \<Longrightarrow> v \<in> set (vals_of al) \<longleftrightarrow> map_of al (key v) = Some v"
  by (force simp: keyed_by_def)

lemma keyed_by_vals_update:
  assumes "keyed_by key al" "key v = k"
  shows "set (vals_of (AList.update k v al)) = insert v {w \<in> set (vals_of al). key w \<noteq> k}"
proof -
  have "keyed_by key (AList.update k v al)" using assms by blast
  then have "w \<in> set (vals_of (AList.update k v al)) \<longleftrightarrow> w = v \<or> w \<in> set (vals_of al) \<and> key w \<noteq> k" for w
    using assms by (auto simp: keyed_by_vals_iff simp del: set_map)
  then show ?thesis by blast
qed

subsection \<open>List searches\<close>

lemma find_Some_P: "List.find P xs = Some x \<Longrightarrow> P x \<and> x \<in> set xs"
  by (induction xs) (auto split: if_splits)

lemma find_None_iff_all: "List.find P xs = None \<longleftrightarrow> (\<forall>x \<in> set xs. \<not> P x)"
  by (induction xs) auto

lemma find_unique:
  assumes "x \<in> set xs" "P x" "\<And>y. y \<in> set xs \<Longrightarrow> P y \<Longrightarrow> y = x"
  shows "List.find P xs = Some x"
proof (cases "List.find P xs")
  case None
  with assms(1,2) have False unfolding find_None_iff_all by blast
  then show ?thesis ..
next
  case (Some y)
  then have "P y \<and> y \<in> set xs" by (rule find_Some_P)
  with assms(3) have "y = x" by blast
  with Some show ?thesis by simp
qed

lemma find_append:
  "List.find P (xs @ ys) = (case List.find P xs of Some x \<Rightarrow> Some x | None \<Rightarrow> List.find P ys)"
  by (induction xs) auto

lemma find_cong_set:
  "(\<And>x. x \<in> set xs \<Longrightarrow> P x = Q x) \<Longrightarrow> List.find P xs = List.find Q xs"
  by (induction xs) auto

lemma all_set_update: "\<forall>x \<in> set xs. P x \<Longrightarrow> P y \<Longrightarrow> \<forall>x \<in> set (xs[i := y]). P x"
  using set_update_subset_insert[of xs i y] by auto

subsection \<open>Folds that thread a state\<close>

text \<open>A loop \<open>for _, x := range xs\<close> whose body updates a state is \<open>fold\<close>; an invariant of
  the body is an invariant of the loop.\<close>

lemma fold_invariant:
  assumes "P s" and "\<And>x s. x \<in> set xs \<Longrightarrow> P s \<Longrightarrow> P (f x s)"
  shows "P (fold f xs s)"
  using assms by (induction xs arbitrary: s) auto

lemma fold_frame:
  assumes "\<And>x s. x \<in> set xs \<Longrightarrow> g (f x s) = g s"
  shows "g (fold f xs s) = g s"
  using assms by (induction xs arbitrary: s) auto

lemma fold_id_on: "(\<And>x s. x \<in> set xs \<Longrightarrow> f x s = s) \<Longrightarrow> fold f xs s = s"
  by (induction xs) auto

end
