(* ===== verification/GoLib.thy ===== *)
theory GoLib
  imports Prelude Complex_Main "HOL-Library.Word" "HOL-Library.Char_ord"
begin

section \<open>GoLib: the part of Go and its standard library the program uses\<close>

text \<open>
  Go's \<open>int32\<close> conversion, \<open>time.Time\<close> subtraction, \<open>float64\<close>, and the functions
  of \<open>strconv\<close>, \<open>strings\<close> and \<open>net\<close> that the modelled code calls.

  Go strings are byte strings, as \<open>string\<close> is here. \<open>strings.ToUpper\<close>, \<open>ToLower\<close>,
  \<open>EqualFold\<close> and \<open>TrimSpace\<close> are modelled on their ASCII range. A \<open>float64\<close> is an exact
  rational, an infinity or NaN: rounding is not modelled. \<open>ParseFloat\<close> has no hexadecimal
  literals. Go's \<open>int\<close> has 64 bits; \<open>int\<close> here is unbounded and the range is written out
  where the code narrows a value or a parser reports an overflow.
\<close>

subsection \<open>Integers\<close>

definition int64_ok :: "int \<Rightarrow> bool" where
  "int64_ok n \<longleftrightarrow> - (2 ^ 63) \<le> n \<and> n < 2 ^ 63"

text \<open>The conversion \<open>int32(x)\<close> keeps the low 32 bits, read as two's complement.\<close>

definition wrap32 :: "int \<Rightarrow> int" where
  "wrap32 x = (x + 2147483648) mod 4294967296 - 2147483648"

lemma wrap32_id: "- 2147483648 \<le> x \<Longrightarrow> x < 2147483648 \<Longrightarrow> wrap32 x = x"
  by (simp add: wrap32_def)

lemma wrap32_range: "- 2147483648 \<le> wrap32 x \<and> wrap32 x < 2147483648"
  by (simp add: wrap32_def)

lemma wrap32_word: "wrap32 x = sint (word_of_int x :: 32 word)"
proof -
  have "sint (word_of_int x :: 32 word) = signed_take_bit 31 x"
    by (simp add: signed_take_bit_eq_if_positive sint_sbintrunc')
  then show ?thesis
    by (simp add: wrap32_def signed_take_bit_eq_take_bit_shift take_bit_eq_mod)
qed

text \<open>Addition on Go's 64-bit \<open>int\<close> wraps.\<close>

definition wrap64 :: "int \<Rightarrow> int" where
  "wrap64 x = (x + 9223372036854775808) mod 18446744073709551616 - 9223372036854775808"

lemma wrap64_id: "int64_ok x \<Longrightarrow> wrap64 x = x"
  by (simp add: wrap64_def int64_ok_def)

definition abs_int :: "int \<Rightarrow> int" where
  "abs_int x = (if x < 0 then - x else x)"

lemma abs_int_abs [simp]: "abs_int x = \<bar>x\<bar>"
  by (simp add: abs_int_def)

lemma floor_rat_numeral [simp]:
  "\<lfloor>numeral a / numeral b :: rat\<rfloor> = numeral a div numeral b"
  by (metis floor_divide_of_int_eq of_int_numeral)

subsection \<open>Time\<close>

abbreviation second :: duration where "second \<equiv> 1000000000"

definition max_duration :: duration where "max_duration = 2 ^ 63 - 1"
definition min_duration :: duration where "min_duration = - (2 ^ 63)"

text \<open>\<open>t.Sub(u)\<close> saturates; \<open>time.Since(u)\<close> is \<open>now.Sub(u)\<close>.\<close>

definition time_sub :: "time \<Rightarrow> time \<Rightarrow> duration" where
  "time_sub t u = max min_duration (min max_duration (t - u))"

lemma time_sub_mono: "u \<le> u' \<Longrightarrow> time_sub t u' \<le> time_sub t u"
  by (auto simp: time_sub_def)

lemma time_sub_mono_now: "t \<le> t' \<Longrightarrow> time_sub t u \<le> time_sub t' u"
  by (auto simp: time_sub_def)

lemma time_sub_ge: "d \<le> max_duration \<Longrightarrow> d \<le> t - u \<Longrightarrow> d \<le> time_sub t u"
  by (auto simp: time_sub_def)

lemma time_sub_geD: "min_duration < d \<Longrightarrow> d \<le> time_sub t u \<Longrightarrow> d \<le> t - u"
  by (auto simp: time_sub_def max_def min_def split: if_splits)

lemma time_sub_lessD: "time_sub t u < d \<Longrightarrow> d \<le> max_duration \<Longrightarrow> t - u < d"
  by (auto simp: time_sub_def)

lemma time_sub_not_lessD: "\<not> time_sub t u < d \<Longrightarrow> min_duration < d \<Longrightarrow> d \<le> t - u"
  by (rule time_sub_geD) auto

subsection \<open>Floating point\<close>

datatype float64 = Fin rat | PosInf | NegInf | NaN

text \<open>Comparison, subtraction, and multiplication and division by a positive constant, the
  only arithmetic the meter-value code does.\<close>

fun flt_less :: "float64 \<Rightarrow> float64 \<Rightarrow> bool" where
  "flt_less NaN _ = False"
| "flt_less _ NaN = False"
| "flt_less (Fin x) (Fin y) = (x < y)"
| "flt_less _ NegInf = False"
| "flt_less NegInf _ = True"
| "flt_less PosInf _ = False"
| "flt_less _ PosInf = True"

abbreviation flt_pos :: "float64 \<Rightarrow> bool" where
  "flt_pos x \<equiv> flt_less (Fin 0) x"

fun flt_neg :: "float64 \<Rightarrow> float64" where
  "flt_neg (Fin x) = Fin (- x)"
| "flt_neg PosInf = NegInf"
| "flt_neg NegInf = PosInf"
| "flt_neg NaN = NaN"

fun flt_add :: "float64 \<Rightarrow> float64 \<Rightarrow> float64" where
  "flt_add NaN _ = NaN"
| "flt_add _ NaN = NaN"
| "flt_add (Fin x) (Fin y) = Fin (x + y)"
| "flt_add PosInf NegInf = NaN"
| "flt_add NegInf PosInf = NaN"
| "flt_add PosInf _ = PosInf"
| "flt_add _ PosInf = PosInf"
| "flt_add NegInf _ = NegInf"
| "flt_add _ NegInf = NegInf"

definition flt_sub :: "float64 \<Rightarrow> float64 \<Rightarrow> float64" where
  "flt_sub x y = flt_add x (flt_neg y)"

fun flt_scale :: "rat \<Rightarrow> float64 \<Rightarrow> float64" where
  "flt_scale c (Fin x) = Fin (c * x)"
| "flt_scale c y = y"   \<comment> \<open>\<open>c > 0\<close>\<close>

lemma flt_pos_scale [simp]: "0 < c \<Longrightarrow> flt_pos (flt_scale c x) = flt_pos x"
  by (cases x) (simp_all add: zero_less_mult_iff)

subsection \<open>strings\<close>

text \<open>\<open>strings.SplitN(s, sep, n)\<close> for a one-byte separator and \<open>n > 0\<close>.\<close>

fun SplitN :: "char \<Rightarrow> nat \<Rightarrow> string \<Rightarrow> string list" where
  "SplitN c 0 s = []"
| "SplitN c (Suc 0) s = [s]"
| "SplitN c (Suc (Suc n)) s =
     (if c \<in> set s
      then takeWhile (\<lambda>x. x \<noteq> c) s # SplitN c (Suc n) (tl (dropWhile (\<lambda>x. x \<noteq> c) s))
      else [s])"

definition ascii_upper :: "char \<Rightarrow> char" where
  "ascii_upper c = (if CHR ''a'' \<le> c \<and> c \<le> CHR ''z'' then char_of ((of_char c :: nat) - 32) else c)"

definition ascii_lower :: "char \<Rightarrow> char" where
  "ascii_lower c = (if CHR ''A'' \<le> c \<and> c \<le> CHR ''Z'' then char_of ((of_char c :: nat) + 32) else c)"

definition ToUpper :: "string \<Rightarrow> string" where "ToUpper s = map ascii_upper s"
definition ToLower :: "string \<Rightarrow> string" where "ToLower s = map ascii_lower s"

definition EqualFold :: "string \<Rightarrow> string \<Rightarrow> bool" where
  "EqualFold s t \<longleftrightarrow> ToLower s = ToLower t"

definition is_space :: "char \<Rightarrow> bool" where
  "is_space c \<longleftrightarrow> of_char c \<in> {9, 10, 11, 12, 13, 32 :: nat}"

definition TrimSpace :: "string \<Rightarrow> string" where
  "TrimSpace s = rev (dropWhile is_space (rev (dropWhile is_space s)))"

subsection \<open>strconv: decimal integers\<close>

definition is_digit :: "char \<Rightarrow> bool" where
  "is_digit c \<longleftrightarrow> CHR ''0'' \<le> c \<and> c \<le> CHR ''9''"

definition digit_char :: "nat \<Rightarrow> char" where
  "digit_char d = char_of (48 + d)"

definition digit_val :: "char \<Rightarrow> nat" where
  "digit_val c = of_char c - 48"

fun nat_str :: "nat \<Rightarrow> string" where
  "nat_str n = (if n < 10 then [digit_char n] else nat_str (n div 10) @ [digit_char (n mod 10)])"

declare nat_str.simps [simp del]

definition Itoa :: "int \<Rightarrow> string" where
  "Itoa n = (if n < 0 then CHR ''-'' # nat_str (nat (- n)) else nat_str (nat n))"

definition digits_val :: "string \<Rightarrow> nat" where
  "digits_val s = foldl (\<lambda>a c. 10 * a + digit_val c) 0 s"

definition parse_digits :: "string \<Rightarrow> nat option" where
  "parse_digits s = (if s \<noteq> [] \<and> list_all is_digit s then Some (digits_val s) else None)"

text \<open>\<open>strconv.Atoi\<close>: an optional sign, at least one digit, and the \<open>int64\<close> range.\<close>

definition Atoi :: "string \<Rightarrow> int option" where
  "Atoi s =
     (let (neg, ds) = (case s of [] \<Rightarrow> (False, [])
                        | c # cs \<Rightarrow> if c = CHR ''-'' then (True, cs)
                                   else if c = CHR ''+'' then (False, cs) else (False, s))
      in case parse_digits ds of None \<Rightarrow> None
         | Some n \<Rightarrow> (let v = (if neg then - int n else int n)
                     in if int64_ok v then Some v else None))"

definition ParseBool :: "string \<Rightarrow> bool option" where
  "ParseBool s =
     (if s \<in> {''1'', ''t'', ''T'', ''true'', ''TRUE'', ''True''} then Some True
      else if s \<in> {''0'', ''f'', ''F'', ''false'', ''FALSE'', ''False''} then Some False
      else None)"

text \<open>\<open>strconv.ParseFloat(s, 64)\<close> on decimal literals and the special values; a value beyond
  the largest \<open>float64\<close> is a range error.\<close>

definition split_sign :: "string \<Rightarrow> bool \<times> string" where
  "split_sign s = (case s of [] \<Rightarrow> (False, [])
     | c # cs \<Rightarrow> if c = CHR ''-'' then (True, cs) else if c = CHR ''+'' then (False, cs) else (False, s))"

definition parse_exponent :: "string \<Rightarrow> int option" where
  "parse_exponent s = (case s of [] \<Rightarrow> Some 0
     | c # cs \<Rightarrow> if c = CHR ''e'' \<or> c = CHR ''E''
         then (let (neg, ds) = split_sign cs in
               map_option (\<lambda>n. if neg then - int n else int n) (parse_digits ds))
         else None)"

definition scale10 :: "nat \<Rightarrow> int \<Rightarrow> rat" where
  "scale10 m e = (if e \<ge> 0 then of_nat m * 10 ^ nat e else of_nat m / 10 ^ nat (- e))"

definition max_float :: rat where "max_float = 2 ^ 1024 - 2 ^ 970"

definition parse_decimal :: "string \<Rightarrow> rat option" where
  "parse_decimal s =
     (let ip = takeWhile is_digit s; r = dropWhile is_digit s;
          (fp, r) = (case r of [] \<Rightarrow> ([], [])
             | c # cs \<Rightarrow> if c = CHR ''.'' then (takeWhile is_digit cs, dropWhile is_digit cs) else ([], r))
      in if ip @ fp = [] then None
         else case parse_exponent r of None \<Rightarrow> None
           | Some e \<Rightarrow> (let v = scale10 (digits_val (ip @ fp)) (e - int (length fp))
                       in if v < max_float then Some v else None))"

definition ParseFloat :: "string \<Rightarrow> float64 option" where
  "ParseFloat s =
     (if ToLower s = ''nan'' then Some NaN
      else let (neg, r) = split_sign s in
        if ToLower r \<in> {''inf'', ''infinity''} then Some (if neg then NegInf else PosInf)
        else map_option (\<lambda>x. Fin (if neg then - x else x)) (parse_decimal r))"

text \<open>The conversion \<open>int64(x)\<close> truncates towards zero; for NaN, an infinity or a value out of
  range Go leaves the result to the platform, here the parameter \<open>plat\<close>.\<close>

definition trunc_rat :: "rat \<Rightarrow> int" where
  "trunc_rat x = (if x < 0 then \<lceil>x\<rceil> else \<lfloor>x\<rfloor>)"

definition to_int64 :: "(float64 \<Rightarrow> int) \<Rightarrow> float64 \<Rightarrow> int" where
  "to_int64 plat x =
     (case x of Fin q \<Rightarrow> (if int64_ok (trunc_rat q) then trunc_rat q else plat x) | _ \<Rightarrow> plat x)"

lemma digit_val_char: "d < 10 \<Longrightarrow> digit_val (digit_char d) = d"
  by (simp add: digit_val_def digit_char_def)

lemma is_digit_char: "d < 10 \<Longrightarrow> is_digit (digit_char d)"
  by (simp add: is_digit_def digit_char_def less_eq_char_def)

lemma is_digit_iff: "is_digit c \<longleftrightarrow> 48 \<le> (of_char c :: nat) \<and> (of_char c :: nat) \<le> 57"
  by (simp add: is_digit_def less_eq_char_def)

lemma nat_str_digits: "list_all is_digit (nat_str n)"
proof (induction n rule: nat_str.induct)
  case (1 n)
  then show ?case by (subst nat_str.simps) (auto simp: is_digit_char)
qed

lemma nat_str_nonempty [simp]: "nat_str n \<noteq> []"
  by (subst nat_str.simps) simp

lemma digits_val_snoc: "digits_val (s @ [c]) = 10 * digits_val s + digit_val c"
  by (simp add: digits_val_def)

lemma digits_val_nat_str: "digits_val (nat_str n) = n"
proof (induction n rule: nat_str.induct)
  case (1 n)
  show ?case
  proof (cases "n < 10")
    case True
    then show ?thesis
      by (subst nat_str.simps) (simp add: digits_val_def digit_val_char)
  next
    case False
    with "1.IH" have "digits_val (nat_str (n div 10)) = n div 10" by simp
    with False show ?thesis
      by (subst nat_str.simps) (simp add: digits_val_snoc digit_val_char)
  qed
qed

lemma parse_digits_nat_str [simp]: "parse_digits (nat_str n) = Some n"
  by (simp add: parse_digits_def nat_str_digits digits_val_nat_str)

lemma not_digit_in_nat_str: "\<not> is_digit c \<Longrightarrow> c \<notin> set (nat_str n)"
  using nat_str_digits [of n] by (auto simp: list_all_iff)

lemma nat_str_Cons_digit: "nat_str n = c # cs \<Longrightarrow> is_digit c"
  using nat_str_digits [of n] by simp

lemma Atoi_Itoa: "int64_ok n \<Longrightarrow> Atoi (Itoa n) = Some n"
proof (cases "n < 0")
  case True
  moreover assume "int64_ok n"
  ultimately show ?thesis by (simp add: Itoa_def Atoi_def)
next
  case False
  obtain c cs where s: "nat_str (nat n) = c # cs"
    by (meson list.exhaust nat_str_nonempty)
  then have "is_digit c" by (rule nat_str_Cons_digit)
  then have "c \<noteq> CHR ''-''" "c \<noteq> CHR ''+''" by (auto simp: is_digit_iff)
  moreover have "parse_digits (c # cs) = Some (nat n)"
    using parse_digits_nat_str [of "nat n"] by (simp add: s)
  moreover assume "int64_ok n"
  ultimately show ?thesis using False by (simp add: Itoa_def Atoi_def s)
qed

lemma Itoa_chars: "c \<in> set (Itoa n) \<Longrightarrow> is_digit c \<or> c = CHR ''-''"
  using nat_str_digits by (auto simp: Itoa_def list_all_iff split: if_splits)

lemma Itoa_inj: "Itoa m = Itoa n \<longleftrightarrow> m = n"
proof -
  have nat: "nat_str a = nat_str b \<longleftrightarrow> a = b" for a b
    by (metis digits_val_nat_str)
  have "CHR ''-'' # s \<noteq> nat_str a" for s a
  proof
    assume "CHR ''-'' # s = nat_str a"
    then have "is_digit (CHR ''-'')" by (intro nat_str_Cons_digit) (rule sym)
    then show False by (simp add: is_digit_iff)
  qed
  then show ?thesis
    by (auto simp: Itoa_def nat split: if_splits dest: sym)
qed

subsection \<open>fmt\<close>

text \<open>The key \<open>fmt.Sprintf("%s:%d", chargerID, connectorID)\<close>. No two connectors share
  one, although a charger id may itself contain colons.\<close>

definition connector_key :: "charger_id \<Rightarrow> int \<Rightarrow> string" where
  "connector_key ch conn = ch @ CHR '':'' # Itoa conn"

lemma connector_key_inj [simp]:
  "connector_key c m = connector_key d n \<longleftrightarrow> c = d \<and> m = n"
proof -
  have no: "CHR '':'' \<notin> set (Itoa k)" for k
    using Itoa_chars [of "CHR '':''" k] by (auto simp: is_digit_iff)
  have tw: "takeWhile (\<lambda>x. x \<noteq> CHR '':'') (rev (connector_key e k)) = rev (Itoa k)" for e k
  proof -
    from no [of k] have "\<forall>x \<in> set (rev (Itoa k)). x \<noteq> CHR '':''" by auto
    then have "takeWhile (\<lambda>x. x \<noteq> CHR '':'') (rev (Itoa k) @ CHR '':'' # rev e) =
        rev (Itoa k) @ takeWhile (\<lambda>x. x \<noteq> CHR '':'') (CHR '':'' # rev e)"
      by (intro takeWhile_append2) blast
    then show ?thesis by (simp add: connector_key_def)
  qed
  show ?thesis
  proof
    assume eq: "connector_key c m = connector_key d n"
    then have "rev (Itoa m) = rev (Itoa n)" using tw by metis
    then have "m = n" by (simp add: Itoa_inj)
    with eq show "c = d \<and> m = n" by (simp add: connector_key_def)
  qed simp
qed

end
