(* ===== verification/Domain.thy ===== *)
theory Domain
  imports GoLib
begin

section \<open>Domain: chargers, connectors, sessions and meter values\<close>

text \<open>
  The plain data of \<open>internal/domain\<close>: the structs of \<open>charger/charger.go\<close>,
  \<open>session/session.go\<close>, \<open>proxy/config.go\<close> and the meter value of \<open>ports/ports.go\<close>.
  Each record has the fields of its struct, prefixed by the struct's initials. A nil pointer is
  \<open>None\<close>.
\<close>

subsection \<open>Chargers\<close>

record charger =
  ch_ID :: charger_id
  ch_Vendor :: string
  ch_Model :: string
  ch_FirmwareVersion :: string
  ch_SerialNumber :: string
  ch_Online :: bool

text \<open>\<open>ConnectorStatus\<close> is a string type: a charger may report a value outside the constants.\<close>

type_synonym connector_status = string

abbreviation StatusAvailable :: connector_status where "StatusAvailable \<equiv> ''Available''"
abbreviation StatusPreparing :: connector_status where "StatusPreparing \<equiv> ''Preparing''"
abbreviation StatusCharging :: connector_status where "StatusCharging \<equiv> ''Charging''"
abbreviation StatusSuspendedEV :: connector_status where "StatusSuspendedEV \<equiv> ''SuspendedEV''"
abbreviation StatusSuspendedEVSE :: connector_status where "StatusSuspendedEVSE \<equiv> ''SuspendedEVSE''"
abbreviation StatusFinishing :: connector_status where "StatusFinishing \<equiv> ''Finishing''"
abbreviation StatusReserved :: connector_status where "StatusReserved \<equiv> ''Reserved''"
abbreviation StatusUnavailable :: connector_status where "StatusUnavailable \<equiv> ''Unavailable''"
abbreviation StatusFaulted :: connector_status where "StatusFaulted \<equiv> ''Faulted''"

record connector =
  cn_ChargerID :: charger_id
  cn_ConnectorID :: int
  cn_Status :: connector_status
  cn_ErrorCode :: string
  cn_Info :: string

subsection \<open>Sessions\<close>

record session =
  se_ID :: string
  se_TransactionID :: int
  se_ChargerID :: charger_id
  se_ConnectorID :: int
  se_IDTag :: string
  se_MeterStartWh :: float64
  se_MeterStopWh :: "float64 option"
  se_StartedAt :: time
  se_StoppedAt :: "time option"
  se_StopReason :: string

definition IsActive :: "session \<Rightarrow> bool" where
  "IsActive s \<longleftrightarrow> se_StoppedAt s = None"

definition EnergyKWh :: "session \<Rightarrow> float64 option" where
  "EnergyKWh s =
     (case se_MeterStopWh s of
        None \<Rightarrow> None
      | Some stop \<Rightarrow> Some (flt_scale (1 / 1000) (flt_sub stop (se_MeterStartWh s))))"

subsection \<open>Meter values and relay configuration\<close>

record meter_value =
  mv_ChargerID :: charger_id
  mv_ConnectorID :: int
  mv_SessionID :: string
  mv_Timestamp :: time
  mv_Measurand :: string
  mv_Value :: float64
  mv_Unit :: string
  mv_Phase :: string

record proxy_config =
  pc_ChargerID :: charger_id
  pc_ProxyEnabled :: bool
  pc_UpstreamURL :: string
  pc_UpstreamUser :: string
  pc_UpstreamPasswordEnc :: string
  pc_ProxyPolicyJSON :: string
  pc_UpstreamThrottleMVPerMin :: int

end
