(* ===== verification/Repos.thy ===== *)
theory Repos
  imports Domain
begin

section \<open>Repos: the in-memory repositories\<close>

text \<open>
  \<open>internal/domain/ports/inmemory.go\<close>: the four stores behind the ports
  \<open>ChargerRepository\<close>, \<open>SessionRepository\<close>, \<open>MeterRepository\<close> and
  \<open>ProxyConfigRepository\<close>. Each method holds the store's mutex for its whole body, so a method
  is one atomic step on the store. The maps the code ranges over are association lists (see the
  prelude), the others partial functions.

  The locales \<open>keyed_store\<close> and \<open>session_store\<close> are the contracts the handler relies on;
  the stores are interpreted in them below.
\<close>

datatype repo_error =
    ChargerNotFound charger_id
  | ConnectorNotFound charger_id int
  | SessionNotFound string
  | SliceBoundsPanic   \<comment> \<open>the Go runtime panic of an out-of-range slice expression\<close>

subsection \<open>Chargers and connectors\<close>

record charger_repo =
  cr_chargers :: "(charger_id \<times> charger) list"
  cr_connectors :: "charger_id \<rightharpoonup> connector list"

definition NewInMemoryChargerRepository :: charger_repo where
  "NewInMemoryChargerRepository = \<lparr>cr_chargers = [], cr_connectors = Map.empty\<rparr>"

definition UpsertCharger :: "charger \<Rightarrow> charger_repo \<Rightarrow> repo_error + charger_repo" where
  "UpsertCharger c r = Inr (r\<lparr>cr_chargers := AList.update (ch_ID c) c (cr_chargers r)\<rparr>)"

definition GetCharger :: "charger_id \<Rightarrow> charger_repo \<Rightarrow> repo_error + charger" where
  "GetCharger i r =
     (case map_of (cr_chargers r) i of None \<Rightarrow> Inl (ChargerNotFound i) | Some c \<Rightarrow> Inr c)"

definition ListChargers :: "charger_repo \<Rightarrow> repo_error + charger list" where
  "ListChargers r = Inr (vals_of (cr_chargers r))"

definition MarkOnline :: "charger_id \<Rightarrow> bool \<Rightarrow> charger_repo \<Rightarrow> repo_error + charger_repo" where
  "MarkOnline i onl r =
     (case map_of (cr_chargers r) i of
        None \<Rightarrow> Inl (ChargerNotFound i)
      | Some c \<Rightarrow> Inr (r\<lparr>cr_chargers := AList.update i (c\<lparr>ch_Online := onl\<rparr>) (cr_chargers r)\<rparr>))"

text \<open>The slice stored for a charger; indexing a Go map at an absent key gives the nil slice.\<close>

definition conns_of :: "charger_repo \<Rightarrow> charger_id \<Rightarrow> connector list" where
  "conns_of r i = (case cr_connectors r i of None \<Rightarrow> [] | Some cs \<Rightarrow> cs)"

text \<open>The loop of \<open>UpsertConnector\<close>: overwrite the first entry with the id, else append.\<close>

fun upsert_conn :: "connector \<Rightarrow> connector list \<Rightarrow> connector list" where
  "upsert_conn conn [] = [conn]"
| "upsert_conn conn (c # cs) =
     (if cn_ConnectorID c = cn_ConnectorID conn then conn # cs else c # upsert_conn conn cs)"

definition UpsertConnector :: "connector \<Rightarrow> charger_repo \<Rightarrow> repo_error + charger_repo" where
  "UpsertConnector conn r =
     Inr (r\<lparr>cr_connectors :=
       (cr_connectors r)(cn_ChargerID conn \<mapsto> upsert_conn conn (conns_of r (cn_ChargerID conn)))\<rparr>)"

definition GetConnector :: "charger_id \<Rightarrow> int \<Rightarrow> charger_repo \<Rightarrow> repo_error + connector" where
  "GetConnector i n r =
     (case List.find (\<lambda>c. cn_ConnectorID c = n) (conns_of r i) of
        Some c \<Rightarrow> Inr c
      | None \<Rightarrow> Inl (ConnectorNotFound i n))"

definition ListConnectors :: "charger_id \<Rightarrow> charger_repo \<Rightarrow> repo_error + connector list" where
  "ListConnectors i r = Inr (conns_of r i)"

subsection \<open>Sessions\<close>

type_synonym session_repo = "(string \<times> session) list"

definition NewInMemorySessionRepository :: session_repo where
  "NewInMemorySessionRepository = []"

definition CreateSession :: "time \<Rightarrow> session \<Rightarrow> session_repo \<Rightarrow> repo_error + session_repo" where
  "CreateSession now s r =
     (let s = (if se_ID s = '''' then s\<lparr>se_ID := ''sess-'' @ Itoa now\<rparr> else s)
      in Inr (AList.update (se_ID s) s r))"

definition UpdateSession :: "session \<Rightarrow> session_repo \<Rightarrow> repo_error + session_repo" where
  "UpdateSession s r =
     (case map_of r (se_ID s) of
        None \<Rightarrow> Inl (SessionNotFound (se_ID s))
      | Some _ \<Rightarrow> Inr (AList.update (se_ID s) s r))"

definition GetActiveSession :: "charger_id \<Rightarrow> int \<Rightarrow> session_repo \<Rightarrow> repo_error + session option" where
  "GetActiveSession i n r =
     Inr (List.find (\<lambda>s. se_ChargerID s = i \<and> se_ConnectorID s = n \<and> se_StoppedAt s = None) (vals_of r))"

definition GetSessionByTransactionID ::
  "charger_id \<Rightarrow> int \<Rightarrow> session_repo \<Rightarrow> repo_error + session option" where
  "GetSessionByTransactionID i tx r =
     Inr (List.find (\<lambda>s. se_ChargerID s = i \<and> se_TransactionID s = tx) (vals_of r))"

definition GetSession :: "string \<Rightarrow> session_repo \<Rightarrow> repo_error + session" where
  "GetSession k r = (case map_of r k of None \<Rightarrow> Inl (SessionNotFound k) | Some s \<Rightarrow> Inr s)"

definition ListSessions :: "int \<Rightarrow> int \<Rightarrow> session_repo \<Rightarrow> repo_error + session list" where
  "ListSessions limit offset r =
     (let all = vals_of r; n = int (length all) in
      if offset \<ge> n then Inr []
      else let e = wrap64 (offset + limit); e = (if e > n then n else e) in
        if 0 \<le> offset \<and> offset \<le> e
        then Inr (take (nat (e - offset)) (drop (nat offset) all))
        else Inl SliceBoundsPanic)"

subsection \<open>Meter values\<close>

type_synonym meter_repo = "meter_value list"

definition NewInMemoryMeterRepository :: meter_repo where
  "NewInMemoryMeterRepository = []"

definition StoreMeterValue :: "meter_value \<Rightarrow> meter_repo \<Rightarrow> repo_error + meter_repo" where
  "StoreMeterValue mv r = Inr (r @ [mv])"

definition StoreMeterValues :: "meter_value list \<Rightarrow> meter_repo \<Rightarrow> repo_error + meter_repo" where
  "StoreMeterValues mvs r = Inr (r @ mvs)"

definition GetMeterValues ::
  "charger_id \<Rightarrow> time \<Rightarrow> time \<Rightarrow> meter_repo \<Rightarrow> repo_error + meter_value list" where
  "GetMeterValues i frm to r =
     Inr (filter (\<lambda>mv. mv_ChargerID mv = i \<and> \<not> mv_Timestamp mv < frm \<and> \<not> mv_Timestamp mv > to) r)"

definition GetMeterValuesBySession :: "string \<Rightarrow> meter_repo \<Rightarrow> repo_error + meter_value list" where
  "GetMeterValuesBySession sid r = Inr (filter (\<lambda>mv. mv_SessionID mv = sid) r)"

text \<open>The loop keeps the values that are not before the bound and counts the others.\<close>

fun purge_loop :: "time \<Rightarrow> meter_value list \<Rightarrow> meter_value list \<Rightarrow> int \<Rightarrow> meter_value list \<times> int" where
  "purge_loop before [] kept purged = (kept, purged)"
| "purge_loop before (mv # mvs) kept purged =
     (if \<not> mv_Timestamp mv < before then purge_loop before mvs (kept @ [mv]) purged
      else purge_loop before mvs kept (purged + 1))"

definition PurgeOlderThan :: "time \<Rightarrow> meter_repo \<Rightarrow> repo_error + meter_repo \<times> int" where
  "PurgeOlderThan before r = Inr (purge_loop before r [] 0)"

subsection \<open>Relay configuration\<close>

type_synonym proxy_repo = "charger_id \<rightharpoonup> proxy_config"

definition GetProxyConfig :: "charger_id \<Rightarrow> proxy_repo \<Rightarrow> repo_error + proxy_config option" where
  "GetProxyConfig i r = Inr (r i)"

definition UpsertProxyConfig :: "proxy_config \<Rightarrow> proxy_repo \<Rightarrow> repo_error + proxy_repo" where
  "UpsertProxyConfig cfg r = Inr (r(pc_ChargerID cfg \<mapsto> cfg))"

subsection \<open>The contract of a keyed store\<close>

definition ok_val :: "'e + 'a \<Rightarrow> 'a option" where
  "ok_val x = (case x of Inl _ \<Rightarrow> None | Inr v \<Rightarrow> Some v)"

lemma ok_val_simps [simp]: "ok_val (Inl e) = None" "ok_val (Inr v) = Some v"
  by (simp_all add: ok_val_def)

fun put_all :: "('v \<Rightarrow> 's \<Rightarrow> 'e + 's) \<Rightarrow> 'v list \<Rightarrow> 's \<Rightarrow> 'e + 's" where
  "put_all put [] s = Inr s"
| "put_all put (v # vs) s = (case put v s of Inl e \<Rightarrow> Inl e | Inr s' \<Rightarrow> put_all put vs s')"

text \<open>
  What the code relies on when it stores a value and reads it back: storing never fails, the last
  value stored under a key is the one found, and other keys keep theirs.
\<close>

locale keyed_store =
  fixes put :: "'v \<Rightarrow> 's \<Rightarrow> 'e + 's"
    and get :: "'s \<Rightarrow> 'k \<Rightarrow> 'v option"
    and key :: "'v \<Rightarrow> 'k"
    and ok :: "'v \<Rightarrow> bool"
    and inv :: "'s \<Rightarrow> bool"
  assumes put_total: "inv s \<Longrightarrow> ok v \<Longrightarrow> \<exists>s'. put v s = Inr s'"
    and put_inv: "inv s \<Longrightarrow> ok v \<Longrightarrow> put v s = Inr s' \<Longrightarrow> inv s'"
    and get_put: "inv s \<Longrightarrow> ok v \<Longrightarrow> put v s = Inr s' \<Longrightarrow>
      get s' k = (if k = key v then Some v else get s k)"
    and get_key: "inv s \<Longrightarrow> get s k = Some v \<Longrightarrow> key v = k"
begin

lemma put_overwrites:
  assumes "inv s" "ok v" "ok w" "key v = key w" "put w s = Inr s1" "put v s1 = Inr s2" "put v s = Inr s3"
  shows "get s2 = get s3"
proof -
  have "inv s1" using assms by (blast intro: put_inv)
  with assms show ?thesis by (intro ext) (simp add: get_put)
qed

lemma put_commutes:
  assumes "inv s" "ok v" "ok w" "key v \<noteq> key w"
    and "put v s = Inr s1" "put w s1 = Inr s2" "put w s = Inr t1" "put v t1 = Inr t2"
  shows "get s2 = get t2"
proof -
  have "inv s1" "inv t1" using assms by (blast intro: put_inv)+
  with assms show ?thesis by (intro ext) (simp add: get_put)
qed

lemma put_all_spec:
  assumes "inv s" "list_all ok vs"
  shows "\<exists>s'. put_all put vs s = Inr s' \<and> inv s' \<and>
    (\<forall>k. get s' k = (case List.find (\<lambda>v. key v = k) (rev vs) of Some v \<Rightarrow> Some v | None \<Rightarrow> get s k))"
  using assms
proof (induction vs arbitrary: s)
  case Nil
  then show ?case by simp
next
  case (Cons v vs)
  from Cons.prems have ok: "ok v" "list_all ok vs" by simp_all
  obtain s1 where s1: "put v s = Inr s1" "inv s1"
    using put_total [OF Cons.prems(1) ok(1)] put_inv [OF Cons.prems(1) ok(1)] by blast
  from Cons.IH [OF s1(2) ok(2)] obtain s' where
    s': "put_all put vs s1 = Inr s'" "inv s'" and
    g: "\<And>k. get s' k = (case List.find (\<lambda>v. key v = k) (rev vs) of Some v \<Rightarrow> Some v | None \<Rightarrow> get s1 k)"
    by auto
  have "get s1 k = (if k = key v then Some v else get s k)" for k
    using get_put [OF _ _ s1(1)] Cons.prems by simp
  then show ?case
    using s1 s' g by (auto simp: find_append split: option.splits)
qed

end

text \<open>
  Session stores add two searches: an active session of a connector, and the session of a
  transaction. A search finds a stored session with the property, and finds one if there is one.
\<close>

locale session_store = keyed_store put get se_ID ok inv
  for put :: "session \<Rightarrow> 's \<Rightarrow> 'e + 's"
    and get :: "'s \<Rightarrow> string \<Rightarrow> session option"
    and ok :: "session \<Rightarrow> bool"
    and inv :: "'s \<Rightarrow> bool" +
  fixes active :: "'s \<Rightarrow> charger_id \<Rightarrow> int \<Rightarrow> session option"
    and by_tx :: "'s \<Rightarrow> charger_id \<Rightarrow> int \<Rightarrow> session option"
  assumes active_sound: "inv s \<Longrightarrow> active s c n = Some v \<Longrightarrow>
      get s (se_ID v) = Some v \<and> se_ChargerID v = c \<and> se_ConnectorID v = n \<and> IsActive v"
    and active_complete: "inv s \<Longrightarrow> get s k = Some v \<Longrightarrow> IsActive v \<Longrightarrow>
      active s (se_ChargerID v) (se_ConnectorID v) \<noteq> None"
    and by_tx_sound: "inv s \<Longrightarrow> by_tx s c t = Some v \<Longrightarrow>
      get s (se_ID v) = Some v \<and> se_ChargerID v = c \<and> se_TransactionID v = t"
    and by_tx_complete: "inv s \<Longrightarrow> get s k = Some v \<Longrightarrow>
      by_tx s (se_ChargerID v) (se_TransactionID v) \<noteq> None"
begin

lemma by_tx_after_put:
  assumes "inv s" "ok v" "put v s = Inr s'"
    and fresh: "by_tx s (se_ChargerID v) (se_TransactionID v) = None"
  shows "by_tx s' (se_ChargerID v) (se_TransactionID v) = Some v"
proof -
  have inv': "inv s'" using assms by (blast intro: put_inv)
  have g: "get s' k = (if k = se_ID v then Some v else get s k)" for k
    using assms by (simp add: get_put)
  obtain w where w: "by_tx s' (se_ChargerID v) (se_TransactionID v) = Some w"
    using by_tx_complete [OF inv', of "se_ID v" v] g by auto
  from by_tx_sound [OF inv' w] have gw: "get s' (se_ID w) = Some w" and
    eq: "se_ChargerID w = se_ChargerID v" "se_TransactionID w = se_TransactionID v" by auto
  have "w = v"
  proof (cases "se_ID w = se_ID v")
    case True
    with g gw show ?thesis by simp
  next
    case False
    with g gw have "get s (se_ID w) = Some w" by simp
    from by_tx_complete [OF \<open>inv s\<close> this] eq fresh show ?thesis by simp
  qed
  with w show ?thesis by simp
qed

lemma active_after_put_active:
  assumes "inv s" "ok v" "put v s = Inr s'" "IsActive v"
  shows "active s' (se_ChargerID v) (se_ConnectorID v) \<noteq> None"
proof -
  have "inv s'" using assms by (blast intro: put_inv)
  moreover have "get s' (se_ID v) = Some v" using assms by (simp add: get_put)
  ultimately show ?thesis using assms(4) by (rule active_complete)
qed

text \<open>Storing the stopped version of a connector's only active session leaves it idle.\<close>

lemma active_after_put_stopped:
  assumes "inv s" "ok v" "put v s = Inr s'" "\<not> IsActive v"
    and only: "\<And>k w. get s k = Some w \<Longrightarrow> IsActive w \<Longrightarrow> se_ChargerID w = c \<Longrightarrow>
      se_ConnectorID w = n \<Longrightarrow> k = se_ID v"
  shows "active s' c n = None"
proof (rule ccontr)
  assume "active s' c n \<noteq> None"
  then obtain w where w: "active s' c n = Some w" by auto
  have inv': "inv s'" using assms by (blast intro: put_inv)
  from active_sound [OF inv' w] have gw: "get s' (se_ID w) = Some w" and
    pw: "se_ChargerID w = c" "se_ConnectorID w = n" "IsActive w" by auto
  have g: "get s' (se_ID w) = (if se_ID w = se_ID v then Some v else get s (se_ID w))"
    using assms(1-3) by (rule get_put)
  show False
  proof (cases "se_ID w = se_ID v")
    case True
    with g gw have "w = v" by simp
    with pw(3) assms(4) show False by simp
  next
    case False
    with g gw have "get s (se_ID w) = Some w" by simp
    from only [OF this pw(3,1,2)] False show False by simp
  qed
qed

end

subsection \<open>The in-memory stores keep the contracts\<close>

definition charger_repo_ok :: "charger_repo \<Rightarrow> bool" where
  "charger_repo_ok r \<longleftrightarrow> keyed_by ch_ID (cr_chargers r) \<and>
     (\<forall>i cs. cr_connectors r i = Some cs \<longrightarrow>
        distinct (map cn_ConnectorID cs) \<and> (\<forall>c \<in> set cs. cn_ChargerID c = i))"

definition session_repo_ok :: "session_repo \<Rightarrow> bool" where
  "session_repo_ok r \<longleftrightarrow> keyed_by se_ID r \<and> '''' \<notin> set (keys_of r)"

definition proxy_repo_ok :: "proxy_repo \<Rightarrow> bool" where
  "proxy_repo_ok r \<longleftrightarrow> (\<forall>i c. r i = Some c \<longrightarrow> pc_ChargerID c = i)"

definition lookup_charger :: "charger_repo \<Rightarrow> charger_id \<Rightarrow> charger option" where
  "lookup_charger r i = ok_val (GetCharger i r)"

definition lookup_connector :: "charger_repo \<Rightarrow> charger_id \<times> int \<Rightarrow> connector option" where
  "lookup_connector r k = ok_val (GetConnector (fst k) (snd k) r)"

definition lookup_session :: "session_repo \<Rightarrow> string \<Rightarrow> session option" where
  "lookup_session r k = ok_val (GetSession k r)"

definition active_session :: "session_repo \<Rightarrow> charger_id \<Rightarrow> int \<Rightarrow> session option" where
  "active_session r i n = (case GetActiveSession i n r of Inl _ \<Rightarrow> None | Inr v \<Rightarrow> v)"

definition session_by_tx :: "session_repo \<Rightarrow> charger_id \<Rightarrow> int \<Rightarrow> session option" where
  "session_by_tx r i t = (case GetSessionByTransactionID i t r of Inl _ \<Rightarrow> None | Inr v \<Rightarrow> v)"

lemma lookup_charger_map: "lookup_charger r i = map_of (cr_chargers r) i"
  by (simp add: lookup_charger_def GetCharger_def split: option.splits)

lemma lookup_session_map: "lookup_session r k = map_of r k"
  by (simp add: lookup_session_def GetSession_def split: option.splits)

lemma lookup_connector_find:
  "lookup_connector r (i, n) = List.find (\<lambda>c. cn_ConnectorID c = n) (conns_of r i)"
  by (simp add: lookup_connector_def GetConnector_def split: option.splits)

lemma session_vals_iff:
  "session_repo_ok r \<Longrightarrow> v \<in> set (vals_of r) \<longleftrightarrow> lookup_session r (se_ID v) = Some v"
  by (simp only: session_repo_ok_def lookup_session_map keyed_by_vals_iff)

lemma active_session_None:
  "active_session r i n = None \<longleftrightarrow>
     (\<forall>s \<in> set (vals_of r). \<not> (se_ChargerID s = i \<and> se_ConnectorID s = n \<and> IsActive s))"
  by (simp add: active_session_def GetActiveSession_def find_None_iff_all IsActive_def)

lemma active_session_Some:
  "active_session r i n = Some s \<Longrightarrow>
     s \<in> set (vals_of r) \<and> se_ChargerID s = i \<and> se_ConnectorID s = n \<and> IsActive s"
  by (auto simp: active_session_def GetActiveSession_def IsActive_def dest!: find_Some_P)

lemma session_by_tx_None:
  "session_by_tx r i t = None \<longleftrightarrow>
     (\<forall>s \<in> set (vals_of r). \<not> (se_ChargerID s = i \<and> se_TransactionID s = t))"
  by (simp add: session_by_tx_def GetSessionByTransactionID_def find_None_iff_all)

lemma session_by_tx_Some:
  "session_by_tx r i t = Some s \<Longrightarrow>
     s \<in> set (vals_of r) \<and> se_ChargerID s = i \<and> se_TransactionID s = t"
  by (auto simp: session_by_tx_def GetSessionByTransactionID_def dest!: find_Some_P)

lemma find_upsert_conn:
  "List.find (\<lambda>c. cn_ConnectorID c = n) (upsert_conn conn cs) =
     (if n = cn_ConnectorID conn then Some conn else List.find (\<lambda>c. cn_ConnectorID c = n) cs)"
  by (induction cs) auto

lemma set_upsert_conn: "set (upsert_conn conn cs) \<subseteq> insert conn (set cs)"
  by (induction cs) auto

lemma upsert_conn_mem: "conn \<in> set (upsert_conn conn cs)"
  by (induction cs) auto

lemma ids_upsert_conn:
  "cn_ConnectorID ` set (upsert_conn conn cs) = insert (cn_ConnectorID conn) (cn_ConnectorID ` set cs)"
  by (induction cs) auto

lemma distinct_upsert_conn:
  "distinct (map cn_ConnectorID cs) \<Longrightarrow> distinct (map cn_ConnectorID (upsert_conn conn cs))"
proof (induction cs)
  case (Cons c cs)
  then show ?case using ids_upsert_conn [of conn cs] by auto
qed simp

lemma NewInMemoryChargerRepository_ok: "charger_repo_ok NewInMemoryChargerRepository"
  by (simp add: charger_repo_ok_def NewInMemoryChargerRepository_def)

lemma UpsertCharger_ok [inv_pres]:
  "charger_repo_ok r \<Longrightarrow> UpsertCharger c r = Inr r' \<Longrightarrow> charger_repo_ok r'"
  by (auto simp: charger_repo_ok_def UpsertCharger_def)

lemma MarkOnline_ok [inv_pres]:
  assumes "charger_repo_ok r" "MarkOnline i b r = Inr r'"
  shows "charger_repo_ok r'"
proof -
  from assms(2) obtain c where c: "map_of (cr_chargers r) i = Some c"
    and r': "r' = r\<lparr>cr_chargers := AList.update i (c\<lparr>ch_Online := b\<rparr>) (cr_chargers r)\<rparr>"
    by (auto simp: MarkOnline_def split: option.splits)
  with assms(1) have "ch_ID c = i"
    by (auto simp: charger_repo_ok_def intro: keyed_by_map_of)
  with assms(1) show ?thesis by (auto simp: charger_repo_ok_def r' intro!: keyed_by_update)
qed

lemma conns_of_ok:
  assumes "charger_repo_ok r"
  shows "distinct (map cn_ConnectorID (conns_of r i))" "c \<in> set (conns_of r i) \<Longrightarrow> cn_ChargerID c = i"
  using assms by (cases "cr_connectors r i"; simp add: charger_repo_ok_def conns_of_def)+

lemma UpsertConnector_ok [inv_pres]:
  assumes "charger_repo_ok r" "UpsertConnector conn r = Inr r'"
  shows "charger_repo_ok r'"
proof -
  let ?cs = "upsert_conn conn (conns_of r (cn_ChargerID conn))"
  have "distinct (map cn_ConnectorID ?cs)"
    by (intro distinct_upsert_conn conns_of_ok assms(1))
  moreover have "cn_ChargerID c = cn_ChargerID conn" if "c \<in> set ?cs" for c
    using that set_upsert_conn [of conn] conns_of_ok(2) [OF assms(1)] by blast
  ultimately show ?thesis
    using assms by (auto simp: charger_repo_ok_def UpsertConnector_def split: if_splits)
qed

lemma CreateSession_ok [inv_pres]:
  "session_repo_ok r \<Longrightarrow> CreateSession now s r = Inr r' \<Longrightarrow> session_repo_ok r'"
  by (auto simp: session_repo_ok_def CreateSession_def Let_def simp del: set_map split: if_splits)

lemma UpdateSession_ok [inv_pres]:
  "session_repo_ok r \<Longrightarrow> UpdateSession s r = Inr r' \<Longrightarrow> session_repo_ok r'"
proof -
  assume r: "session_repo_ok r" "UpdateSession s r = Inr r'"
  then obtain v where v: "map_of r (se_ID s) = Some v" "r' = AList.update (se_ID s) s r"
    by (auto simp: UpdateSession_def split: option.splits)
  then have "se_ID s \<in> set (keys_of r)" by (force dest: map_of_SomeD)
  then show ?thesis using r(1) v(2) by (auto simp: session_repo_ok_def simp del: set_map)
qed

text \<open>An update of a stored session stores what creating it would store.\<close>

lemma UpdateSession_eq_Create:
  "se_ID s \<noteq> '''' \<Longrightarrow> lookup_session r (se_ID s) \<noteq> None \<Longrightarrow>
     (UpdateSession s r :: repo_error + session_repo) = CreateSession now s r"
  by (auto simp: UpdateSession_def CreateSession_def lookup_session_map)

interpretation chargers: keyed_store UpsertCharger lookup_charger ch_ID "\<lambda>_. True" charger_repo_ok
proof (unfold_locales, goal_cases)
  case (2 s v s')
  then show ?case by (auto intro: UpsertCharger_ok)
qed (auto simp: UpsertCharger_def lookup_charger_map charger_repo_ok_def dest: keyed_by_map_of)

interpretation connectors: keyed_store UpsertConnector lookup_connector
  "\<lambda>c. (cn_ChargerID c, cn_ConnectorID c)" "\<lambda>_. True" charger_repo_ok
proof (unfold_locales, goal_cases)
  case (1 s v)
  then show ?case by (simp add: UpsertConnector_def)
next
  case (2 s v s')
  then show ?case by (auto intro: UpsertConnector_ok)
next
  case (3 s v s' k)
  then show ?case
    by (cases k) (auto simp: UpsertConnector_def lookup_connector_find conns_of_def find_upsert_conn)
next
  case (4 s k v)
  then show ?case
    by (cases k) (auto simp: lookup_connector_find conns_of_ok dest!: find_Some_P)
qed

interpretation proxies: keyed_store UpsertProxyConfig "\<lambda>r. r" pc_ChargerID "\<lambda>_. True" proxy_repo_ok
  by unfold_locales (auto simp: UpsertProxyConfig_def proxy_repo_ok_def split: if_splits)

interpretation sess: session_store "CreateSession now" lookup_session
  "\<lambda>s. se_ID s \<noteq> ''''" session_repo_ok active_session session_by_tx for now
proof (unfold_locales, goal_cases)
  case (1 s v)
  then show ?case by (simp add: CreateSession_def)
next
  case (2 s v s')
  then show ?case by (blast intro: CreateSession_ok)
next
  case (3 s v s' k)
  then show ?case by (auto simp: CreateSession_def lookup_session_map)
next
  case (4 s k v)
  then show ?case by (auto simp: lookup_session_map session_repo_ok_def dest: keyed_by_map_of)
next
  case (5 s c n v)
  then show ?case using session_vals_iff active_session_Some by blast
next
  case (6 s k v)
  then have "se_ID v = k" by (auto simp: lookup_session_map session_repo_ok_def dest: keyed_by_map_of)
  with 6 have "v \<in> set (vals_of s)" by (simp only: session_vals_iff)
  with 6 show ?case by (auto simp: active_session_None simp del: set_map)
next
  case (7 s c t v)
  then show ?case using session_vals_iff session_by_tx_Some by blast
next
  case (8 s k v)
  then have "se_ID v = k" by (auto simp: lookup_session_map session_repo_ok_def dest: keyed_by_map_of)
  with 8 have "v \<in> set (vals_of s)" by (simp only: session_vals_iff)
  with 8 show ?case by (auto simp: session_by_tx_None simp del: set_map)
qed

lemma lookup_session_key:
  "session_repo_ok r \<Longrightarrow> lookup_session r k = Some v \<Longrightarrow> se_ID v = k \<and> k \<noteq> ''''"
  by (auto simp: session_repo_ok_def lookup_session_map dest: keyed_by_map_of map_of_SomeD
      intro: rev_image_eqI)

subsection \<open>Purging meter values\<close>

lemma purge_loop_spec:
  "purge_loop before mvs kept n =
     (kept @ filter (\<lambda>mv. before \<le> mv_Timestamp mv) mvs,
      n + int (length (filter (\<lambda>mv. mv_Timestamp mv < before) mvs)))"
  by (induction before mvs kept n rule: purge_loop.induct) auto

end
