(* ===== verification/Policy.thy ===== *)
theory Policy
  imports Prelude
begin

section \<open>Policy: where an OCPP message goes\<close>

text \<open>
  \<open>internal/domain/proxy/policy.go\<close>: the routing decision for each OCPP action and direction,
  per-charger overrides, and their JSON form. A \<open>RouteDecision\<close> is an integer in the source;
  \<open>DecisionOther\<close> stands for the values that are none of its four constants.
\<close>

datatype RouteDecision =
    DecisionLocalOnly
  | DecisionUpstreamOnly
  | DecisionBoth
  | DecisionDrop
  | DecisionOther int

datatype Direction = DirectionInbound | DirectionOutbound

definition ShouldForward :: "RouteDecision \<Rightarrow> bool" where
  "ShouldForward d \<longleftrightarrow> d = DecisionUpstreamOnly \<or> d = DecisionBoth"

definition ShouldHandleLocally :: "RouteDecision \<Rightarrow> bool" where
  "ShouldHandleLocally d \<longleftrightarrow> d = DecisionLocalOnly \<or> d = DecisionBoth"

fun decision_string :: "RouteDecision \<Rightarrow> string" where
  "decision_string DecisionLocalOnly = ''local_only''"
| "decision_string DecisionUpstreamOnly = ''upstream_only''"
| "decision_string DecisionBoth = ''both''"
| "decision_string DecisionDrop = ''drop''"
| "decision_string (DecisionOther _) = ''unknown''"

record policy =
  po_inbound :: "string \<rightharpoonup> RouteDecision"
  po_outbound :: "string \<rightharpoonup> RouteDecision"

definition DefaultPolicy :: policy where
  "DefaultPolicy = \<lparr>
     po_inbound =
       [''BootNotification'' \<mapsto> DecisionBoth,
        ''Heartbeat'' \<mapsto> DecisionBoth,
        ''Authorize'' \<mapsto> DecisionUpstreamOnly,
        ''StartTransaction'' \<mapsto> DecisionBoth,
        ''StopTransaction'' \<mapsto> DecisionBoth,
        ''StatusNotification'' \<mapsto> DecisionBoth,
        ''MeterValues'' \<mapsto> DecisionBoth,
        ''DataTransfer'' \<mapsto> DecisionUpstreamOnly,
        ''FirmwareStatusNotification'' \<mapsto> DecisionUpstreamOnly,
        ''DiagnosticsStatusNotification'' \<mapsto> DecisionUpstreamOnly],
     po_outbound =
       [''SetChargingProfile'' \<mapsto> DecisionLocalOnly,
        ''ClearChargingProfile'' \<mapsto> DecisionLocalOnly,
        ''RemoteStartTransaction'' \<mapsto> DecisionBoth,
        ''RemoteStopTransaction'' \<mapsto> DecisionBoth,
        ''TriggerMessage'' \<mapsto> DecisionBoth,
        ''GetConfiguration'' \<mapsto> DecisionBoth,
        ''ChangeConfiguration'' \<mapsto> DecisionBoth,
        ''Reset'' \<mapsto> DecisionBoth,
        ''UnlockConnector'' \<mapsto> DecisionBoth,
        ''GetLog'' \<mapsto> DecisionBoth,
        ''GetDiagnostics'' \<mapsto> DecisionBoth,
        ''ReserveNow'' \<mapsto> DecisionUpstreamOnly,
        ''CancelReservation'' \<mapsto> DecisionUpstreamOnly,
        ''UpdateFirmware'' \<mapsto> DecisionUpstreamOnly,
        ''ClearCache'' \<mapsto> DecisionUpstreamOnly]\<rparr>"

definition Decide :: "policy \<Rightarrow> Direction \<Rightarrow> string \<Rightarrow> RouteDecision" where
  "Decide p dir action =
     (case (case dir of DirectionInbound \<Rightarrow> po_inbound p action
                      | DirectionOutbound \<Rightarrow> po_outbound p action) of
        Some d \<Rightarrow> d
      | None \<Rightarrow> DecisionLocalOnly)"

text \<open>One iteration of the loop of \<open>Merge\<close>: \<open>p\<close> is the policy merged into, whose maps
  decide which side an override changes.\<close>

definition merge_one :: "policy \<Rightarrow> string \<times> RouteDecision \<Rightarrow> policy \<Rightarrow> policy" where
  "merge_one p ov merged =
     (let (action, d) = ov in
      if po_inbound p action \<noteq> None then merged\<lparr>po_inbound := (po_inbound merged)(action \<mapsto> d)\<rparr>
      else if po_outbound p action \<noteq> None then merged\<lparr>po_outbound := (po_outbound merged)(action \<mapsto> d)\<rparr>
      else merged\<lparr>po_inbound := (po_inbound merged)(action \<mapsto> d)\<rparr>)"

definition Merge :: "policy \<Rightarrow> (string \<times> RouteDecision) list \<Rightarrow> policy" where
  "Merge p overrides = (if overrides = [] then p else fold (merge_one p) overrides p)"

definition quote :: char where "quote = CHR 0x22"

definition MarshalJSON :: "RouteDecision \<Rightarrow> string" where
  "MarshalJSON d = quote # decision_string d @ [quote]"

definition UnmarshalJSON :: "string \<Rightarrow> RouteDecision" where
  "UnmarshalJSON s =
     (let s = (if length s \<ge> 2 \<and> hd s = quote \<and> last s = quote then butlast (tl s) else s) in
      if s = ''local_only'' then DecisionLocalOnly
      else if s = ''upstream_only'' then DecisionUpstreamOnly
      else if s = ''both'' then DecisionBoth
      else if s = ''drop'' then DecisionDrop
      else DecisionLocalOnly)"

subsection \<open>Decisions of a merged policy\<close>

lemma Decide_simps [simp]:
  "Decide p DirectionInbound a = (case po_inbound p a of Some d \<Rightarrow> d | None \<Rightarrow> DecisionLocalOnly)"
  "Decide p DirectionOutbound a = (case po_outbound p a of Some d \<Rightarrow> d | None \<Rightarrow> DecisionLocalOnly)"
  by (simp_all add: Decide_def)

lemma merge_one_maps:
  "po_inbound (merge_one p (k, d) m) a =
     (if a = k \<and> (po_inbound p k \<noteq> None \<or> po_outbound p k = None) then Some d else po_inbound m a)"
  "po_outbound (merge_one p (k, d) m) a =
     (if a = k \<and> po_inbound p k = None \<and> po_outbound p k \<noteq> None then Some d else po_outbound m a)"
  by (auto simp: merge_one_def)

lemma merge_fold:
  assumes "distinct (keys_of ov)"
  shows "po_inbound (fold (merge_one p) ov m) a =
      (if po_inbound p a \<noteq> None \<or> po_outbound p a = None
       then (case map_of ov a of Some d \<Rightarrow> Some d | None \<Rightarrow> po_inbound m a) else po_inbound m a)
    \<and> po_outbound (fold (merge_one p) ov m) a =
      (if po_inbound p a = None \<and> po_outbound p a \<noteq> None
       then (case map_of ov a of Some d \<Rightarrow> Some d | None \<Rightarrow> po_outbound m a) else po_outbound m a)"
  using assms
proof (induction ov arbitrary: m)
  case (Cons x ov)
  obtain k d where x: "x = (k, d)" by (cases x)
  with Cons.prems have "distinct (keys_of ov)" and k: "map_of ov k = None"
    by (auto simp: map_of_eq_None_iff)
  note IH = Cons.IH [OF this(1), of "merge_one p (k, d) m"]
  show ?case
    unfolding x fold_Cons comp_apply IH [THEN conjunct1] IH [THEN conjunct2] merge_one_maps
    using k by (cases "a = k") auto
qed simp

lemma merge_maps:
  assumes "distinct (keys_of ov)"
  shows "po_inbound (Merge p ov) a =
      (if po_inbound p a \<noteq> None \<or> po_outbound p a = None
       then (case map_of ov a of Some d \<Rightarrow> Some d | None \<Rightarrow> po_inbound p a) else po_inbound p a)"
    and "po_outbound (Merge p ov) a =
      (if po_inbound p a = None \<and> po_outbound p a \<noteq> None
       then (case map_of ov a of Some d \<Rightarrow> Some d | None \<Rightarrow> po_outbound p a) else po_outbound p a)"
  using merge_fold [OF assms, of p p a] by (auto simp: Merge_def)

subsection \<open>Properties\<close>

text \<open>
  C24: merging overrides into a policy changes exactly the decisions of the overridden actions, on
  the side (inbound or outbound) that already knows the action and on the inbound side for an
  action neither side knows; whatever the iteration order of the override map, every other
  decision is the old one.
\<close>

theorem merge_decides:
  assumes "distinct (keys_of ov)"
  shows "Decide (Merge p ov) dir a =
    (case map_of ov a of
       None \<Rightarrow> Decide p dir a
     | Some d \<Rightarrow>
         (if (dir = DirectionOutbound) = (po_inbound p a = None \<and> po_outbound p a \<noteq> None)
          then d else Decide p dir a))"
  using merge_maps [OF assms, of p a]
  by (cases dir) (auto split: option.splits if_splits)

theorem merge_decides_witness:
  "Decide (Merge DefaultPolicy [(''Authorize'', DecisionLocalOnly), (''Reset'', DecisionDrop)])
     DirectionOutbound ''Reset'' = DecisionDrop"
proof -
  have "distinct (keys_of [(''Authorize'', DecisionLocalOnly), (''Reset'', DecisionDrop)])" by simp
  from merge_decides [OF this, of DefaultPolicy DirectionOutbound "''Reset''"] show ?thesis
    by (simp add: DefaultPolicy_def)
qed

text \<open>
  The default policy never sends upstream a message it does not list, and never the charging
  profile commands of the local solar logic; a forwarded message is one of the listed actions of
  its own direction.
\<close>

theorem default_policy_no_leak:
  "ShouldForward (Decide DefaultPolicy dir a) \<Longrightarrow>
     a \<noteq> ''SetChargingProfile'' \<and> a \<noteq> ''ClearChargingProfile'' \<and>
     (dir = DirectionInbound \<longrightarrow> a \<in> dom (po_inbound DefaultPolicy)) \<and>
     (dir = DirectionOutbound \<longrightarrow> a \<in> dom (po_outbound DefaultPolicy))"
  by (cases dir) (auto simp: ShouldForward_def DefaultPolicy_def split: if_splits)

theorem default_policy_no_leak_witness:
  "ShouldForward (Decide DefaultPolicy DirectionInbound ''Heartbeat'') \<and>
   ''Heartbeat'' \<in> dom (po_inbound DefaultPolicy)"
proof -
  have "ShouldForward (Decide DefaultPolicy DirectionInbound ''Heartbeat'')"
    by (simp add: ShouldForward_def DefaultPolicy_def)
  with default_policy_no_leak [OF this] show ?thesis by simp
qed

text \<open>
  The JSON form of a decision reads back as the decision for the four constants, and as
  \<open>DecisionLocalOnly\<close>, the decision that leaks nothing, for every other value.
\<close>

theorem decision_json_roundtrip:
  "UnmarshalJSON (MarshalJSON d) = (case d of DecisionOther _ \<Rightarrow> DecisionLocalOnly | _ \<Rightarrow> d)"
  by (cases d) (simp_all add: MarshalJSON_def UnmarshalJSON_def quote_def)

end
