(* ===== verification/Calculator.thy ===== *)
theory Calculator
  imports Domain
begin

section \<open>Calculator: the current limit from the solar surplus\<close>

text \<open>
  \<open>internal/domain/smartcharging\<close>: \<open>types.go\<close> and \<open>calculator.go\<close>. A sample reaches the
  calculator as \<open>float64\<close> of an \<open>int64\<close> reading, so its fields are finite and exact here:
  rationals. \<open>Compute\<close> holds the calculator's mutex from its first access to the maps on, so it
  is one step on the calculator. The five reasons the code writes into \<open>Reason\<close> are the
  constructors of \<open>reason\<close>.
\<close>

record meter_sample =
  ms_GridPowerW :: rat
  ms_SolarPowerW :: rat
  ms_ConsumptionPowerW :: rat

datatype reason =
    InsufficientSurplus   \<comment> \<open>"insufficient surplus, falling back to minimum"\<close>
  | HoldingDebounce       \<comment> \<open>"below threshold, holding while stop debouncing"\<close>
  | HoldingHysteresis     \<comment> \<open>"within hysteresis band, holding previous limit"\<close>
  | SolarMinusConsumption \<comment> \<open>"solar surplus adjusted (solar-consumption)"\<close>
  | GridFallback          \<comment> \<open>"solar surplus adjusted (grid fallback)"\<close>

record profile_request =
  pr_LimitAmps :: int
  pr_Reason :: reason
  pr_ShouldStop :: bool

record charger_stop_state =
  isStopped :: bool
  belowCount :: int
  aboveCount :: int

record calculator =
  ca_minAmps :: int
  ca_maxAmps :: int
  ca_gridVolt :: rat
  ca_hysteresis :: int
  ca_lastLimit :: "charger_id \<rightharpoonup> int"
  ca_stopState :: "charger_id \<rightharpoonup> charger_stop_state"

definition crossValidationToleranceW :: rat where "crossValidationToleranceW = 500"
definition stopConfirmTicks :: int where "stopConfirmTicks = 3"
definition runConfirmTicks :: int where "runConfirmTicks = 2"

definition NewCalculator :: "int \<Rightarrow> int \<Rightarrow> rat \<Rightarrow> calculator" where
  "NewCalculator minA maxA volt =
     \<lparr>ca_minAmps = minA, ca_maxAmps = maxA, ca_gridVolt = volt, ca_hysteresis = 2,
      ca_lastLimit = Map.empty, ca_stopState = Map.empty\<rparr>"

definition SetLimits :: "int \<Rightarrow> int \<Rightarrow> calculator \<Rightarrow> calculator" where
  "SetLimits minA maxA c = c\<lparr>ca_minAmps := minA, ca_maxAmps := maxA\<rparr>"

definition computeSurplus :: "meter_sample \<Rightarrow> rat" where
  "computeSurplus s =
     (if ms_SolarPowerW s > 0 \<or> ms_ConsumptionPowerW s > 0
      then ms_SolarPowerW s - ms_ConsumptionPowerW s
      else ms_GridPowerW s * (- 1))"

definition surplusMethod :: "meter_sample \<Rightarrow> reason" where
  "surplusMethod s =
     (if ms_SolarPowerW s > 0 \<or> ms_ConsumptionPowerW s > 0 then SolarMinusConsumption
      else GridFallback)"

definition zero_stop_state :: charger_stop_state where
  "zero_stop_state = \<lparr>isStopped = False, belowCount = 0, aboveCount = 0\<rparr>"

text \<open>The debouncing of stop and restart inside \<open>Compute\<close>.\<close>

definition stop_step :: "bool \<Rightarrow> charger_stop_state \<Rightarrow> charger_stop_state" where
  "stop_step wouldStop st =
     (if isStopped st then
        if wouldStop then st\<lparr>aboveCount := 0\<rparr>
        else let st = st\<lparr>aboveCount := aboveCount st + 1\<rparr> in
          if aboveCount st \<ge> runConfirmTicks then st\<lparr>isStopped := False, belowCount := 0\<rparr> else st
      else
        if wouldStop then
          let st = st\<lparr>belowCount := belowCount st + 1\<rparr> in
          if belowCount st \<ge> stopConfirmTicks then st\<lparr>isStopped := True, aboveCount := 0\<rparr> else st
        else st\<lparr>belowCount := 0\<rparr>)"

definition idealAmps :: "calculator \<Rightarrow> meter_sample \<Rightarrow> int" where
  "idealAmps c s =
     (let surplusW = computeSurplus s; availableW = (if surplusW < 0 then 0 else surplusW)
      in \<lfloor>availableW / ca_gridVolt c\<rfloor>)"

definition Compute ::
  "charger_id \<Rightarrow> meter_sample \<Rightarrow> calculator \<Rightarrow> calculator \<times> profile_request" where
  "Compute i sample c =
     (let ideal = idealAmps c sample;
          st = (case ca_stopState c i of None \<Rightarrow> zero_stop_state | Some st \<Rightarrow> st);
          wouldStop = ideal < ca_minAmps c;
          st = stop_step wouldStop st;
          c = c\<lparr>ca_stopState := (ca_stopState c)(i \<mapsto> st)\<rparr>;
          prev = ca_lastLimit c i
      in if isStopped st then
           (c\<lparr>ca_lastLimit := (ca_lastLimit c)(i \<mapsto> ca_minAmps c)\<rparr>,
            \<lparr>pr_LimitAmps = ca_minAmps c, pr_Reason = InsufficientSurplus, pr_ShouldStop = True\<rparr>)
         else if wouldStop then
           let hold = (case prev of Some p \<Rightarrow> if p \<ge> ca_minAmps c then p else ca_minAmps c
                                  | None \<Rightarrow> ca_minAmps c)
           in (c\<lparr>ca_lastLimit := (ca_lastLimit c)(i \<mapsto> hold)\<rparr>,
               \<lparr>pr_LimitAmps = hold, pr_Reason = HoldingDebounce, pr_ShouldStop = False\<rparr>)
         else
           let ideal = (if ideal > ca_maxAmps c then ca_maxAmps c else ideal) in
           (case prev of
              Some p \<Rightarrow>
                if p > 0 \<and> abs_int (ideal - p) < ca_hysteresis c
                then (c, \<lparr>pr_LimitAmps = p, pr_Reason = HoldingHysteresis, pr_ShouldStop = False\<rparr>)
                else (c\<lparr>ca_lastLimit := (ca_lastLimit c)(i \<mapsto> ideal)\<rparr>,
                      \<lparr>pr_LimitAmps = ideal, pr_Reason = surplusMethod sample, pr_ShouldStop = False\<rparr>)
            | None \<Rightarrow>
                (c\<lparr>ca_lastLimit := (ca_lastLimit c)(i \<mapsto> ideal)\<rparr>,
                 \<lparr>pr_LimitAmps = ideal, pr_Reason = surplusMethod sample, pr_ShouldStop = False\<rparr>)))"

definition CrossValidationDrift :: "meter_sample \<Rightarrow> rat" where
  "CrossValidationDrift s =
     (if ms_SolarPowerW s \<le> 0 \<and> ms_ConsumptionPowerW s \<le> 0 then 0
      else if ms_GridPowerW s = 0 then 0
      else \<bar>(ms_SolarPowerW s - ms_ConsumptionPowerW s) - ms_GridPowerW s * (- 1)\<bar>)"

definition HasSensorDrift :: "meter_sample \<Rightarrow> bool" where
  "HasSensorDrift s \<longleftrightarrow> CrossValidationDrift s > crossValidationToleranceW"

subsection \<open>Running the calculator over a history\<close>

text \<open>The calls the controller makes, in order: each names a charger and its sample.\<close>

fun compute_run :: "(charger_id \<times> meter_sample) list \<Rightarrow> calculator \<Rightarrow> calculator" where
  "compute_run [] c = c"
| "compute_run ((i, s) # hs) c = compute_run hs (fst (Compute i s c))"

lemma compute_run_append: "compute_run (xs @ ys) c = compute_run ys (compute_run xs c)"
  by (induction xs c rule: compute_run.induct) auto

definition stop_state :: "calculator \<Rightarrow> charger_id \<Rightarrow> charger_stop_state" where
  "stop_state c i = (case ca_stopState c i of None \<Rightarrow> zero_stop_state | Some st \<Rightarrow> st)"

definition would_stop :: "calculator \<Rightarrow> meter_sample \<Rightarrow> bool" where
  "would_stop c s \<longleftrightarrow> idealAmps c s < ca_minAmps c"

lemma stop_state_New: "stop_state (NewCalculator minA maxA v) i = zero_stop_state"
  by (simp add: stop_state_def NewCalculator_def)

text \<open>What \<open>Compute\<close> does to each field.\<close>

lemma Compute_frame [simp]:
  "ca_minAmps (fst (Compute i s c)) = ca_minAmps c"
  "ca_maxAmps (fst (Compute i s c)) = ca_maxAmps c"
  "ca_gridVolt (fst (Compute i s c)) = ca_gridVolt c"
  "ca_hysteresis (fst (Compute i s c)) = ca_hysteresis c"
  by (simp_all add: Compute_def Let_def split: option.splits)

lemma Compute_stop_state:
  "stop_state (fst (Compute i s c)) j =
     (if j = i then stop_step (would_stop c s) (stop_state c i) else stop_state c j)"
  by (simp add: Compute_def stop_state_def would_stop_def Let_def split: option.splits)

lemma Compute_ShouldStop:
  "pr_ShouldStop (snd (Compute i s c)) = isStopped (stop_step (would_stop c s) (stop_state c i))"
  by (simp add: Compute_def stop_state_def would_stop_def Let_def split: option.splits)

lemma Compute_other: "j \<noteq> i \<Longrightarrow> ca_lastLimit (fst (Compute i s c)) j = ca_lastLimit c j"
  by (simp add: Compute_def Let_def split: option.splits)

lemma idealAmps_frame: "ca_gridVolt c = ca_gridVolt d \<Longrightarrow> idealAmps c s = idealAmps d s"
  by (simp add: idealAmps_def)

lemma would_stop_Compute [simp]: "would_stop (fst (Compute i s c)) t = would_stop c t"
  by (simp add: would_stop_def idealAmps_def)

lemma compute_run_frame [simp]:
  "ca_minAmps (compute_run hs c) = ca_minAmps c"
  "ca_maxAmps (compute_run hs c) = ca_maxAmps c"
  "ca_gridVolt (compute_run hs c) = ca_gridVolt c"
  "ca_hysteresis (compute_run hs c) = ca_hysteresis c"
  by (induction hs c rule: compute_run.induct) auto

lemma would_stop_run [simp]: "would_stop (compute_run hs c) s = would_stop c s"
  by (simp add: would_stop_def idealAmps_def)

subsection \<open>The debouncing, specified on the history of observations\<close>

text \<open>
  The specification reads a history of "would stop" observations, oldest first: the charger is
  stopped when some three consecutive observations said so and no two consecutive ones since then
  said otherwise.
\<close>

definition no_two_false :: "bool list \<Rightarrow> bool" where
  "no_two_false ys \<longleftrightarrow> (\<nexists>u v. ys = u @ [False, False] @ v)"

definition debounced :: "bool list \<Rightarrow> bool" where
  "debounced bs \<longleftrightarrow> (\<exists>xs ys. bs = xs @ [True, True, True] @ ys \<and> no_two_false ys)"

definition trailing :: "bool \<Rightarrow> bool list \<Rightarrow> nat" where
  "trailing b bs = length (takeWhile (\<lambda>x. x = b) (rev bs))"

lemma trailing_snoc [simp]: "trailing b (bs @ [c]) = (if c = b then Suc (trailing b bs) else 0)"
  by (simp add: trailing_def)

lemma trailing_Nil [simp]: "trailing b [] = 0"
  by (simp add: trailing_def)

lemma trailing_pos: "trailing b bs > 0 \<longleftrightarrow> (\<exists>cs. bs = cs @ [b])"
  by (cases bs rule: rev_cases) auto

lemma trailing_split: "n \<le> trailing b bs \<Longrightarrow> \<exists>xs. bs = xs @ replicate n b"
proof (induction n arbitrary: bs)
  case (Suc n)
  then obtain cs where bs: "bs = cs @ [b]" using trailing_pos [of b bs] by auto
  with Suc.prems have "n \<le> trailing b cs" by simp
  from Suc.IH [OF this] bs show ?case by (auto simp: replicate_append_same)
qed simp

lemma no_two_false_snoc_True [simp]: "no_two_false (ys @ [True]) \<longleftrightarrow> no_two_false ys"
proof -
  have "(\<exists>u v. ys @ [True] = u @ [False, False] @ v) \<longleftrightarrow> (\<exists>u v. ys = u @ [False, False] @ v)"
  proof
    assume "\<exists>u v. ys @ [True] = u @ [False, False] @ v"
    then obtain u v where e: "ys @ [True] = u @ [False, False] @ v" by blast
    then obtain v' where "v = v' @ [True]" by (cases v rule: rev_cases) auto
    with e show "\<exists>u v. ys = u @ [False, False] @ v" by auto
  next
    assume "\<exists>u v. ys = u @ [False, False] @ v"
    then obtain u v where "ys @ [True] = u @ [False, False] @ (v @ [True])" by auto
    then show "\<exists>u v. ys @ [True] = u @ [False, False] @ v" by blast
  qed
  then show ?thesis by (simp add: no_two_false_def)
qed

lemma no_two_false_prefix: "no_two_false (ys @ zs) \<Longrightarrow> no_two_false ys"
  unfolding no_two_false_def by (metis append.assoc)

lemma no_two_false_snoc_False:
  "no_two_false (ys @ [False]) \<longleftrightarrow> no_two_false ys \<and> trailing False ys = 0"
proof
  assume a: "no_two_false (ys @ [False])"
  have "trailing False ys = 0"
  proof (rule ccontr)
    assume "trailing False ys \<noteq> 0"
    then obtain w where "ys = w @ [False]" using trailing_pos [of False ys] by auto
    then have "ys @ [False] = w @ [False, False] @ []" by simp
    with a show False unfolding no_two_false_def by blast
  qed
  with a show "no_two_false ys \<and> trailing False ys = 0" by (blast dest: no_two_false_prefix)
next
  assume a: "no_two_false ys \<and> trailing False ys = 0"
  show "no_two_false (ys @ [False])"
    unfolding no_two_false_def
  proof clarify
    fix u v assume e: "ys @ [False] = u @ [False, False] @ v"
    show False
    proof (cases v rule: rev_cases)
      case Nil
      with e have "ys = u @ [False]" by simp
      with a show False by simp
    next
      case (snoc v' x)
      with e have "ys = u @ [False, False] @ v'" by simp
      with a show False by (auto simp: no_two_false_def)
    qed
  qed
qed

lemma debounced_snoc_True:
  "debounced (bs @ [True]) \<longleftrightarrow> debounced bs \<or> 3 \<le> trailing True (bs @ [True])"
proof
  assume "debounced (bs @ [True])"
  then obtain xs ys where e: "bs @ [True] = xs @ [True, True, True] @ ys" and n: "no_two_false ys"
    by (auto simp: debounced_def)
  show "debounced bs \<or> 3 \<le> trailing True (bs @ [True])"
  proof (cases ys rule: rev_cases)
    case Nil
    with e have "bs = (xs @ [True]) @ [True]" by simp
    then show ?thesis by (simp only: trailing_snoc) simp
  next
    case (snoc ys' x)
    with e n have "bs = xs @ [True, True, True] @ ys'" "no_two_false ys'"
      by (auto dest: no_two_false_prefix)
    then show ?thesis by (auto simp: debounced_def)
  qed
next
  assume "debounced bs \<or> 3 \<le> trailing True (bs @ [True])"
  then show "debounced (bs @ [True])"
  proof
    assume "debounced bs"
    then obtain xs ys where "bs = xs @ [True, True, True] @ ys" "no_two_false ys"
      by (auto simp: debounced_def)
    then have "bs @ [True] = xs @ [True, True, True] @ (ys @ [True])" "no_two_false (ys @ [True])"
      by simp_all
    then show ?thesis unfolding debounced_def by blast
  next
    assume "3 \<le> trailing True (bs @ [True])"
    from trailing_split [OF this] obtain xs where "bs @ [True] = xs @ [True, True, True] @ []"
      by (auto simp: numeral_3_eq_3)
    moreover have "no_two_false []" by (simp add: no_two_false_def)
    ultimately show ?thesis unfolding debounced_def by blast
  qed
qed

lemma debounced_snoc_False:
  "debounced (bs @ [False]) \<longleftrightarrow> debounced bs \<and> trailing False bs = 0"
proof
  assume "debounced (bs @ [False])"
  then obtain xs ys where e: "bs @ [False] = xs @ [True, True, True] @ ys" and n: "no_two_false ys"
    by (auto simp: debounced_def)
  then obtain ys' where ys: "ys = ys' @ [False]" by (cases ys rule: rev_cases) auto
  with e n have bs: "bs = (xs @ [True, True] @ [True]) @ ys'" and
    n': "no_two_false ys'" "trailing False ys' = 0"
    by (auto simp: no_two_false_snoc_False)
  have "trailing False bs = 0"
    using n'(2) by (cases ys' rule: rev_cases) (auto simp: bs trailing_def split: if_splits)
  moreover have "debounced bs" using bs n'(1) unfolding debounced_def by auto
  ultimately show "debounced bs \<and> trailing False bs = 0" by simp
next
  assume "debounced bs \<and> trailing False bs = 0"
  then obtain xs ys where bs: "bs = xs @ [True, True, True] @ ys" and n: "no_two_false ys"
    and t: "trailing False bs = 0"
    by (auto simp: debounced_def)
  have "trailing False ys = 0"
    using t by (cases ys rule: rev_cases) (auto simp: bs trailing_def split: if_splits)
  with n have "no_two_false (ys @ [False])" by (simp add: no_two_false_snoc_False)
  moreover have "bs @ [False] = xs @ [True, True, True] @ (ys @ [False])" by (simp add: bs)
  ultimately show "debounced (bs @ [False])" unfolding debounced_def by blast
qed

lemma debounced_Nil [simp]: "\<not> debounced []"
  by (simp add: debounced_def)

text \<open>The counters of \<open>stop_step\<close> count the trailing observations of the history.\<close>

lemma stop_step_refines:
  defines "st bs \<equiv> fold stop_step bs zero_stop_state"
  shows "isStopped (st bs) = debounced bs \<and>
    (if isStopped (st bs) then aboveCount (st bs) = int (trailing False bs) \<and> trailing False bs < 2
     else belowCount (st bs) = int (trailing True bs) \<and> trailing True bs < 3)"
proof (induction bs rule: rev_induct)
  case Nil
  then show ?case by (simp add: st_def zero_stop_state_def)
next
  case (snoc b bs)
  have st: "st (bs @ [b]) = stop_step b (st bs)" by (simp add: st_def)
  show ?case
    unfolding st using snoc.IH
    by (cases b; cases "isStopped (st bs)")
      (auto simp: stop_step_def Let_def stopConfirmTicks_def runConfirmTicks_def
        debounced_snoc_True debounced_snoc_False)
qed

definition samples_of :: "charger_id \<Rightarrow> (charger_id \<times> meter_sample) list \<Rightarrow> meter_sample list" where
  "samples_of i hs = map snd (filter (\<lambda>h. fst h = i) hs)"

lemma stop_state_run:
  "stop_state (compute_run hs c) i =
     fold stop_step (map (would_stop c) (samples_of i hs)) (stop_state c i)"
proof (induction hs arbitrary: c)
  case (Cons h hs)
  obtain j s where h: "h = (j, s)" by (cases h)
  have "would_stop (fst (Compute j s c)) = would_stop c" by (intro ext) simp
  with Cons [of "fst (Compute j s c)"] show ?case
    by (simp add: h samples_of_def Compute_stop_state)
qed (simp add: samples_of_def)

subsection \<open>Limits in range\<close>

definition calculator_ok :: "calculator \<Rightarrow> bool" where
  "calculator_ok c \<longleftrightarrow> ca_minAmps c \<le> ca_maxAmps c \<and>
     (\<forall>i l. ca_lastLimit c i = Some l \<longrightarrow> ca_minAmps c \<le> l \<and> l \<le> ca_maxAmps c)"

lemma NewCalculator_ok: "minA \<le> maxA \<Longrightarrow> calculator_ok (NewCalculator minA maxA v)"
  by (simp add: calculator_ok_def NewCalculator_def)

lemma Compute_limit:
  assumes "calculator_ok c"
  shows "ca_minAmps c \<le> pr_LimitAmps (snd (Compute i s c)) \<and>
         pr_LimitAmps (snd (Compute i s c)) \<le> ca_maxAmps c"
proof -
  have "ca_minAmps c \<le> ca_maxAmps c" using assms by (simp add: calculator_ok_def)
  moreover have "ca_lastLimit c i = Some l \<Longrightarrow> ca_minAmps c \<le> l \<and> l \<le> ca_maxAmps c" for l
    using assms by (simp add: calculator_ok_def)
  ultimately show ?thesis by (auto simp: Compute_def Let_def split: option.splits)
qed

lemma Compute_lastLimit:
  "ca_lastLimit (fst (Compute i s c)) i = Some (pr_LimitAmps (snd (Compute i s c)))"
  by (simp add: Compute_def Let_def split: option.splits)

lemma Compute_ok [inv_pres]:
  assumes "calculator_ok c" shows "calculator_ok (fst (Compute i s c))"
  unfolding calculator_ok_def Compute_frame
proof (intro conjI allI impI)
  show "ca_minAmps c \<le> ca_maxAmps c" using assms by (simp add: calculator_ok_def)
  fix j l assume l: "ca_lastLimit (fst (Compute i s c)) j = Some l"
  show "ca_minAmps c \<le> l" "l \<le> ca_maxAmps c"
    using l assms Compute_limit [OF assms, of i s]
    by (cases "j = i"; simp add: Compute_lastLimit Compute_other calculator_ok_def)+
qed

lemma compute_run_ok: "calculator_ok c \<Longrightarrow> calculator_ok (compute_run hs c)"
  by (induction hs c rule: compute_run.induct) (auto intro: Compute_ok)

text \<open>\<open>Compute\<close> reads and writes only the entries of its own charger.\<close>

lemma Compute_fst:
  "fst (Compute i s c) = c\<lparr>
     ca_lastLimit := (ca_lastLimit c)(i \<mapsto> pr_LimitAmps (snd (Compute i s c))),
     ca_stopState := (ca_stopState c)(i \<mapsto> stop_step (would_stop c s) (stop_state c i))\<rparr>"
  by (simp add: Compute_def stop_state_def would_stop_def Let_def fun_upd_idem split: option.splits)

lemma Compute_snd_cong:
  assumes "ca_minAmps c = ca_minAmps d" "ca_maxAmps c = ca_maxAmps d" "ca_gridVolt c = ca_gridVolt d"
    and "ca_hysteresis c = ca_hysteresis d" "ca_lastLimit c i = ca_lastLimit d i"
    and "stop_state c i = stop_state d i"
  shows "snd (Compute i s c) = snd (Compute i s d)"
proof -
  have "idealAmps c s = idealAmps d s" using assms(3) by (rule idealAmps_frame)
  with assms show ?thesis
    by (simp add: Compute_def stop_state_def [symmetric] Let_def split: option.splits)
qed

subsection \<open>Properties\<close>


text \<open>
  C23: as long as the limits are not changed, every limit the calculator ever returns lies between
  its minimum and its maximum.
\<close>

theorem limit_within_bounds:
  assumes "minA \<le> maxA"
  shows "minA \<le> pr_LimitAmps (snd (Compute i s (compute_run hs (NewCalculator minA maxA v)))) \<and>
         pr_LimitAmps (snd (Compute i s (compute_run hs (NewCalculator minA maxA v)))) \<le> maxA"
proof -
  have "calculator_ok (compute_run hs (NewCalculator minA maxA v))"
    by (rule compute_run_ok [OF NewCalculator_ok [OF assms]])
  from Compute_limit [OF this, of i s] show ?thesis by (simp add: NewCalculator_def)
qed

theorem limit_within_bounds_witness:
  "let c = compute_run [(''a'', \<lparr>ms_GridPowerW = -9000, ms_SolarPowerW = 0, ms_ConsumptionPowerW = 0\<rparr>)]
           (NewCalculator 6 32 230);
       r = Compute ''a'' \<lparr>ms_GridPowerW = -3000, ms_SolarPowerW = 0, ms_ConsumptionPowerW = 0\<rparr> c
   in 6 \<le> pr_LimitAmps (snd r) \<and> pr_LimitAmps (snd r) \<le> 32"
  unfolding Let_def by (rule limit_within_bounds) simp

text \<open>
  C38: an adjusted or held limit, as long as the charger is neither stopped nor in the grace period
  of a pending stop, exceeds the current the measured surplus can carry by less than the hysteresis.
\<close>

theorem limit_follows_surplus:
  assumes "calculator_ok c" and "0 < ca_hysteresis c"
    and "\<not> pr_ShouldStop (snd (Compute i s c))" and "\<not> would_stop c s"
  shows "pr_LimitAmps (snd (Compute i s c)) < idealAmps c s + ca_hysteresis c"
  using assms
  by (auto simp: Compute_def Let_def would_stop_def split: option.splits if_splits)

theorem limit_follows_surplus_witness:
  "pr_LimitAmps (snd (Compute ''a'' \<lparr>ms_GridPowerW = 0, ms_SolarPowerW = 4000, ms_ConsumptionPowerW = 700\<rparr>
     (NewCalculator 6 32 230))) < 14 + 2"
proof -
  let ?s = "\<lparr>ms_GridPowerW = 0, ms_SolarPowerW = 4000, ms_ConsumptionPowerW = 700\<rparr> :: meter_sample"
  let ?c = "NewCalculator 6 32 230"
  have ideal: "idealAmps ?c ?s = 14"
    by (simp add: idealAmps_def computeSurplus_def NewCalculator_def floor_eq_iff)
  then have w: "\<not> would_stop ?c ?s" by (simp add: would_stop_def NewCalculator_def)
  have ok: "calculator_ok ?c" by (rule NewCalculator_ok) simp
  have ns: "\<not> pr_ShouldStop (snd (Compute ''a'' ?s ?c))"
    using w by (simp add: Compute_ShouldStop stop_state_New stop_step_def zero_stop_state_def)
  have h: "0 < ca_hysteresis ?c" by (simp add: NewCalculator_def)
  from limit_follows_surplus [OF ok h ns w] show ?thesis
    unfolding ideal by (simp add: NewCalculator_def)
qed

text \<open>
  Chargers are independent: computing for two different chargers in either order gives the
  same requests and the same calculator.
\<close>

theorem compute_independent:
  assumes "i \<noteq> j"
  shows "fst (Compute j t (fst (Compute i s c))) = fst (Compute i s (fst (Compute j t c))) \<and>
    snd (Compute j t (fst (Compute i s c))) = snd (Compute j t c)"
proof -
  have j: "snd (Compute j t (fst (Compute i s c))) = snd (Compute j t c)"
    using assms by (intro Compute_snd_cong) (simp_all add: Compute_other Compute_stop_state)
  have i: "snd (Compute i s (fst (Compute j t c))) = snd (Compute i s c)"
    using assms by (intro Compute_snd_cong) (simp_all add: Compute_other Compute_stop_state)
  show ?thesis
    using assms unfolding Compute_fst [of j t "fst (Compute i s c)"]
      Compute_fst [of i s "fst (Compute j t c)"] i j
    by (simp add: Compute_stop_state) (simp add: Compute_fst fun_upd_twist)
qed

theorem compute_independent_witness:
  "let s = \<lparr>ms_GridPowerW = -3000, ms_SolarPowerW = 0, ms_ConsumptionPowerW = 0\<rparr>;
       c = NewCalculator 6 32 230
   in snd (Compute ''b'' s (fst (Compute ''a'' s c))) = snd (Compute ''b'' s c)"
  unfolding Let_def using compute_independent [of "''a''" "''b''"] by simp

text \<open>
  Lowering the maximum at run time does not lower a limit held by the hysteresis: a charger
  whose last limit is one ampere above the new maximum keeps it, beyond the maximum, for as long as
  the surplus allows the maximum.
\<close>

theorem held_limit_above_new_max:
  assumes "ca_lastLimit c i = Some (maxA + 1)" "0 < maxA" "minA \<le> maxA" "ca_hysteresis c = 2"
    and "maxA \<le> idealAmps c s" and "\<not> isStopped (stop_state c i)"
  shows "pr_LimitAmps (snd (Compute i s (SetLimits minA maxA c))) = maxA + 1"
  using assms
  by (auto simp: Compute_def SetLimits_def Let_def idealAmps_def stop_state_def stop_step_def
      split: option.splits)

theorem held_limit_above_new_max_witness:
  "let s = \<lparr>ms_GridPowerW = 0, ms_SolarPowerW = 4000, ms_ConsumptionPowerW = 0\<rparr>;
       c = fst (Compute ''a'' s (NewCalculator 6 32 230))
   in pr_LimitAmps (snd (Compute ''a'' s (SetLimits 6 16 c))) = 17"
proof -
  let ?s = "\<lparr>ms_GridPowerW = 0, ms_SolarPowerW = 4000, ms_ConsumptionPowerW = 0\<rparr> :: meter_sample"
  let ?c0 = "NewCalculator 6 32 230"
  let ?c = "fst (Compute ''a'' ?s ?c0)"
  have ideal: "idealAmps ?c0 ?s = 17"
    by (simp add: idealAmps_def computeSurplus_def NewCalculator_def floor_eq_iff)
  have w: "\<not> would_stop ?c0 ?s" using ideal by (simp add: would_stop_def NewCalculator_def)
  have l: "ca_lastLimit ?c ''a'' = Some (16 + 1)"
    unfolding Compute_lastLimit
    by (simp add: Compute_def idealAmps_def computeSurplus_def NewCalculator_def stop_step_def
        zero_stop_state_def Let_def)
  have i: "16 \<le> idealAmps ?c ?s" using ideal by (simp add: idealAmps_def)
  have st: "\<not> isStopped (stop_state ?c ''a'')"
    using w by (simp add: Compute_stop_state stop_state_New stop_step_def zero_stop_state_def)
  have h: "ca_hysteresis ?c = 2" by (simp add: NewCalculator_def)
  show ?thesis
    unfolding Let_def using held_limit_above_new_max [OF l _ _ h i st, of 6] by simp
qed

end
