(* ===== verification/Energy.thy ===== *)
theory Energy
  imports Calculator "HOL-Library.Multiset"
begin

section \<open>Energy: the power readings from Home Assistant\<close>

text \<open>
  \<open>internal/adapter/inbound/ha/energy.go\<close>, which polls up to three sensors and keeps the last
  value of each with its time, and \<open>NoOpEnergySource\<close> of \<open>ports.go\<close>, the source used when
  no sensor is configured. The HTTP client is outside the model: a poll is given its reply. The
  reads of \<open>time.Now()\<close> are arguments.

  The locale \<open>energy_port\<close> is the port \<open>EnergySource\<close> as the controller uses it.
\<close>

record hass_config =
  ha_GridEntityID :: string
  ha_SolarEntityID :: string
  ha_ConsumptionEntityID :: string
  ha_Token :: string

record energy_source =
  es_grid :: int
  es_gridAt :: time
  es_solar :: int
  es_solarAt :: time
  es_consumption :: int
  es_consumptionAt :: time
  es_cfg :: hass_config

definition NewEnergySource :: "hass_config \<Rightarrow> energy_source" where
  "NewEnergySource cfg =
     \<lparr>es_grid = 0, es_gridAt = 0, es_solar = 0, es_solarAt = 0,
      es_consumption = 0, es_consumptionAt = 0, es_cfg = cfg\<rparr>"

text \<open>Watts, kilowatts and megawatts; any other unit is taken as watts.\<close>

definition normalizeToWatts :: "float64 \<Rightarrow> string \<Rightarrow> float64" where
  "normalizeToWatts val u =
     (let k = ToLower (TrimSpace u) in
      if k = '''' \<or> k = ''w'' then val
      else if k = ''kw'' then flt_scale 1000 val
      else if k = ''mw'' then flt_scale 1000000 val
      else val)"

text \<open>The outcome of one request: it could not be built, it was not answered, or the answer has a
  status code and a body that decodes to a state and a unit or does not decode.\<close>

datatype ha_reply =
    RequestError
  | TransportError
  | Response int "(string \<times> string) option"

definition store_reading :: "string \<Rightarrow> time \<Rightarrow> int \<Rightarrow> energy_source \<Rightarrow> energy_source" where
  "store_reading entityType now w e =
     (if entityType = ''grid'' then e\<lparr>es_gridAt := now, es_grid := w\<rparr>
      else if entityType = ''solar'' then e\<lparr>es_solarAt := now, es_solar := w\<rparr>
      else if entityType = ''consumption'' then e\<lparr>es_consumptionAt := now, es_consumption := w\<rparr>
      else e)"

definition pollEntity ::
  "(float64 \<Rightarrow> int) \<Rightarrow> time \<Rightarrow> ha_reply \<Rightarrow> string \<Rightarrow> energy_source \<Rightarrow> energy_source" where
  "pollEntity plat now reply entityType e =
     (case reply of
        RequestError \<Rightarrow> e
      | TransportError \<Rightarrow> e
      | Response code body \<Rightarrow>
          if code \<noteq> 200 then e
          else case body of
            None \<Rightarrow> e
          | Some (state, u) \<Rightarrow>
              if state = ''unavailable'' \<or> state = ''unknown'' then e
              else case ParseFloat state of
                None \<Rightarrow> e
              | Some powerW \<Rightarrow>
                  store_reading entityType now (to_int64 plat (normalizeToWatts powerW u)) e)"

text \<open>
  One round of polls. The code runs the polls of the configured entities as goroutines and waits
  for all; \<open>order\<close> is the order in which they finish.
\<close>

definition entity_of :: "hass_config \<Rightarrow> string \<Rightarrow> string" where
  "entity_of cfg entityType =
     (if entityType = ''grid'' then ha_GridEntityID cfg
      else if entityType = ''solar'' then ha_SolarEntityID cfg
      else if entityType = ''consumption'' then ha_ConsumptionEntityID cfg else '''')"

definition pollOnce ::
  "(float64 \<Rightarrow> int) \<Rightarrow> (string \<Rightarrow> time \<times> ha_reply) \<Rightarrow> string list \<Rightarrow> energy_source \<Rightarrow> energy_source" where
  "pollOnce plat net order e =
     fold (\<lambda>ty e. if entity_of (es_cfg e) ty \<noteq> ''''
                  then pollEntity plat (fst (net ty)) (snd (net ty)) ty e else e) order e"

definition GetGridPowerW :: "energy_source \<Rightarrow> rat" where "GetGridPowerW e = of_int (es_grid e)"
definition GetSolarPowerW :: "energy_source \<Rightarrow> rat" where "GetSolarPowerW e = of_int (es_solar e)"
definition GetConsumptionPowerW :: "energy_source \<Rightarrow> rat" where
  "GetConsumptionPowerW e = of_int (es_consumption e)"

definition IsStale :: "time \<Rightarrow> duration \<Rightarrow> energy_source \<Rightarrow> bool" where
  "IsStale now threshold e \<longleftrightarrow>
     (let latest = es_gridAt e;
          latest = (if es_solarAt e > latest then es_solarAt e else latest);
          latest = (if es_consumptionAt e > latest then es_consumptionAt e else latest)
      in time_sub now latest > threshold)"

definition IsGridStale :: "time \<Rightarrow> duration \<Rightarrow> energy_source \<Rightarrow> bool" where
  "IsGridStale now threshold e \<longleftrightarrow> time_sub now (es_gridAt e) > threshold"

definition IsSolarAvailable :: "time \<Rightarrow> duration \<Rightarrow> energy_source \<Rightarrow> bool" where
  "IsSolarAvailable now threshold e \<longleftrightarrow>
     es_solarAt e \<noteq> 0 \<and> time_sub now (es_solarAt e) \<le> threshold"

definition IsConsumptionAvailable :: "time \<Rightarrow> duration \<Rightarrow> energy_source \<Rightarrow> bool" where
  "IsConsumptionAvailable now threshold e \<longleftrightarrow>
     es_consumptionAt e \<noteq> 0 \<and> time_sub now (es_consumptionAt e) \<le> threshold"

subsection \<open>The port and its two implementations\<close>

datatype energy = NoOpEnergySource | HassEnergySource energy_source

fun grid_power :: "energy \<Rightarrow> rat" where
  "grid_power NoOpEnergySource = 0"
| "grid_power (HassEnergySource e) = GetGridPowerW e"

fun solar_power :: "energy \<Rightarrow> rat" where
  "solar_power NoOpEnergySource = 0"
| "solar_power (HassEnergySource e) = GetSolarPowerW e"

fun consumption_power :: "energy \<Rightarrow> rat" where
  "consumption_power NoOpEnergySource = 0"
| "consumption_power (HassEnergySource e) = GetConsumptionPowerW e"

fun is_stale :: "time \<Rightarrow> duration \<Rightarrow> energy \<Rightarrow> bool" where
  "is_stale now th NoOpEnergySource = True"
| "is_stale now th (HassEnergySource e) = IsStale now th e"

fun is_grid_stale :: "time \<Rightarrow> duration \<Rightarrow> energy \<Rightarrow> bool" where
  "is_grid_stale now th NoOpEnergySource = True"
| "is_grid_stale now th (HassEnergySource e) = IsGridStale now th e"

fun solar_available :: "time \<Rightarrow> duration \<Rightarrow> energy \<Rightarrow> bool" where
  "solar_available now th NoOpEnergySource = False"
| "solar_available now th (HassEnergySource e) = IsSolarAvailable now th e"

fun consumption_available :: "time \<Rightarrow> duration \<Rightarrow> energy \<Rightarrow> bool" where
  "consumption_available now th NoOpEnergySource = False"
| "consumption_available now th (HassEnergySource e) = IsConsumptionAvailable now th e"

text \<open>
  The contract of the port: staleness of the whole source covers every sensor, and time passing
  without a reading can only make data stale.
\<close>

locale energy_port =
  fixes stale grid_stale solar_ok cons_ok :: "time \<Rightarrow> duration \<Rightarrow> 's \<Rightarrow> bool"
  assumes stale_grid: "stale now th s \<Longrightarrow> grid_stale now th s"
    and stale_solar: "stale now th s \<Longrightarrow> \<not> solar_ok now th s"
    and stale_cons: "stale now th s \<Longrightarrow> \<not> cons_ok now th s"
    and stale_later: "now \<le> now' \<Longrightarrow> stale now th s \<Longrightarrow> stale now' th s"
    and solar_earlier: "now \<le> now' \<Longrightarrow> solar_ok now' th s \<Longrightarrow> solar_ok now th s"
    and cons_earlier: "now \<le> now' \<Longrightarrow> cons_ok now' th s \<Longrightarrow> cons_ok now th s"
begin

lemma usable_not_stale: "solar_ok now th s \<or> cons_ok now th s \<or> \<not> grid_stale now th s \<Longrightarrow> \<not> stale now th s"
  using stale_grid stale_solar stale_cons by blast

text \<open>A check that found the source fresh vouches for nothing later, but data found usable later
  was usable, and the source fresh, at the earlier check.\<close>

lemma later_usable_then_fresh:
  assumes "now \<le> now'" "solar_ok now' th s \<or> cons_ok now' th s"
  shows "\<not> stale now th s"
  using assms solar_earlier cons_earlier usable_not_stale by blast

end

lemma IsStale_iff:
  "IsStale now th e \<longleftrightarrow> (\<forall>t \<in> {es_gridAt e, es_solarAt e, es_consumptionAt e}. time_sub now t > th)"
proof -
  have "(th < time_sub now (max a b)) \<longleftrightarrow> (th < time_sub now a \<and> th < time_sub now b)" for a b
    using time_sub_mono [of a b now] time_sub_mono [of b a now] by (auto simp: max_def)
  moreover have m: "(if c > (if b > a then b else a) then c else (if b > a then b else a)) = max (max a b) c"
    for a b c :: time by auto
  have "IsStale now th e =
      (th < time_sub now (max (max (es_gridAt e) (es_solarAt e)) (es_consumptionAt e)))"
    unfolding IsStale_def Let_def m by (rule refl)
  ultimately show ?thesis by auto
qed

lemma time_sub_less_later: "now \<le> now' \<Longrightarrow> th < time_sub now t \<Longrightarrow> th < time_sub now' t"
  using time_sub_mono_now [of now now' t] by simp

lemma time_sub_le_earlier: "now \<le> now' \<Longrightarrow> time_sub now' t \<le> th \<Longrightarrow> time_sub now t \<le> th"
  using time_sub_mono_now [of now now' t] by simp

interpretation hass: energy_port IsStale IsGridStale IsSolarAvailable IsConsumptionAvailable
  by unfold_locales
    (auto simp: IsStale_iff IsGridStale_def IsSolarAvailable_def IsConsumptionAvailable_def
      intro: time_sub_less_later time_sub_le_earlier)

interpretation port: energy_port is_stale is_grid_stale solar_available consumption_available
proof (unfold_locales, goal_cases)
  case (1 now th s) then show ?case by (cases s) (auto intro: hass.stale_grid)
next
  case (2 now th s) then show ?case by (cases s) (auto dest: hass.stale_solar)
next
  case (3 now th s) then show ?case by (cases s) (auto dest: hass.stale_cons)
next
  case (4 now now' th s) then show ?case by (cases s) (auto intro: hass.stale_later)
next
  case (5 now now' th s) then show ?case by (cases s) (auto intro: hass.solar_earlier)
next
  case (6 now now' th s) then show ?case by (cases s) (auto intro: hass.cons_earlier)
qed

subsection \<open>What a poll stores\<close>

definition reply_reading :: "(float64 \<Rightarrow> int) \<Rightarrow> ha_reply \<Rightarrow> int option" where
  "reply_reading plat reply =
     (case reply of Response code (Some (state, u)) \<Rightarrow>
        if code = 200 \<and> state \<noteq> ''unavailable'' \<and> state \<noteq> ''unknown''
        then map_option (\<lambda>p. to_int64 plat (normalizeToWatts p u)) (ParseFloat state) else None
      | _ \<Rightarrow> None)"

lemma pollEntity_reading:
  "pollEntity plat now reply ty e =
     (case reply_reading plat reply of None \<Rightarrow> e | Some w \<Rightarrow> store_reading ty now w e)"
  by (auto simp: pollEntity_def reply_reading_def split: ha_reply.splits option.splits prod.splits)

lemma store_reading_cfg [simp]: "es_cfg (store_reading ty now w e) = es_cfg e"
  by (simp add: store_reading_def)

lemma pollEntity_cfg [simp]: "es_cfg (pollEntity plat now reply ty e) = es_cfg e"
  by (simp add: pollEntity_reading split: option.splits)

lemma store_reading_commute:
  "ty \<noteq> ty' \<Longrightarrow> store_reading ty t w (store_reading ty' t' w' e) =
     store_reading ty' t' w' (store_reading ty t w e)"
  by (simp add: store_reading_def)

lemma pollEntity_commute:
  "ty \<noteq> ty' \<Longrightarrow> pollEntity plat t r ty (pollEntity plat t' r' ty' e) =
     pollEntity plat t' r' ty' (pollEntity plat t r ty e)"
  by (simp add: pollEntity_reading store_reading_commute split: option.splits)

text \<open>Rounds of polls, each with its replies and finishing order.\<close>

definition poll_rounds ::
  "(float64 \<Rightarrow> int) \<Rightarrow> ((string \<Rightarrow> time \<times> ha_reply) \<times> string list) list \<Rightarrow> energy_source \<Rightarrow> energy_source"
where
  "poll_rounds plat rounds e = fold (\<lambda>(net, order). pollOnce plat net order) rounds e"

lemma pollOnce_no_reading:
  assumes "\<And>ty. reply_reading plat (snd (net ty)) = None"
  shows "pollOnce plat net order e = e"
  unfolding pollOnce_def by (rule fold_id_on) (simp add: pollEntity_reading assms)

subsection \<open>Properties\<close>

text \<open>
  The order in which the concurrent polls of one round finish does not matter.
\<close>

theorem poll_order_irrelevant:
  assumes "mset order = mset order'"
  shows "pollOnce plat net order e = pollOnce plat net order' e"
proof -
  let ?f = "\<lambda>ty e. if entity_of (es_cfg e) ty \<noteq> ''''
    then pollEntity plat (fst (net ty)) (snd (net ty)) ty e else e"
  have "?f ty \<circ> ?f ty' = ?f ty' \<circ> ?f ty" for ty ty'
    by (cases "ty = ty'") (auto simp: fun_eq_iff pollEntity_commute)
  then have "fold ?f order = fold ?f order'"
    using assms by (intro fold_multiset_equiv) auto
  then show ?thesis by (simp add: pollOnce_def)
qed

theorem poll_order_irrelevant_witness:
  "let net = (\<lambda>ty. (5, Response 200 (Some (''1.5'', ''kW''))));
       e = NewEnergySource \<lparr>ha_GridEntityID = ''g'', ha_SolarEntityID = ''s'', ha_ConsumptionEntityID = '''', ha_Token = ''''\<rparr>
   in pollOnce (\<lambda>_. 0) net [''grid'', ''solar'', ''consumption''] e =
      pollOnce (\<lambda>_. 0) net [''consumption'', ''grid'', ''solar''] e"
  unfolding Let_def by (rule poll_order_irrelevant) simp

text \<open>
  C26: an outage always ends in staleness: if no poll since \<open>t0\<close> delivered a reading, then once
  more than the threshold has passed since \<open>t0\<close> the source reports itself stale, whatever the
  polls answered (errors, non-200 codes, undecodable bodies, "unavailable", non-numeric states).
\<close>

theorem outage_becomes_stale:
  assumes "es_gridAt e \<le> t0" "es_solarAt e \<le> t0" "es_consumptionAt e \<le> t0"
    and "\<forall>(net, order) \<in> set rounds. \<forall>ty. reply_reading plat (snd (net ty)) = None"
    and "threshold < now - t0" "threshold < max_duration"
  shows "IsStale now threshold (poll_rounds plat rounds e)"
proof -
  have "poll_rounds plat rounds e = e"
    unfolding poll_rounds_def using assms(4) by (intro fold_id_on) (auto simp: pollOnce_no_reading)
  moreover have "threshold < time_sub now t" if "t \<le> t0" for t
    using assms(5,6) that by (auto simp: time_sub_def)
  ultimately show ?thesis using assms(1-3) by (simp add: IsStale_iff)
qed

theorem outage_becomes_stale_witness:
  "IsStale (100 * second) (60 * second)
     (poll_rounds (\<lambda>_. 0) [(\<lambda>ty. (50 * second, Response 200 (Some (''unavailable'', ''W''))), [''grid'']),
                        (\<lambda>ty. (60 * second, TransportError), [''grid''])]
       (NewEnergySource \<lparr>ha_GridEntityID = ''g'', ha_SolarEntityID = '''', ha_ConsumptionEntityID = '''',
          ha_Token = ''''\<rparr>\<lparr>es_gridAt := 30 * second\<rparr>))"
  by (rule outage_becomes_stale [where ?t0.0 = "30 * second"])
    (auto simp: NewEnergySource_def reply_reading_def max_duration_def)

text \<open>
  A sensor state "NaN" is taken as a reading: it parses as a float, is stored as whatever the
  platform converts NaN to, and makes the grid data fresh.
\<close>

theorem nan_state_is_stored:
  "let e' = pollEntity plat now (Response 200 (Some (''NaN'', u))) ''grid'' e
   in es_grid e' = plat NaN \<and> es_gridAt e' = now \<and> (IsGridStale now th e' \<longleftrightarrow> th < 0)"
proof -
  have "ParseFloat ''NaN'' = Some NaN"
    by code_simp
  moreover have "normalizeToWatts NaN u = NaN" by (simp add: normalizeToWatts_def Let_def)
  ultimately show ?thesis
    by (simp add: pollEntity_def store_reading_def to_int64_def IsGridStale_def time_sub_def
        max_duration_def min_duration_def)
qed

end
