(* ===== verification/Spacing.thy ===== *)
theory Spacing
  imports GoLib
begin

section \<open>Spacing: the contract of a per-key minimum interval\<close>

text \<open>
  Two parts of the program keep, per charger, the time of the last occurrence of something and
  refuse another one too early: the contactor protection of \<open>commander.go\<close>
  (\<open>enforceCooldown\<close> and \<open>markStartStop\<close>) and the meter-value throttle of \<open>relay.go\<close>. The
  locale states what both promise; its lemmas say what a client gets that checks and marks in turn.
  No program is modelled here.
\<close>

locale spacing =
  fixes last_at :: "'s \<Rightarrow> 'k \<Rightarrow> time option"
    and permit :: "time \<Rightarrow> 'k \<Rightarrow> 's \<Rightarrow> bool"
    and mark :: "time \<Rightarrow> 'k \<Rightarrow> 's \<Rightarrow> 's"
    and gap :: "'k \<Rightarrow> 's \<Rightarrow> duration"
  assumes permit_spaced:
      "permit now k s \<Longrightarrow> last_at s k = Some t \<Longrightarrow> min_duration < gap k s \<Longrightarrow> gap k s \<le> now - t"
    and permit_fresh: "last_at s k = None \<Longrightarrow> permit now k s"
    and permit_later:
      "last_at s k = Some t \<Longrightarrow> gap k s \<le> max_duration \<Longrightarrow> gap k s \<le> now - t \<Longrightarrow> permit now k s"
    and last_mark: "last_at (mark now k s) k' = (if k' = k then Some now else last_at s k')"
    and gap_mark: "gap k' (mark now k s) = gap k' s"
begin

text \<open>A client event: the key, the time of the check, whether the guarded action succeeded, and
  the time of the mark. The history lists the marks, oldest first.\<close>

definition attempt :: "'k \<times> time \<times> bool \<times> time \<Rightarrow> 's \<times> ('k \<times> time) list \<Rightarrow> 's \<times> ('k \<times> time) list" where
  "attempt = (\<lambda>(k, check, good, tm) (s, hist).
     if permit check k s \<and> good then (mark tm k s, hist @ [(k, tm)]) else (s, hist))"

definition timely :: "('k \<times> time \<times> bool \<times> time) list \<Rightarrow> bool" where
  "timely evs \<longleftrightarrow> (\<forall>(k, check, good, tm) \<in> set evs. check \<le> tm)"

definition spaced :: "('k \<Rightarrow> duration) \<Rightarrow> ('k \<times> time) list \<Rightarrow> bool" where
  "spaced d hist \<longleftrightarrow> sorted_wrt (\<lambda>(k, t) (k', t'). k = k' \<longrightarrow> d k \<le> t' - t) hist"

definition tracks :: "'s \<Rightarrow> ('k \<times> time) list \<Rightarrow> bool" where
  "tracks s hist \<longleftrightarrow> (\<forall>k t. (k, t) \<in> set hist \<longrightarrow> (\<exists>t'. last_at s k = Some t' \<and> t \<le> t'))"

lemma attempt_gap: "gap k (fst (attempt ev st)) = gap k (fst st)"
  by (cases ev; cases st) (simp add: attempt_def gap_mark)

lemma mark_spaced:
  assumes inv: "spaced d hist" "tracks s hist"
    and gap: "d k \<le> gap k s" "0 \<le> d k"
    and ev: "check \<le> tm" and permitted: "permit check k s"
  shows "spaced d (hist @ [(k, tm)]) \<and> tracks (mark tm k s) (hist @ [(k, tm)])"
proof
  have pos: "min_duration < gap k s" using gap by (simp add: min_duration_def)
  have late: "d k \<le> tm - t" if h: "(k, t) \<in> set hist" for t
  proof -
    obtain t' where t': "last_at s k = Some t'" "t \<le> t'"
      using inv(2) h unfolding tracks_def by blast
    then have "gap k s \<le> check - t'" using permit_spaced permitted pos by metis
    then show ?thesis using t' ev gap(1) by linarith
  qed
  then show "spaced d (hist @ [(k, tm)])"
    using inv(1) by (auto simp: spaced_def sorted_wrt_append)
  show "tracks (mark tm k s) (hist @ [(k, tm)])"
    using inv(2) late gap(2) by (fastforce simp: tracks_def last_mark)
qed

lemma attempts_spaced:
  assumes "timely evs" "\<And>k. d k \<le> gap k s" "\<And>k. 0 \<le> d k" "spaced d hist" "tracks s hist"
  shows "spaced d (snd (fold attempt evs (s, hist)))"
  using assms
proof (induction evs arbitrary: s hist)
  case (Cons ev evs)
  obtain k check good tm where ev: "ev = (k, check, good, tm)" by (cases ev)
  obtain s' hist' where step: "attempt ev (s, hist) = (s', hist')" by fastforce
  have "check \<le> tm" using Cons.prems(1) ev by (simp add: timely_def)
  then have "spaced d hist' \<and> tracks s' hist'"
    using mark_spaced[OF Cons.prems(4,5,2,3)] step ev Cons.prems(4,5)
    by (auto simp: attempt_def split: if_splits)
  moreover have "d k \<le> gap k s'" for k
    using attempt_gap[of k ev "(s, hist)"] step Cons.prems(2) by simp
  moreover have "timely evs" using Cons.prems(1) by (simp add: timely_def)
  ultimately show ?case using Cons.IH Cons.prems(3) step by simp
qed simp

lemma refused_iff:
  assumes "min_duration < gap k s" "gap k s \<le> max_duration"
  shows "\<not> permit now k s \<longleftrightarrow> (\<exists>t. last_at s k = Some t \<and> now - t < gap k s)"
proof (cases "last_at s k")
  case None then show ?thesis using permit_fresh by simp
next
  case (Some t) then show ?thesis
    using permit_spaced[OF _ Some assms(1)] permit_later[OF Some assms(2)] by force
qed

lemma untouched_key: "k' \<noteq> k \<Longrightarrow> last_at (mark now k s) k' = last_at s k'"
  by (simp add: last_mark)

end

end
