(* ===== verification/Commander.thy ===== *)
theory Commander
  imports Spacing Repos
begin

section \<open>Commander: commands to the chargers and contactor protection\<close>

text \<open>
  \<open>internal/adapter/outbound/ocpp/commander.go\<close> and \<open>profile.go\<close>. The OCPP library is a
  parameter: \<open>ev_answer env sent cmd\<close> is what becomes of command \<open>cmd\<close> when the commands
  \<open>sent\<close> were handed over before it, so every behaviour of the network and the chargers is some
  \<open>env\<close>. \<open>ev_now env sent\<close> is the clock at that moment. \<open>co_sent\<close> records the commands handed
  to the library, oldest first; the other fields are the code's.

  A confirmation that arrives after the 15 second timeout still runs the callback, and so still
  marks the contactor: \<open>cmd_step\<close> has it as a step of its own.
\<close>

subsection \<open>Profiles\<close>

text \<open>The arguments the code passes to the library's constructors, and the transaction it sets.\<close>

record charging_profile =
  cp_ChargingProfileId :: int
  cp_StackLevel :: int
  cp_Purpose :: string
  cp_Kind :: string
  cp_RateUnit :: string
  cp_Periods :: "(int \<times> int) list"
  cp_TransactionId :: int

definition abbTxDefaultStackLevel :: int where "abbTxDefaultStackLevel = 1"
definition abbProfileID :: int where "abbProfileID = 1"

definition buildTxDefaultProfile :: "int \<Rightarrow> int \<Rightarrow> charging_profile" where
  "buildTxDefaultProfile connectorID limitAmps =
     \<lparr>cp_ChargingProfileId = abbProfileID, cp_StackLevel = abbTxDefaultStackLevel,
      cp_Purpose = ''TxDefaultProfile'', cp_Kind = ''Relative'', cp_RateUnit = ''A'',
      cp_Periods = [(0, limitAmps)], cp_TransactionId = 0\<rparr>"

definition buildTxProfile :: "int \<Rightarrow> int \<Rightarrow> charging_profile" where
  "buildTxProfile limitAmps transactionID =
     (let profile = \<lparr>cp_ChargingProfileId = abbProfileID, cp_StackLevel = abbTxDefaultStackLevel,
        cp_Purpose = ''TxProfile'', cp_Kind = ''Relative'', cp_RateUnit = ''A'',
        cp_Periods = [(0, limitAmps)], cp_TransactionId = 0\<rparr>
      in profile\<lparr>cp_TransactionId := transactionID\<rparr>)"

subsection \<open>Commands, answers and state\<close>

datatype ocpp_command =
    SetChargingProfileReq charger_id int charging_profile
  | RemoteStartReq charger_id int string
  | RemoteStopReq charger_id int
  | ClearChargingProfileReq charger_id int

text \<open>The send can fail; otherwise the callback runs with an error or with a confirmation of some
  status, here together with the time at which it runs, or nothing comes before the timeout.\<close>

datatype answer = SendFailed string | CallbackError string | Confirmed string time | NoAnswer

record env =
  ev_answer :: "ocpp_command list \<Rightarrow> ocpp_command \<Rightarrow> answer"
  ev_now :: "ocpp_command list \<Rightarrow> time"

datatype command_error =
    OnCooldown charger_id
  | SendError string
  | ReplyError string
  | Rejected string
  | CommandTimeout

record commander =
  co_contactorCooldown :: duration
  co_lastStartStop :: "charger_id \<Rightarrow> time option"
  co_sent :: "ocpp_command list"

definition defaultContactorCooldown :: duration where
  "defaultContactorCooldown = 180 * second"

text \<open>The session repository is shared with the handler, so it is an argument of the operation that
  reads it; \<open>None\<close> is the nil interface.\<close>

definition NewCommander :: commander where
  "NewCommander =
     \<lparr>co_contactorCooldown = defaultContactorCooldown,
      co_lastStartStop = (\<lambda>_. None), co_sent = []\<rparr>"

definition SetCooldown :: "duration \<Rightarrow> commander \<Rightarrow> commander" where
  "SetCooldown d c = c\<lparr>co_contactorCooldown := d\<rparr>"

definition enforceCooldown :: "time \<Rightarrow> charger_id \<Rightarrow> commander \<Rightarrow> command_error option" where
  "enforceCooldown now chargerID c =
     (case co_lastStartStop c chargerID of
        None \<Rightarrow> None
      | Some t \<Rightarrow> if time_sub now t < co_contactorCooldown c then Some (OnCooldown chargerID) else None)"

definition markStartStop :: "time \<Rightarrow> charger_id \<Rightarrow> commander \<Rightarrow> commander" where
  "markStartStop now chargerID c =
     c\<lparr>co_lastStartStop := (co_lastStartStop c)(chargerID \<mapsto> now)\<rparr>"

definition hand_over :: "env \<Rightarrow> ocpp_command \<Rightarrow> commander \<Rightarrow> answer \<times> commander" where
  "hand_over env cmd c = (ev_answer env (co_sent c) cmd, c\<lparr>co_sent := co_sent c @ [cmd]\<rparr>)"

subsection \<open>Operations\<close>

definition sendChargingProfile ::
  "env \<Rightarrow> charger_id \<Rightarrow> int \<Rightarrow> charging_profile \<Rightarrow> commander \<Rightarrow> (command_error + unit) \<times> commander"
where
  "sendChargingProfile env chargerID connectorID profile c =
     (let (a, c) = hand_over env (SetChargingProfileReq chargerID connectorID profile) c in
      case a of
        SendFailed e \<Rightarrow> (Inl (SendError e), c)
      | CallbackError e \<Rightarrow> (Inl (ReplyError e), c)
      | Confirmed status t \<Rightarrow>
          if status \<noteq> ''Accepted'' then (Inl (Rejected status), c) else (Inr (), c)
      | NoAnswer \<Rightarrow> (Inl CommandTimeout, c))"

definition SetChargingProfile ::
  "env \<Rightarrow> session_repo option \<Rightarrow> charger_id \<Rightarrow> int \<Rightarrow> int \<Rightarrow> commander \<Rightarrow>
     (command_error + unit) \<times> commander"
where
  "SetChargingProfile env sessionRepo chargerID connectorID limitAmps c =
     (case sendChargingProfile env chargerID connectorID (buildTxDefaultProfile connectorID limitAmps) c of
        (Inl e, c) \<Rightarrow> (Inl e, c)
      | (Inr _, c) \<Rightarrow>
          (if connectorID \<le> 0 then (Inr (), c) else
           case sessionRepo of None \<Rightarrow> (Inr (), c) | Some repo \<Rightarrow>
           (case GetActiveSession chargerID connectorID repo of
              Inl _ \<Rightarrow> (Inr (), c)
            | Inr None \<Rightarrow> (Inr (), c)
            | Inr (Some s) \<Rightarrow>
                (Inr (), snd (sendChargingProfile env chargerID connectorID
                                (buildTxProfile limitAmps (se_TransactionID s)) c)))))"

definition RemoteStartTransaction ::
  "env \<Rightarrow> charger_id \<Rightarrow> int \<Rightarrow> string \<Rightarrow> commander \<Rightarrow> (command_error + unit) \<times> commander"
where
  "RemoteStartTransaction env chargerID connectorID idTag c =
     (case enforceCooldown (ev_now env (co_sent c)) chargerID c of
        Some e \<Rightarrow> (Inl e, c)
      | None \<Rightarrow>
          (let (a, c) = hand_over env (RemoteStartReq chargerID connectorID idTag) c in
           case a of
             SendFailed e \<Rightarrow> (Inl (SendError e), c)
           | CallbackError e \<Rightarrow> (Inl (ReplyError e), c)
           | Confirmed status t \<Rightarrow>
               if status \<noteq> ''Accepted'' then (Inl (Rejected status), c)
               else (Inr (), markStartStop t chargerID c)
           | NoAnswer \<Rightarrow> (Inl CommandTimeout, c)))"

definition RemoteStopTransaction ::
  "env \<Rightarrow> charger_id \<Rightarrow> int \<Rightarrow> commander \<Rightarrow> (command_error + unit) \<times> commander"
where
  "RemoteStopTransaction env chargerID transactionID c =
     (case enforceCooldown (ev_now env (co_sent c)) chargerID c of
        Some e \<Rightarrow> (Inl e, c)
      | None \<Rightarrow>
          (let (a, c) = hand_over env (RemoteStopReq chargerID transactionID) c in
           case a of
             SendFailed e \<Rightarrow> (Inl (SendError e), c)
           | CallbackError e \<Rightarrow> (Inl (ReplyError e), c)
           | Confirmed status t \<Rightarrow>
               if status \<noteq> ''Accepted'' then (Inl (Rejected status), c)
               else (Inr (), markStartStop t chargerID c)
           | NoAnswer \<Rightarrow> (Inl CommandTimeout, c)))"

definition ClearChargingProfile ::
  "env \<Rightarrow> charger_id \<Rightarrow> int \<Rightarrow> commander \<Rightarrow> (command_error + unit) \<times> commander"
where
  "ClearChargingProfile env chargerID connectorID c =
     (let (a, c) = hand_over env (ClearChargingProfileReq chargerID connectorID) c in
      case a of
        SendFailed e \<Rightarrow> (Inl (SendError e), c)
      | CallbackError e \<Rightarrow> (Inl (ReplyError e), c)
      | Confirmed _ t \<Rightarrow> (Inr (), c)
      | NoAnswer \<Rightarrow> (Inl CommandTimeout, c))"

lemmas commander_ops = sendChargingProfile_def SetChargingProfile_def RemoteStartTransaction_def
  RemoteStopTransaction_def ClearChargingProfile_def hand_over_def

subsection \<open>The interface to its clients\<close>

text \<open>What every operation keeps: it only appends to the commands handed over, and it changes no
  other charger's contactor time.\<close>

datatype commander_op =
    OpSetCooldown duration
  | OpSetProfile "session_repo option" charger_id int int
  | OpStart charger_id int string
  | OpStop charger_id int
  | OpClear charger_id int

fun run_op :: "env \<Rightarrow> commander_op \<Rightarrow> commander \<Rightarrow> commander" where
  "run_op env (OpSetCooldown d) c = SetCooldown d c"
| "run_op env (OpSetProfile repo k conn amps) c = snd (SetChargingProfile env repo k conn amps c)"
| "run_op env (OpStart k conn tag) c = snd (RemoteStartTransaction env k conn tag c)"
| "run_op env (OpStop k tx) c = snd (RemoteStopTransaction env k tx c)"
| "run_op env (OpClear k conn) c = snd (ClearChargingProfile env k conn c)"

fun switches_of :: "ocpp_command \<Rightarrow> charger_id option" where
  "switches_of (RemoteStartReq k conn tag) = Some k"
| "switches_of (RemoteStopReq k tx) = Some k"
| "switches_of cmd = None"

text \<open>The contactor switchings seen from outside: the charger and time of every start or stop among
  the commands \<open>sent\<close> that its charger confirmed as accepted.\<close>

definition switching :: "env \<Rightarrow> ocpp_command list \<Rightarrow> ocpp_command \<Rightarrow> (charger_id \<times> time) list" where
  "switching env sent cmd =
     (case (switches_of cmd, ev_answer env sent cmd) of
        (Some k, Confirmed status t) \<Rightarrow> if status = ''Accepted'' then [(k, t)] else []
      | _ \<Rightarrow> [])"

definition switchings :: "env \<Rightarrow> ocpp_command list \<Rightarrow> (charger_id \<times> time) list" where
  "switchings env sent = concat (map (\<lambda>i. switching env (take i sent) (sent ! i)) [0..<length sent])"

lemma switchings_Nil [simp]: "switchings env [] = []"
  by (simp add: switchings_def)

lemma switchings_snoc [simp]:
  "switchings env (sent @ [cmd]) = switchings env sent @ switching env sent cmd"
  by (auto simp: switchings_def nth_append intro!: arg_cong[where f = concat])

interpretation contactor: spacing co_lastStartStop
  "\<lambda>now k c. enforceCooldown now k c = None" markStartStop "\<lambda>k c. co_contactorCooldown c"
  by unfold_locales
    (auto simp: enforceCooldown_def markStartStop_def time_sub_ge not_less
      split: if_splits intro: time_sub_geD)

lemma tracks_sent [simp]: "contactor.tracks (c\<lparr>co_sent := x\<rparr>) h = contactor.tracks c h"
  by (simp add: contactor.tracks_def)

lemma tracks_cooldown [simp]: "contactor.tracks (c\<lparr>co_contactorCooldown := x\<rparr>) h = contactor.tracks c h"
  by (simp add: contactor.tracks_def)

text \<open>A start and a stop are the same guarded operation.\<close>

definition guarded :: "env \<Rightarrow> charger_id \<Rightarrow> ocpp_command \<Rightarrow> commander \<Rightarrow> commander" where
  "guarded env k cmd c =
     (if enforceCooldown (ev_now env (co_sent c)) k c \<noteq> None then c
      else let c' = c\<lparr>co_sent := co_sent c @ [cmd]\<rparr> in
        (case ev_answer env (co_sent c) cmd of
           Confirmed status t \<Rightarrow> if status = ''Accepted'' then markStartStop t k c' else c'
         | _ \<Rightarrow> c'))"

lemma start_guarded:
  "snd (RemoteStartTransaction env k conn tag c) = guarded env k (RemoteStartReq k conn tag) c"
  by (auto simp: commander_ops guarded_def split: option.splits answer.splits)

lemma stop_guarded: "snd (RemoteStopTransaction env k tx c) = guarded env k (RemoteStopReq k tx) c"
  by (auto simp: commander_ops guarded_def split: option.splits answer.splits)

text \<open>The other commands hand over commands that switch nothing.\<close>

definition quiet :: "env \<Rightarrow> commander \<Rightarrow> commander \<Rightarrow> bool" where
  "quiet env c c' \<longleftrightarrow> switchings env (co_sent c') = switchings env (co_sent c) \<and>
     co_lastStartStop c' = co_lastStartStop c \<and> co_contactorCooldown c' = co_contactorCooldown c"

lemma sendChargingProfile_quiet: "quiet env c (snd (sendChargingProfile env k conn p c))"
  by (auto simp: sendChargingProfile_def hand_over_def quiet_def switching_def
      split: answer.splits)

lemma quiet_trans: "quiet env a b \<Longrightarrow> quiet env b c \<Longrightarrow> quiet env a c"
  by (simp add: quiet_def)

lemma SetChargingProfile_quiet: "quiet env c (snd (SetChargingProfile env repo k conn amps c))"
proof -
  obtain r c1 where 1: "sendChargingProfile env k conn (buildTxDefaultProfile conn amps) c = (r, c1)"
    by fastforce
  then have "quiet env c c1" using sendChargingProfile_quiet by (metis snd_conv)
  then show ?thesis using 1
    by (auto simp: SetChargingProfile_def split: sum.splits option.splits
        intro: quiet_trans[OF _ sendChargingProfile_quiet])
qed

lemma ClearChargingProfile_quiet: "quiet env c (snd (ClearChargingProfile env k conn c))"
  by (auto simp: ClearChargingProfile_def hand_over_def quiet_def switching_def
      split: answer.splits)

definition answers_after_send :: "env \<Rightarrow> bool" where
  "answers_after_send env \<longleftrightarrow>
     (\<forall>sent cmd status t. ev_answer env sent cmd = Confirmed status t \<longrightarrow> ev_now env sent \<le> t)"

definition switchings_ok :: "env \<Rightarrow> duration \<Rightarrow> commander \<Rightarrow> bool" where
  "switchings_ok env d c \<longleftrightarrow> contactor.spaced (\<lambda>_. d) (switchings env (co_sent c)) \<and>
     contactor.tracks c (switchings env (co_sent c))"

lemma quiet_ok: "quiet env c c' \<Longrightarrow> switchings_ok env d c \<Longrightarrow> switchings_ok env d c'"
  by (simp add: quiet_def switchings_ok_def contactor.tracks_def)

lemma guarded_ok:
  assumes "answers_after_send env" "0 \<le> d" "d \<le> co_contactorCooldown c" "switches_of cmd = Some k"
    "switchings_ok env d c"
  shows "switchings_ok env d (guarded env k cmd c)"
proof -
  note ok = assms(5)[unfolded switchings_ok_def]
  have "switchings_ok env d (markStartStop t k (c\<lparr>co_sent := co_sent c @ [cmd]\<rparr>))"
    if "enforceCooldown (ev_now env (co_sent c)) k c = None"
      "ev_answer env (co_sent c) cmd = Confirmed ''Accepted'' t" for t
  proof -
    have "contactor.spaced (\<lambda>_. d) (switchings env (co_sent c) @ [(k, t)]) \<and>
      contactor.tracks (markStartStop t k c) (switchings env (co_sent c) @ [(k, t)])"
      using that assms ok by (intro contactor.mark_spaced) (auto simp: answers_after_send_def)
    then show ?thesis using that assms(4)
      by (simp add: switchings_ok_def switching_def markStartStop_def contactor.tracks_def)
  qed
  then show ?thesis using assms(4,5)
    by (auto simp: guarded_def Let_def switchings_ok_def switching_def split: answer.splits)
qed

lemma SetCooldown_ok [simp]: "switchings_ok env d (SetCooldown x c) = switchings_ok env d c"
  by (simp add: SetCooldown_def switchings_ok_def)

lemma run_op_ok:
  assumes "answers_after_send env" "0 \<le> d" "d \<le> co_contactorCooldown c" "switchings_ok env d c"
  shows "switchings_ok env d (run_op env op c)"
  using assms
  by (cases op)
    (auto simp: start_guarded stop_guarded
      intro: guarded_ok quiet_ok[OF SetChargingProfile_quiet] quiet_ok[OF ClearChargingProfile_quiet])

lemma guarded_cooldown [simp]: "co_contactorCooldown (guarded env k cmd c) = co_contactorCooldown c"
  by (auto simp: guarded_def Let_def markStartStop_def split: answer.splits)

lemma run_op_cooldown:
  "co_contactorCooldown (run_op env op c) =
     (case op of OpSetCooldown d \<Rightarrow> d | _ \<Rightarrow> co_contactorCooldown c)"
  using SetChargingProfile_quiet ClearChargingProfile_quiet
  by (cases op) (auto simp: start_guarded stop_guarded SetCooldown_def quiet_def)

lemma run_ops_ok:
  assumes "answers_after_send env" "0 \<le> d" "\<forall>x. OpSetCooldown x \<in> set ops \<longrightarrow> d \<le> x"
    "d \<le> co_contactorCooldown c" "switchings_ok env d c"
  shows "switchings_ok env d (fold (run_op env) ops c)"
  using assms
proof (induction ops arbitrary: c)
  case (Cons op ops)
  have "d \<le> co_contactorCooldown (run_op env op c)"
    using Cons.prems(3,4) by (auto simp: run_op_cooldown split: commander_op.splits)
  with Cons run_op_ok show ?case by simp
qed simp

lemma switchings_ok_New [simp]: "switchings_ok env d NewCommander"
  by (simp add: switchings_ok_def NewCommander_def contactor.spaced_def contactor.tracks_def)

subsection \<open>Overlapping calls\<close>

text \<open>
  The commander is called from several goroutines (the control loop, the web UI, MQTT), and neither
  the check nor the mark spans the wait for the charger's answer. A call is in flight from its
  send to its callback; \<open>it_marks\<close> logs the accepted switchings.
\<close>

record calls =
  it_cmd :: commander
  it_now :: time
  it_inflight :: "charger_id list"
  it_marks :: "(charger_id \<times> time) list"

inductive cmd_step :: "calls \<Rightarrow> calls \<Rightarrow> bool" where
  send: "enforceCooldown (it_now s) k (it_cmd s) = None \<Longrightarrow>
     cmd_step s (s\<lparr>it_inflight := k # it_inflight s\<rparr>)"
| accepted: "k \<in> set (it_inflight s) \<Longrightarrow>
     cmd_step s (s\<lparr>it_cmd := markStartStop (it_now s) k (it_cmd s),
                   it_inflight := remove1 k (it_inflight s),
                   it_marks := it_marks s @ [(k, it_now s)]\<rparr>)"
| failed: "k \<in> set (it_inflight s) \<Longrightarrow> cmd_step s (s\<lparr>it_inflight := remove1 k (it_inflight s)\<rparr>)"
| elapse: "it_now s \<le> t \<Longrightarrow> cmd_step s (s\<lparr>it_now := t\<rparr>)"

definition calls_start :: "time \<Rightarrow> calls" where
  "calls_start t0 = \<lparr>it_cmd = NewCommander, it_now = t0, it_inflight = [], it_marks = []\<rparr>"

text \<open>The runs in which no charger ever has two calls in flight.\<close>

definition serial_step :: "calls \<Rightarrow> calls \<Rightarrow> bool" where
  "serial_step s s' \<longleftrightarrow> cmd_step s s' \<and> distinct (it_inflight s')"

definition calls_ok :: "calls \<Rightarrow> bool" where
  "calls_ok s \<longleftrightarrow> co_contactorCooldown (it_cmd s) = defaultContactorCooldown \<and>
     contactor.spaced (\<lambda>_. defaultContactorCooldown) (it_marks s) \<and>
     contactor.tracks (it_cmd s) (it_marks s) \<and> distinct (it_inflight s) \<and>
     (\<forall>k \<in> set (it_inflight s). \<exists>t \<le> it_now s. enforceCooldown t k (it_cmd s) = None)"

lemma enforce_other [simp]:
  "k' \<noteq> k \<Longrightarrow> enforceCooldown t k' (markStartStop tm k c) = enforceCooldown t k' c"
  by (simp add: enforceCooldown_def markStartStop_def split: option.split)

lemma mark_cooldown [simp]: "co_contactorCooldown (markStartStop t k c) = co_contactorCooldown c"
  by (simp add: markStartStop_def)

lemma serial_step_ok:
  assumes "calls_ok s" "serial_step s s'"
  shows "calls_ok s'"
proof -
  have "cmd_step s s'" "distinct (it_inflight s')" using assms(2) by (auto simp: serial_step_def)
  then show ?thesis using assms(1)
  proof (cases rule: cmd_step.cases)
    case (accepted k)
    then obtain t where t: "t \<le> it_now s" "enforceCooldown t k (it_cmd s) = None"
      using assms(1) by (auto simp: calls_ok_def)
    have "contactor.spaced (\<lambda>_. defaultContactorCooldown) (it_marks s @ [(k, it_now s)]) \<and>
      contactor.tracks (markStartStop (it_now s) k (it_cmd s)) (it_marks s @ [(k, it_now s)])"
      using t assms(1)
      by (intro contactor.mark_spaced[where check = t])
        (auto simp: calls_ok_def defaultContactorCooldown_def)
    moreover have "\<exists>t \<le> it_now s. enforceCooldown t k' (markStartStop (it_now s) k (it_cmd s)) = None"
      if "k' \<in> set (remove1 k (it_inflight s))" for k'
    proof -
      have "k' \<noteq> k" "k' \<in> set (it_inflight s)" using that assms(1) by (auto simp: calls_ok_def)
      then show ?thesis using assms(1) by (simp add: calls_ok_def)
    qed
    ultimately show ?thesis using assms(1) accepted by (simp add: calls_ok_def)
  next
    case (elapse t)
    then show ?thesis using assms(1) by (simp add: calls_ok_def) (meson order_trans)
  qed (auto simp: calls_ok_def)
qed

lemma calls_ok_reachable: "serial_step\<^sup>*\<^sup>* (calls_start t0) s \<Longrightarrow> calls_ok s"
proof (induction rule: rtranclp_induct)
  case base
  show ?case
    by (simp add: calls_ok_def calls_start_def NewCommander_def contactor.spaced_def contactor.tracks_def)
qed (rule serial_step_ok)

subsection \<open>The contract of a commander\<close>

text \<open>
  The port through which the controller and the command bridge drive the chargers
  (\<open>ports.ChargerCommander\<close>), as what it promises about the commands that reach the library: a
  profile call hands over profiles of the given limit for the given connector only, a start or a
  stop at most that one command. A client composes the calls; \<open>extends P\<close> says that all it handed
  over satisfies \<open>P\<close>.
\<close>

locale charger_commander =
  fixes set_profile :: "charger_id \<Rightarrow> int \<Rightarrow> int \<Rightarrow> 'c \<Rightarrow> ('e + unit) \<times> 'c"
    and start :: "charger_id \<Rightarrow> int \<Rightarrow> string \<Rightarrow> 'c \<Rightarrow> ('e + unit) \<times> 'c"
    and stop :: "charger_id \<Rightarrow> int \<Rightarrow> 'c \<Rightarrow> ('e + unit) \<times> 'c"
    and sent :: "'c \<Rightarrow> ocpp_command list"
  assumes set_profile_sent: "\<exists>ps. sent (snd (set_profile k n a c)) = sent c @ map (SetChargingProfileReq k n) ps \<and>
      ps \<noteq> [] \<and> list_all (\<lambda>p. cp_Periods p = [(0, a)]) ps"
    and start_sent: "sent (snd (start k n tag c)) = sent c \<or>
      sent (snd (start k n tag c)) = sent c @ [RemoteStartReq k n tag]"
    and stop_sent: "sent (snd (stop k tx c)) = sent c \<or>
      sent (snd (stop k tx c)) = sent c @ [RemoteStopReq k tx]"
begin

definition extends :: "(ocpp_command \<Rightarrow> bool) \<Rightarrow> 'c \<Rightarrow> 'c \<Rightarrow> bool" where
  "extends P c c' \<longleftrightarrow> (\<exists>new. sent c' = sent c @ new \<and> list_all P new)"

lemma extends_refl [simp, intro]: "extends P c c"
  by (simp add: extends_def)

lemma extends_trans: "extends P a b \<Longrightarrow> extends P b c \<Longrightarrow> extends P a c"
  by (auto simp: extends_def)

lemma extends_mono: "extends P a b \<Longrightarrow> (\<And>x. P x \<Longrightarrow> Q x) \<Longrightarrow> extends Q a b"
  by (auto simp: extends_def list_all_iff)

lemma extends_fold:
  assumes "\<And>x s. x \<in> set xs \<Longrightarrow> extends P (h s) (h (f x s))"
  shows "extends P (h s) (h (fold f xs s))"
  using assms by (induction xs arbitrary: s) (auto intro: extends_trans)

text \<open>The loop with an invariant, which the body may need.\<close>

lemma extends_fold_inv:
  assumes "I s" and "\<And>x s. x \<in> set xs \<Longrightarrow> I s \<Longrightarrow> I (f x s) \<and> extends P (h s) (h (f x s))"
  shows "I (fold f xs s) \<and> extends P (h s) (h (fold f xs s))"
  using assms
proof (induction xs arbitrary: s)
  case (Cons x xs)
  have "I (f x s)" "extends P (h s) (h (f x s))" using Cons.prems by simp_all
  moreover have "I (fold f xs (f x s)) \<and> extends P (h (f x s)) (h (fold f xs (f x s)))"
    using Cons.IH[of "f x s"] Cons.prems calculation(1) by simp
  ultimately show ?case by (auto intro: extends_trans)
qed simp

lemma set_profile_extends:
  assumes "\<And>p. cp_Periods p = [(0, a)] \<Longrightarrow> P (SetChargingProfileReq k n p)"
  shows "extends P c (snd (set_profile k n a c))"
  using set_profile_sent[of k n a c] assms by (auto simp: extends_def list_all_iff)

lemma start_extends: "P (RemoteStartReq k n tag) \<Longrightarrow> extends P c (snd (start k n tag c))"
  using start_sent[of k n tag c] by (auto simp: extends_def)

lemma stop_extends: "P (RemoteStopReq k tx) \<Longrightarrow> extends P c (snd (stop k tx c))"
  using stop_sent[of k tx c] by (auto simp: extends_def)

lemma set_profile_sends: "\<not> extends (\<lambda>_. False) c (snd (set_profile k n a c))"
  using set_profile_sent[of k n a c] by (auto simp: extends_def neq_Nil_conv)

end

lemma sendChargingProfile_sent [effect_simps]:
  "co_sent (snd (sendChargingProfile env k n p c)) = co_sent c @ [SetChargingProfileReq k n p]"
  by (auto simp: sendChargingProfile_def hand_over_def split: answer.split)

lemma build_periods [simp]:
  "cp_Periods (buildTxDefaultProfile n a) = [(0, a)]" "cp_Periods (buildTxProfile a tx) = [(0, a)]"
  by (simp_all add: buildTxDefaultProfile_def buildTxProfile_def)

lemma SetChargingProfile_sent:
  "\<exists>ps. co_sent (snd (SetChargingProfile env repo k n a c)) = co_sent c @ map (SetChargingProfileReq k n) ps \<and>
     ps \<noteq> [] \<and> list_all (\<lambda>p. cp_Periods p = [(0, a)]) ps"
proof -
  obtain r c1 where 1: "sendChargingProfile env k n (buildTxDefaultProfile n a) c = (r, c1)" by fastforce
  then have c1: "co_sent c1 = co_sent c @ [SetChargingProfileReq k n (buildTxDefaultProfile n a)]"
    using sendChargingProfile_sent[of env k n "buildTxDefaultProfile n a" c] by simp
  let ?one = "[buildTxDefaultProfile n a]"
  consider "snd (SetChargingProfile env repo k n a c) = c1"
    | tx where "snd (SetChargingProfile env repo k n a c) =
        snd (sendChargingProfile env k n (buildTxProfile a tx) c1)"
    using 1 by (fastforce simp: SetChargingProfile_def split: sum.splits option.splits if_splits)
  then show ?thesis
  proof cases
    case 1
    then show ?thesis using c1 by (intro exI[of _ ?one]) simp
  next
    case (2 tx)
    then show ?thesis using c1
      by (intro exI[of _ "?one @ [buildTxProfile a tx]"]) (simp add: effect_simps)
  qed
qed

lemma guarded_sent:
  "co_sent (guarded env k cmd c) = co_sent c \<or> co_sent (guarded env k cmd c) = co_sent c @ [cmd]"
  by (auto simp: guarded_def Let_def markStartStop_def split: answer.split)

interpretation cmdr: charger_commander "SetChargingProfile env repo" "RemoteStartTransaction env"
  "RemoteStopTransaction env" co_sent for env :: env and repo :: "session_repo option"
  by unfold_locales (simp_all add: SetChargingProfile_sent start_guarded stop_guarded guarded_sent)

subsection \<open>Properties\<close>

text \<open>
  Contactor protection. Over any sequence of commander operations, against any network, the
  switchings (starts and stops) that one charger accepts are at least \<open>d\<close> apart, when the cooldown
  never goes below \<open>d\<close>.
\<close>

theorem contactor_protected:
  assumes "answers_after_send env" "0 \<le> d" "d \<le> defaultContactorCooldown"
    and "\<forall>x. OpSetCooldown x \<in> set ops \<longrightarrow> d \<le> x"
  shows "sorted_wrt (\<lambda>(k, t) (k', t'). k = k' \<longrightarrow> d \<le> t' - t)
           (switchings env (co_sent (fold (run_op env) ops NewCommander)))"
proof -
  have "switchings_ok env d (fold (run_op env) ops NewCommander)"
    by (rule run_ops_ok[OF assms(1,2,4) _ switchings_ok_New]) (use assms(3) in \<open>simp add: NewCommander_def\<close>)
  then show ?thesis by (simp add: switchings_ok_def contactor.spaced_def)
qed

theorem contactor_protected_witness:
  "let env = \<lparr>ev_answer = (\<lambda>sent _. Confirmed ''Accepted'' (200 * second * int (length sent))),
              ev_now = (\<lambda>sent. 200 * second * int (length sent))\<rparr>
   in sorted_wrt (\<lambda>(k, t) (k', t'). k = k' \<longrightarrow> 100 * second \<le> t' - t)
        (switchings env (co_sent (fold (run_op env)
           [OpStart ''a'' 1 ''tag'', OpSetCooldown (100 * second), OpStop ''a'' 7] NewCommander)))"
  unfolding Let_def
  by (rule contactor_protected) (auto simp: answers_after_send_def defaultContactorCooldown_def)



text \<open>
  With two calls in flight for one charger it does not: both pass the check before either
  marks, and two switchings at the same instant are accepted.
\<close>

theorem overlapping_calls_race:
  "\<exists>s. cmd_step\<^sup>*\<^sup>* (calls_start t0) s \<and> it_marks s = [(k, t0), (k, t0)]"
proof -
  let ?s0 = "calls_start t0"
  let ?s1 = "?s0\<lparr>it_inflight := [k]\<rparr>" and ?s2 = "?s0\<lparr>it_inflight := [k, k]\<rparr>"
  let ?s3 = "?s2\<lparr>it_cmd := markStartStop t0 k NewCommander, it_inflight := [k], it_marks := [(k, t0)]\<rparr>"
  let ?s4 = "?s3\<lparr>it_cmd := markStartStop t0 k (markStartStop t0 k NewCommander),
                 it_inflight := [], it_marks := [(k, t0), (k, t0)]\<rparr>"
  have new: "enforceCooldown t0 k NewCommander = None"
    by (simp add: enforceCooldown_def NewCommander_def)
  have "cmd_step ?s0 ?s1" using cmd_step.send[of ?s0 k] new by (simp add: calls_start_def)
  moreover have "cmd_step ?s1 ?s2" using cmd_step.send[of ?s1 k] new by (simp add: calls_start_def)
  moreover have "cmd_step ?s2 ?s3" using cmd_step.accepted[of k ?s2] by (simp add: calls_start_def)
  moreover have "cmd_step ?s3 ?s4" using cmd_step.accepted[of k ?s3] by (simp add: calls_start_def)
  ultimately have "cmd_step\<^sup>*\<^sup>* ?s0 ?s4" by (meson converse_rtranclp_into_rtranclp rtranclp.rtrancl_refl)
  then show ?thesis by force
qed

end
