(* ===== verification/Ocpp.thy ===== *)
theory Ocpp
  imports Domain
begin

section \<open>Ocpp: the requests of the charge points\<close>

text \<open>
  The OCPP 1.6 requests the program receives. The types belong to the OCPP library; each record has
  the fields the program reads, and a nil pointer is \<open>None\<close>. \<open>ocpp_payload\<close> is the \<open>any\<close> that the
  relay switches on: one constructor per case of that switch, nil, and every other type.
\<close>

record boot_request =
  bn_ChargePointModel :: string
  bn_ChargePointVendor :: string
  bn_FirmwareVersion :: string
  bn_ChargePointSerialNumber :: string

record status_request =
  sn_ConnectorId :: int
  sn_ErrorCode :: string
  sn_Status :: string
  sn_Info :: string

record sampled_value =
  sv_Value :: string
  sv_Measurand :: string
  sv_Unit :: string
  sv_Phase :: string

record ocpp_meter_value =
  om_Timestamp :: "time option"
  om_SampledValue :: "sampled_value list"

record meter_request =
  mr_ConnectorId :: int
  mr_TransactionId :: "int option"
  mr_MeterValue :: "ocpp_meter_value list"

record start_request =
  st_ConnectorId :: int
  st_IdTag :: string
  st_MeterStart :: int
  st_Timestamp :: "time option"

record stop_request =
  sp_MeterStop :: int
  sp_Timestamp :: "time option"
  sp_TransactionId :: int
  sp_Reason :: string

datatype ocpp_payload =
    BootNotificationRequest boot_request
  | HeartbeatRequest
  | AuthorizeRequest string
  | StatusNotificationRequest status_request
  | MeterValuesRequest meter_request
  | StartTransactionRequest start_request
  | StopTransactionRequest stop_request
  | DataTransferRequest string
  | FirmwareStatusNotificationRequest string
  | DiagnosticsStatusNotificationRequest string
  | NilPayload
  | OtherPayload

end
