(* ===== verification/Relay.thy ===== *)
theory Relay
  imports Ocpp Commander
begin

section \<open>Relay: forwarding to the upstream cloud\<close>

text \<open>
  \<open>internal/adapter/outbound/ocpp/relay.go\<close> and the \<open>NoopRelay\<close> of \<open>router.go\<close>. The OCPP
  client library is a parameter: \<open>relay_net\<close> answers the creation and start of a connection, a
  call on it, and whether it is up, each as a function of what the relay did before.
  \<open>ur_trace\<close> records those interactions and the \<open>OnStateChange\<close> callbacks, oldest first. The
  proxy configuration repository is shared, so it is an argument. Locks are left out: each operation
  is atomic here.
\<close>

subsection \<open>State\<close>

text \<open>A call on the client: the request with the positional arguments only, and the request after
  the option functions ran on it, which is what the library sends.\<close>

record upstream_call =
  uc_args :: ocpp_payload
  uc_request :: ocpp_payload

record relay_entry =
  re_url :: string
  re_auth :: "(string \<times> string) option"
  re_coreHandler :: bool

datatype relay_effect =
    StartUpstream charger_id relay_entry "string option"   \<comment> \<open>with the answer: an error or nil\<close>
  | StopUpstream charger_id
  | Call charger_id upstream_call
  | StateChange charger_id bool

record relay_net =
  rn_create :: "relay_effect list \<Rightarrow> charger_id \<Rightarrow> string option"
  rn_start :: "relay_effect list \<Rightarrow> charger_id \<Rightarrow> string option"
  rn_call :: "relay_effect list \<Rightarrow> charger_id \<Rightarrow> upstream_call \<Rightarrow> string option"
  rn_connected :: "relay_effect list \<Rightarrow> charger_id \<Rightarrow> bool"

record upstream_relay =
  ur_clients :: "(charger_id \<times> relay_entry) list"
  ur_commander :: bool          \<comment> \<open>is a downstream commander wired\<close>
  ur_onStateChange :: bool      \<comment> \<open>is the callback set\<close>
  ur_mvLastSent :: "charger_id \<Rightarrow> time option"
  ur_trace :: "relay_effect list"

datatype relay_error =
    NoUpstream charger_id
  | NilPayloadError string
  | UnsupportedPayload string
  | UpstreamError string
  | ForwardError string charger_id relay_error
  | GetConfigError charger_id repo_error
  | CreateError charger_id string
  | StartError charger_id string

definition NewUpstreamRelay :: upstream_relay where
  "NewUpstreamRelay = \<lparr>ur_clients = [], ur_commander = False, ur_onStateChange = False,
     ur_mvLastSent = (\<lambda>_. None), ur_trace = []\<rparr>"

definition WithDownstream :: "upstream_relay \<Rightarrow> upstream_relay" where
  "WithDownstream r = r\<lparr>ur_commander := True\<rparr>"

definition note_relay :: "relay_effect \<Rightarrow> upstream_relay \<Rightarrow> upstream_relay" where
  "note_relay eff r = r\<lparr>ur_trace := ur_trace r @ [eff]\<rparr>"

definition state_change :: "charger_id \<Rightarrow> bool \<Rightarrow> upstream_relay \<Rightarrow> upstream_relay" where
  "state_change k up r = (if ur_onStateChange r then note_relay (StateChange k up) r else r)"

subsection \<open>Connecting\<close>

definition Connect ::
  "relay_net \<Rightarrow> proxy_repo \<Rightarrow> charger_id \<Rightarrow> upstream_relay \<Rightarrow> relay_error option \<times> upstream_relay"
where
  "Connect net repo chargerID r =
     (case GetProxyConfig chargerID repo of
        Inl e \<Rightarrow> (Some (GetConfigError chargerID e), r)
      | Inr None \<Rightarrow> (None, r)
      | Inr (Some cfg) \<Rightarrow>
          if \<not> pc_ProxyEnabled cfg \<or> pc_UpstreamURL cfg = '''' then (None, r)
          else if map_of (ur_clients r) chargerID \<noteq> None then (None, r)
          else
            (case rn_create net (ur_trace r) chargerID of
               Some e \<Rightarrow> (Some (CreateError chargerID e), r)
             | None \<Rightarrow>
                 (let entry = \<lparr>re_url = pc_UpstreamURL cfg,
                        re_auth = (if pc_UpstreamUser cfg \<noteq> ''''
                                   then Some (pc_UpstreamUser cfg, pc_UpstreamPasswordEnc cfg) else None),
                        re_coreHandler = ur_commander r\<rparr>;
                      answer = rn_start net (ur_trace r) chargerID;
                      r = note_relay (StartUpstream chargerID entry answer) r
                  in case answer of
                       Some e \<Rightarrow> (Some (StartError chargerID e), r)
                     | None \<Rightarrow>
                         (None, state_change chargerID True
                            (r\<lparr>ur_clients := AList.update chargerID entry (ur_clients r)\<rparr>)))))"

definition Disconnect :: "charger_id \<Rightarrow> upstream_relay \<Rightarrow> upstream_relay" where
  "Disconnect chargerID r =
     (case map_of (ur_clients r) chargerID of
        None \<Rightarrow> r
      | Some entry \<Rightarrow>
          state_change chargerID False
            (note_relay (StopUpstream chargerID)
              (r\<lparr>ur_clients := AList.delete chargerID (ur_clients r)\<rparr>)))"

text \<open>The handlers given to the web socket client.\<close>

definition upstream_disconnected :: "charger_id \<Rightarrow> upstream_relay \<Rightarrow> upstream_relay" where
  "upstream_disconnected chargerID r = state_change chargerID False r"

definition upstream_reconnected :: "charger_id \<Rightarrow> upstream_relay \<Rightarrow> upstream_relay" where
  "upstream_reconnected chargerID r = state_change chargerID True r"

definition IsConnected :: "relay_net \<Rightarrow> charger_id \<Rightarrow> upstream_relay \<Rightarrow> bool" where
  "IsConnected net chargerID r =
     (case map_of (ur_clients r) chargerID of
        None \<Rightarrow> False
      | Some _ \<Rightarrow> rn_connected net (ur_trace r) chargerID)"

definition Close :: "upstream_relay \<Rightarrow> upstream_relay" where
  "Close r = (let ids = keys_of (ur_clients r) in fold Disconnect ids r)"

subsection \<open>Forwarding\<close>

definition throttle_interval :: "proxy_repo \<Rightarrow> charger_id \<Rightarrow> duration option" where
  "throttle_interval repo chargerID =
     (case GetProxyConfig chargerID repo of
        Inl _ \<Rightarrow> None
      | Inr None \<Rightarrow> None
      | Inr (Some cfg) \<Rightarrow>
          if pc_UpstreamThrottleMVPerMin cfg \<le> 0 then None
          else Some ((60 div pc_UpstreamThrottleMVPerMin cfg) * second))"

definition shouldThrottleMV ::
  "proxy_repo \<Rightarrow> time \<Rightarrow> charger_id \<Rightarrow> upstream_relay \<Rightarrow> bool \<times> upstream_relay" where
  "shouldThrottleMV repo now chargerID r =
     (case throttle_interval repo chargerID of
        None \<Rightarrow> (False, r)
      | Some minInterval \<Rightarrow>
          (case ur_mvLastSent r chargerID of
             Some t \<Rightarrow>
               if time_sub now t < minInterval then (True, r)
               else (False, r\<lparr>ur_mvLastSent := (ur_mvLastSent r)(chargerID \<mapsto> now)\<rparr>)
           | None \<Rightarrow> (False, r\<lparr>ur_mvLastSent := (ur_mvLastSent r)(chargerID \<mapsto> now)\<rparr>)))"

text \<open>The call that \<open>forward\<close> makes for a payload. Every option function overwrites the whole
  request; \<open>Heartbeat\<close> has none.\<close>

fun forward_call :: "time \<Rightarrow> string \<Rightarrow> ocpp_payload \<Rightarrow> relay_error + upstream_call" where
  "forward_call now action NilPayload = Inl (NilPayloadError action)"
| "forward_call now action (BootNotificationRequest req) =
     Inr \<lparr>uc_args = BootNotificationRequest \<lparr>bn_ChargePointModel = bn_ChargePointModel req,
            bn_ChargePointVendor = bn_ChargePointVendor req, bn_FirmwareVersion = '''',
            bn_ChargePointSerialNumber = ''''\<rparr>,
          uc_request = BootNotificationRequest req\<rparr>"
| "forward_call now action HeartbeatRequest =
     Inr \<lparr>uc_args = HeartbeatRequest, uc_request = HeartbeatRequest\<rparr>"
| "forward_call now action (AuthorizeRequest idTag) =
     Inr \<lparr>uc_args = AuthorizeRequest idTag, uc_request = AuthorizeRequest idTag\<rparr>"
| "forward_call now action (StatusNotificationRequest req) =
     Inr \<lparr>uc_args = StatusNotificationRequest (req\<lparr>sn_Info := ''''\<rparr>),
          uc_request = StatusNotificationRequest req\<rparr>"
| "forward_call now action (MeterValuesRequest req) =
     Inr \<lparr>uc_args = MeterValuesRequest (req\<lparr>mr_TransactionId := None\<rparr>),
          uc_request = MeterValuesRequest req\<rparr>"
| "forward_call now action (StartTransactionRequest req) =
     (let ts = (case st_Timestamp req of None \<Rightarrow> Some now | Some t \<Rightarrow> Some t)
      in Inr \<lparr>uc_args = StartTransactionRequest (req\<lparr>st_Timestamp := ts\<rparr>),
              uc_request = StartTransactionRequest req\<rparr>)"
| "forward_call now action (StopTransactionRequest req) =
     (let ts = (case sp_Timestamp req of None \<Rightarrow> Some now | Some t \<Rightarrow> Some t)
      in Inr \<lparr>uc_args = StopTransactionRequest (req\<lparr>sp_Timestamp := ts, sp_Reason := ''''\<rparr>),
              uc_request = StopTransactionRequest req\<rparr>)"
| "forward_call now action (DataTransferRequest vendor) =
     Inr \<lparr>uc_args = DataTransferRequest vendor, uc_request = DataTransferRequest vendor\<rparr>"
| "forward_call now action (FirmwareStatusNotificationRequest status) =
     Inr \<lparr>uc_args = FirmwareStatusNotificationRequest status,
          uc_request = FirmwareStatusNotificationRequest status\<rparr>"
| "forward_call now action (DiagnosticsStatusNotificationRequest status) =
     Inr \<lparr>uc_args = DiagnosticsStatusNotificationRequest status,
          uc_request = DiagnosticsStatusNotificationRequest status\<rparr>"
| "forward_call now action OtherPayload = Inl (UnsupportedPayload action)"

definition forward ::
  "relay_net \<Rightarrow> time \<Rightarrow> charger_id \<Rightarrow> string \<Rightarrow> ocpp_payload \<Rightarrow> upstream_relay \<Rightarrow>
     relay_error option \<times> upstream_relay"
where
  "forward net now chargerID action payload r =
     (case forward_call now action payload of
        Inl e \<Rightarrow> (Some e, r)
      | Inr call \<Rightarrow>
          (map_option UpstreamError (rn_call net (ur_trace r) chargerID call),
           note_relay (Call chargerID call) r))"

definition ForwardUpstream ::
  "relay_net \<Rightarrow> proxy_repo \<Rightarrow> time \<Rightarrow> charger_id \<Rightarrow> string \<Rightarrow> ocpp_payload \<Rightarrow> upstream_relay \<Rightarrow>
     relay_error option \<times> upstream_relay"
where
  "ForwardUpstream net repo now chargerID action payload r =
     (case map_of (ur_clients r) chargerID of
        None \<Rightarrow> (Some (NoUpstream chargerID), r)
      | Some entry \<Rightarrow>
          (let (throttled, r) = (if action = ''MeterValues'' then shouldThrottleMV repo now chargerID r
                                 else (False, r)) in
           if throttled then (None, r)
           else (case forward net now chargerID action payload r of
                   (Some e, r) \<Rightarrow> (Some (ForwardError action chargerID e), r)
                 | (None, r) \<Rightarrow> (None, r))))"

text \<open>The two relays behind the \<open>Relay\<close> interface.\<close>

datatype relay = NoopRelay | UpstreamRelay upstream_relay

fun Forward ::
  "relay_net \<Rightarrow> proxy_repo \<Rightarrow> time \<Rightarrow> charger_id \<Rightarrow> string \<Rightarrow> ocpp_payload \<Rightarrow> relay \<Rightarrow>
     relay_error option \<times> relay"
where
  "Forward net repo now chargerID action payload NoopRelay = (None, NoopRelay)"
| "Forward net repo now chargerID action payload (UpstreamRelay r) =
     (let (e, r) = ForwardUpstream net repo now chargerID action payload r in (e, UpstreamRelay r))"

fun relay_connected :: "relay_net \<Rightarrow> charger_id \<Rightarrow> relay \<Rightarrow> bool" where
  "relay_connected net chargerID NoopRelay = False"
| "relay_connected net chargerID (UpstreamRelay r) = IsConnected net chargerID r"

subsection \<open>Requests from upstream\<close>

text \<open>\<open>relayCoreHandler\<close> passes the vendor cloud's start and stop requests to the commander; the
  answers are statuses. The stop request's own transaction id is not read by the code.\<close>

definition OnRemoteStartTransaction ::
  "env \<Rightarrow> charger_id \<Rightarrow> int option \<Rightarrow> string \<Rightarrow> commander \<Rightarrow> string \<times> commander" where
  "OnRemoteStartTransaction env chargerID connector idTag c =
     (let connectorID = (case connector of None \<Rightarrow> 1 | Some n \<Rightarrow> n);
          idTag = (if idTag = '''' then ''upstream'' else idTag)
      in case RemoteStartTransaction env chargerID connectorID idTag c of
           (Inl e, c) \<Rightarrow> (''Rejected'', c)
         | (Inr _, c) \<Rightarrow> (''Accepted'', c))"

definition OnRemoteStopTransaction ::
  "env \<Rightarrow> session_repo \<Rightarrow> charger_id \<Rightarrow> int \<Rightarrow> commander \<Rightarrow> string \<times> commander" where
  "OnRemoteStopTransaction env sessions chargerID transactionID c =
     (case GetActiveSession chargerID 1 sessions of
        Inl _ \<Rightarrow> (''Rejected'', c)
      | Inr None \<Rightarrow> (''Rejected'', c)
      | Inr (Some active) \<Rightarrow>
          (case RemoteStopTransaction env chargerID (se_TransactionID active) c of
             (Inl e, c) \<Rightarrow> (''Rejected'', c)
           | (Inr _, c) \<Rightarrow> (''Accepted'', c)))"

definition OnChangeAvailability :: string where "OnChangeAvailability = ''Accepted''"
definition OnChangeConfiguration :: string where "OnChangeConfiguration = ''Accepted''"
definition OnClearCache :: string where "OnClearCache = ''Accepted''"
definition relay_OnDataTransfer :: string where "relay_OnDataTransfer = ''Accepted''"
definition OnReset :: string where "OnReset = ''Accepted''"
definition OnUnlockConnector :: string where "OnUnlockConnector = ''NotSupported''"

subsection \<open>The contract of a relay\<close>

text \<open>What the router relies on: a forward sends at most the payload it is given, to the given
  charger's upstream, only when that charger has one, and it opens and closes no connection.\<close>

locale relay_port =
  fixes fwd :: "charger_id \<Rightarrow> string \<Rightarrow> ocpp_payload \<Rightarrow> 's \<Rightarrow> 'e option \<times> 's"
    and sent :: "'s \<Rightarrow> (charger_id \<times> ocpp_payload) list"
    and linked :: "'s \<Rightarrow> charger_id set"
  assumes fwd_sent: "sent (snd (fwd k a p s)) = sent s \<or> sent (snd (fwd k a p s)) = sent s @ [(k, p)]"
    and fwd_linked: "linked (snd (fwd k a p s)) = linked s"
    and fwd_unlinked: "k \<notin> linked s \<Longrightarrow> sent (snd (fwd k a p s)) = sent s"
begin

definition routed :: "bool \<Rightarrow> charger_id \<Rightarrow> string \<Rightarrow> ocpp_payload \<Rightarrow> 's \<Rightarrow> 's" where
  "routed should k a p s = (if should then snd (fwd k a p s) else s)"

lemma routed_sent: "\<exists>n \<le> 1. sent (routed should k a p s) = sent s @ replicate n (k, p)"
  using fwd_sent[of k a p s] by (cases should) (force simp: routed_def intro: exI[of _ 0] exI[of _ 1])+

lemma routed_linked: "linked (routed should k a p s) = linked s"
  by (simp add: routed_def fwd_linked)

text \<open>A whole history of messages: nothing goes to a charger without an upstream, and every message
  sent is one of those routed.\<close>

definition route_all ::
  "(bool \<times> charger_id \<times> string \<times> ocpp_payload) list \<Rightarrow> 's \<Rightarrow> 's" where
  "route_all msgs s = fold (\<lambda>(should, k, a, p). routed should k a p) msgs s"

lemma route_all_sent:
  "\<exists>new. sent (route_all msgs s) = sent s @ new \<and>
     subseq new (map (\<lambda>(should, k, a, p). (k, p)) (filter fst msgs)) \<and> fst ` set new \<subseteq> linked s"
proof (induction msgs arbitrary: s)
  case (Cons m msgs)
  obtain should k a p where m: "m = (should, k, a, p)" by (cases m)
  let ?s = "routed should k a p s"
  from Cons.IH[of ?s] obtain new where new: "sent (route_all msgs ?s) = sent ?s @ new"
    "subseq new (map (\<lambda>(should, k, a, p). (k, p)) (filter fst msgs))" "fst ` set new \<subseteq> linked s"
    by (auto simp: routed_linked)
  have step: "route_all (m # msgs) s = route_all msgs ?s" by (simp add: route_all_def m)
  consider "sent ?s = sent s" | "should" "sent ?s = sent s @ [(k, p)]" "k \<in> linked s"
    using fwd_sent[of k a p s] fwd_unlinked[of k s a p]
    by (cases should; cases "k \<in> linked s") (auto simp: routed_def)
  then show ?case
  proof cases
    case 1
    then show ?thesis using new step m by (intro exI[of _ new]) auto
  next
    case 2
    then show ?thesis using new step m by (intro exI[of _ "(k, p) # new"]) auto
  qed
qed (simp add: route_all_def)

end

fun call_of :: "relay_effect \<Rightarrow> (charger_id \<times> ocpp_payload) option" where
  "call_of (Call k c) = Some (k, uc_request c)"
| "call_of eff = None"

fun relay_sent :: "relay \<Rightarrow> (charger_id \<times> ocpp_payload) list" where
  "relay_sent NoopRelay = []"
| "relay_sent (UpstreamRelay r) = List.map_filter call_of (ur_trace r)"

fun relay_linked :: "relay \<Rightarrow> charger_id set" where
  "relay_linked NoopRelay = {}"
| "relay_linked (UpstreamRelay r) = set (keys_of (ur_clients r))"

text \<open>Forwarding is transparent: the request sent is the request received.\<close>

lemma forward_call_request: "forward_call now a p = Inr c \<Longrightarrow> uc_request c = p"
  by (induction now a p rule: forward_call.induct) (auto simp: Let_def)

lemma forward_trace:
  "ur_trace (snd (forward net now k a p r)) = ur_trace r \<or>
   (\<exists>c. uc_request c = p \<and> ur_trace (snd (forward net now k a p r)) = ur_trace r @ [Call k c])"
  by (auto simp: forward_def note_relay_def dest: forward_call_request split: sum.split)

lemma forward_clients [simp]: "ur_clients (snd (forward net now k a p r)) = ur_clients r"
  by (auto simp: forward_def note_relay_def split: sum.split)

lemma forward_mv [simp]: "ur_mvLastSent (snd (forward net now k a p r)) = ur_mvLastSent r"
  by (auto simp: forward_def note_relay_def split: sum.split)

lemma throttle_frame [simp]:
  "ur_trace (snd (shouldThrottleMV repo now k r)) = ur_trace r"
  "ur_clients (snd (shouldThrottleMV repo now k r)) = ur_clients r"
  by (auto simp: shouldThrottleMV_def split: option.split)

lemma throttle_frameE:
  assumes "shouldThrottleMV repo now k r = (th, r1)"
  shows "ur_trace r1 = ur_trace r \<and> ur_clients r1 = ur_clients r"
  using assms throttle_frame[of repo now k r] by simp

lemma Forward_snd [simp]:
  "snd (Forward net repo now k a p (UpstreamRelay r)) =
     UpstreamRelay (snd (ForwardUpstream net repo now k a p r))"
  by (simp add: split_beta)

lemma relay_sent_snoc [simp]:
  "List.map_filter call_of (tr @ [Call k c]) = List.map_filter call_of tr @ [(k, uc_request c)]"
  by (simp add: map_filter_def)

lemma ForwardUpstream_cases:
  obtains (kept) "ur_trace (snd (ForwardUpstream net repo now k a p r)) = ur_trace r"
  | (called) c entry where "map_of (ur_clients r) k = Some entry" "uc_request c = p"
      "ur_trace (snd (ForwardUpstream net repo now k a p r)) = ur_trace r @ [Call k c]"
proof (cases "map_of (ur_clients r) k")
  case None
  then show ?thesis using kept by (simp add: ForwardUpstream_def)
next
  case (Some entry)
  define thr where "thr = (if a = ''MeterValues'' then shouldThrottleMV repo now k r else (False, r))"
  obtain th r1 where thr': "thr = (th, r1)" by fastforce
  then have r1: "ur_trace r1 = ur_trace r"
    by (auto simp: thr_def split: if_splits dest: throttle_frameE)
  show ?thesis
  proof (cases th)
    case True
    then show ?thesis using kept Some thr' r1 by (simp add: ForwardUpstream_def thr_def[symmetric])
  next
    case False
    then have "ur_trace (snd (ForwardUpstream net repo now k a p r)) =
        ur_trace (snd (forward net now k a p r1))"
      using Some thr' by (simp add: ForwardUpstream_def thr_def[symmetric] split: prod.split option.split)
    then show ?thesis using forward_trace[of net now k a p r1] r1 kept called[OF Some] by metis
  qed
qed

lemma ForwardUpstream_clients [simp]:
  "ur_clients (snd (ForwardUpstream net repo now k a p r)) = ur_clients r"
proof -
  show ?thesis
  proof (cases "a = ''MeterValues''")
    case True
    obtain th r1 where thr: "shouldThrottleMV repo now k r = (th, r1)" by fastforce
    then show ?thesis using True forward_clients[of net now k a p r1] throttle_frameE[OF thr]
      by (auto simp: ForwardUpstream_def split_beta split: option.split)
  next
    case False
    then show ?thesis by (auto simp: ForwardUpstream_def split_beta split: option.split)
  qed
qed

interpretation upstream: relay_port "Forward net repo now" relay_sent relay_linked
  for net :: relay_net and repo :: proxy_repo and now :: time
proof (unfold_locales, goal_cases)
  case (1 k a p s)
  show ?case
  proof (cases s)
    case (UpstreamRelay r)
    then show ?thesis
      by (cases rule: ForwardUpstream_cases[of net repo now k a p r]) (simp_all del: Forward.simps)
  qed simp
next
  case (2 k a p s)
  show ?case by (cases s) (simp_all del: Forward.simps(2))
next
  case (3 k s a p)
  then show ?case
    by (cases s) (auto simp: ForwardUpstream_def map_of_eq_None_iff[THEN iffD2] simp del: Forward.simps(2))
qed

subsection \<open>The meter-value throttle\<close>

definition mv_mark :: "time \<Rightarrow> charger_id \<Rightarrow> upstream_relay \<Rightarrow> upstream_relay" where
  "mv_mark now k r = r\<lparr>ur_mvLastSent := (ur_mvLastSent r)(k \<mapsto> now)\<rparr>"

definition mv_gap :: "proxy_repo \<Rightarrow> charger_id \<Rightarrow> duration" where
  "mv_gap repo k = (case throttle_interval repo k of None \<Rightarrow> min_duration | Some d \<Rightarrow> d)"

interpretation throttle: spacing ur_mvLastSent "\<lambda>now k r. \<not> fst (shouldThrottleMV repo now k r)"
  mv_mark "\<lambda>k r. mv_gap repo k" for repo :: proxy_repo
  by unfold_locales
    (auto simp: shouldThrottleMV_def mv_mark_def mv_gap_def not_less
      split: option.splits if_splits intro: time_sub_geD dest: time_sub_lessD)

text \<open>The times of the meter values actually handed to the upstreams in a run of forwards.\<close>

fun mv_sends ::
  "relay_net \<Rightarrow> proxy_repo \<Rightarrow> (time \<times> charger_id \<times> string \<times> ocpp_payload) list \<Rightarrow> upstream_relay \<Rightarrow>
     (charger_id \<times> time) list"
where
  "mv_sends net repo [] r = []"
| "mv_sends net repo ((now, k, action, p) # ms) r =
     (let r' = snd (ForwardUpstream net repo now k action p r)
      in (if action = ''MeterValues'' \<and> ur_trace r' \<noteq> ur_trace r then [(k, now)] else []) @
         mv_sends net repo ms r')"

lemma ForwardUpstream_mv:
  "ur_mvLastSent (snd (ForwardUpstream net repo now k a p r)) =
     (if map_of (ur_clients r) k \<noteq> None \<and> a = ''MeterValues''
      then ur_mvLastSent (snd (shouldThrottleMV repo now k r)) else ur_mvLastSent r)"
  by (auto simp: ForwardUpstream_def split_beta split: option.split)

lemma ForwardUpstream_sent_mv:
  "ur_trace (snd (ForwardUpstream net repo now k ''MeterValues'' p r)) \<noteq> ur_trace r \<Longrightarrow>
     map_of (ur_clients r) k \<noteq> None \<and> \<not> fst (shouldThrottleMV repo now k r)"
  by (auto simp: ForwardUpstream_def split_beta split: option.splits)

lemma not_throttled_marks:
  "throttle_interval repo k = Some d \<Longrightarrow>
     ur_mvLastSent (snd (shouldThrottleMV repo now k r)) k =
       (if fst (shouldThrottleMV repo now k r) then ur_mvLastSent r k else Some now)"
  by (auto simp: shouldThrottleMV_def split: option.splits)

lemma throttle_other [simp]:
  "k' \<noteq> k \<Longrightarrow> ur_mvLastSent (snd (shouldThrottleMV repo now k' r)) k = ur_mvLastSent r k"
  by (auto simp: shouldThrottleMV_def split: option.splits)

definition sends_to :: "charger_id \<Rightarrow> (charger_id \<times> time) list \<Rightarrow> (charger_id \<times> time) list" where
  "sends_to k h = filter (\<lambda>(k', t). k' = k) h"

lemma mv_sends_spaced:
  assumes "throttle_interval repo k = Some d" "0 \<le> d"
  shows "sorted_wrt (\<lambda>t t'. d \<le> t' - t) (map snd (sends_to k (mv_sends net repo ms r))) \<and>
    (\<forall>t0. ur_mvLastSent r k = Some t0 \<longrightarrow> (\<forall>(k', t) \<in> set (sends_to k (mv_sends net repo ms r)). d \<le> t - t0))"
proof (induction ms arbitrary: r)
  case (Cons m ms)
  obtain now k' a p where m: "m = (now, k', a, p)" by (cases m)
  let ?r = "snd (ForwardUpstream net repo now k' a p r)"
  let ?rest = "sends_to k (mv_sends net repo ms ?r)"
  have IH: "sorted_wrt (\<lambda>t t'. d \<le> t' - t) (map snd ?rest)"
    "\<And>t0. ur_mvLastSent ?r k = Some t0 \<Longrightarrow> \<forall>(k', t) \<in> set ?rest. d \<le> t - t0"
    using Cons.IH[of ?r] by blast+
  have head: "sends_to k (mv_sends net repo (m # ms) r) =
      (if k' = k \<and> a = ''MeterValues'' \<and> ur_trace ?r \<noteq> ur_trace r then [(k, now)] else []) @ ?rest"
    by (auto simp: sends_to_def Let_def m)
  show ?case
  proof (cases "k' = k \<and> a = ''MeterValues'' \<and> map_of (ur_clients r) k \<noteq> None \<and>
      \<not> fst (shouldThrottleMV repo now k r)")
    case False
    then have "ur_mvLastSent ?r k = ur_mvLastSent r k"
      using not_throttled_marks[OF assms(1), of now r]
      by (cases "k' = k") (auto simp: ForwardUpstream_mv split: if_splits)
    moreover have "\<not> (k' = k \<and> a = ''MeterValues'' \<and> ur_trace ?r \<noteq> ur_trace r)"
      using False ForwardUpstream_sent_mv by blast
    ultimately show ?thesis using IH head by (simp only: if_False append_Nil simp_thms) blast
  next
    case True
    then have last: "ur_mvLastSent ?r k = Some now"
      using not_throttled_marks[OF assms(1), of now r] by (simp add: ForwardUpstream_mv)
    have "mv_gap repo k = d" "min_duration < d"
      using assms by (simp_all add: mv_gap_def min_duration_def)
    then have prev: "d \<le> now - t0" if "ur_mvLastSent r k = Some t0" for t0
      using throttle.permit_spaced[of repo now k r t0] True that by simp
    have "\<forall>(k', t) \<in> set ?rest. d \<le> t - t0" if "ur_mvLastSent r k = Some t0" for t0
      using IH(2)[OF last] prev[OF that] assms(2) by fastforce
    then show ?thesis unfolding head using IH(1) IH(2)[OF last] prev by auto
  qed
qed (simp add: sends_to_def)

subsection \<open>Properties\<close>

text \<open>
  C32: the throttle: with a limit of \<open>n\<close> per minute configured for a charger, the meter values that
  reach its upstream are at least \<open>60 div n\<close> seconds apart, over any run of forwards to any
  chargers and any behaviour of the network.
\<close>

theorem meter_values_spaced:
  assumes "repo k = Some cfg" "0 < pc_UpstreamThrottleMVPerMin cfg"
  shows "sorted_wrt (\<lambda>t t'. (60 div pc_UpstreamThrottleMVPerMin cfg) * second \<le> t' - t)
           (map snd (filter (\<lambda>(k', t). k' = k) (mv_sends net repo ms r)))"
proof -
  have "throttle_interval repo k = Some ((60 div pc_UpstreamThrottleMVPerMin cfg) * second)"
    using assms by (simp add: throttle_interval_def GetProxyConfig_def)
  from mv_sends_spaced[OF this] show ?thesis
    using assms(2) by (simp add: sends_to_def pos_imp_zdiv_nonneg_iff)
qed

theorem meter_values_spaced_witness:
  "let cfg = \<lparr>pc_ChargerID = ''a'', pc_ProxyEnabled = True, pc_UpstreamURL = ''u'',
         pc_UpstreamUser = '''', pc_UpstreamPasswordEnc = '''', pc_ProxyPolicyJSON = '''',
         pc_UpstreamThrottleMVPerMin = 4\<rparr>;
       repo = Map.empty(''a'' \<mapsto> cfg);
       net = \<lparr>rn_create = \<lambda>_ _. None, rn_start = \<lambda>_ _. None, rn_call = \<lambda>_ _ _. None, rn_connected = \<lambda>_ _. True\<rparr>;
       r = snd (Connect net repo ''a'' NewUpstreamRelay)
   in sorted_wrt (\<lambda>t t'. 60 div pc_UpstreamThrottleMVPerMin cfg * second \<le> t' - t)
        (map snd (filter (\<lambda>(k', t). k' = ''a'') (mv_sends net repo
          (map (\<lambda>i. (i * second, ''a'', ''MeterValues'', HeartbeatRequest)) [0, 10, 20, 30]) r)))"
  unfolding Let_def by (rule meter_values_spaced) simp_all

lemma one_per_second:
  assumes d: "throttle_interval repo k = Some d" "d \<le> second"
    and r: "map_of (ur_clients r) k \<noteq> None"
      "\<forall>t. ur_mvLastSent r k = Some t \<longrightarrow> second \<le> t0 - t"
  shows "mv_sends net repo (map (\<lambda>i. (t0 + int i * second, k, ''MeterValues'', HeartbeatRequest)) [0..<n]) r =
         map (\<lambda>i. (k, t0 + int i * second)) [0..<n]"
  using r
proof (induction n arbitrary: r t0)
  have dle: "d \<le> max_duration" using d(2) by (simp add: max_duration_def)
  case (Suc n)
  let ?r = "snd (ForwardUpstream net repo t0 k ''MeterValues'' HeartbeatRequest r)"
  have free: "\<not> fst (shouldThrottleMV repo t0 k r)"
    using Suc.prems(2) d by (auto simp: shouldThrottleMV_def split: option.split dest!: time_sub_lessD[OF _ dle])
  obtain entry where entry: "map_of (ur_clients r) k = Some entry" using Suc.prems(1) by blast
  have "ur_trace ?r \<noteq> ur_trace r"
    using free entry throttle_frame(1)[of repo t0 k r]
    by (auto simp: ForwardUpstream_def forward_def note_relay_def split_beta split: option.split)
  moreover have "ur_mvLastSent ?r k = Some t0"
    using free not_throttled_marks[OF d(1), of t0 r] entry by (simp add: ForwardUpstream_mv)
  moreover have "mv_sends net repo (map (\<lambda>i. ((t0 + second) + int i * second, k, ''MeterValues'', HeartbeatRequest)) [0..<n]) ?r
      = map (\<lambda>i. (k, (t0 + second) + int i * second)) [0..<n]"
    using entry \<open>ur_mvLastSent ?r k = Some t0\<close> by (intro Suc.IH) simp_all
  moreover have "[0..<Suc n] = 0 # map Suc [0..<n]" by (simp add: map_Suc_upt upt_conv_Cons del: upt_Suc)
  ultimately show ?case
    by (simp add: Let_def o_def algebra_simps del: upt_Suc)
qed simp

text \<open>
  But the integer division rounds the interval down, and a rate above the limit passes: with a
  limit of more than 30 a minute, one message every second is never throttled.
\<close>

theorem throttle_exceeds_limit:
  assumes "repo k = Some cfg" "30 < pc_UpstreamThrottleMVPerMin cfg"
    and "map_of (ur_clients r) k = Some entry" "ur_mvLastSent r k = None"
  shows "mv_sends net repo (map (\<lambda>i. (t0 + int i * second, k, ''MeterValues'', HeartbeatRequest)) [0..<n]) r =
         map (\<lambda>i. (k, t0 + int i * second)) [0..<n]"
proof (rule one_per_second)
  show "throttle_interval repo k = Some ((60 div pc_UpstreamThrottleMVPerMin cfg) * second)"
    using assms(1,2) by (simp add: throttle_interval_def GetProxyConfig_def)
  have "60 div pc_UpstreamThrottleMVPerMin cfg \<le> 60 div 31"
    using assms(2) by (intro zdiv_mono2) auto
  then show "60 div pc_UpstreamThrottleMVPerMin cfg * second \<le> second" by simp
qed (use assms in auto)

theorem throttle_exceeds_limit_witness:
  "let cfg = \<lparr>pc_ChargerID = ''a'', pc_ProxyEnabled = True, pc_UpstreamURL = ''u'',
         pc_UpstreamUser = '''', pc_UpstreamPasswordEnc = '''', pc_ProxyPolicyJSON = '''',
         pc_UpstreamThrottleMVPerMin = 40\<rparr>;
       repo = Map.empty(''a'' \<mapsto> cfg);
       net = \<lparr>rn_create = \<lambda>_ _. None, rn_start = \<lambda>_ _. None, rn_call = \<lambda>_ _ _. None, rn_connected = \<lambda>_ _. True\<rparr>;
       r = snd (Connect net repo ''a'' NewUpstreamRelay)
   in mv_sends net repo (map (\<lambda>i. (0 + int i * second, ''a'', ''MeterValues'', HeartbeatRequest)) [0..<60]) r =
      map (\<lambda>i. (''a'', 0 + int i * second)) [0..<60]"
  unfolding Let_def
  by (rule throttle_exceeds_limit)
    (simp_all add: Connect_def GetProxyConfig_def NewUpstreamRelay_def note_relay_def state_change_def Let_def, simp)

subsection \<open>The life of the upstream connections\<close>

fun opens :: "charger_id \<Rightarrow> relay_effect list \<Rightarrow> int" where
  "opens k [] = 0"
| "opens k (StartUpstream k' entry None # tr) = (if k' = k then 1 else 0) + opens k tr"
| "opens k (StopUpstream k' # tr) = (if k' = k then -1 else 0) + opens k tr"
| "opens k (eff # tr) = opens k tr"

lemma opens_append [simp]: "opens k (tr @ tr') = opens k tr + opens k tr'"
  by (induction k tr rule: opens.induct) auto

datatype relay_op =
    OpConnect relay_net proxy_repo charger_id
  | OpDisconnect charger_id
  | OpClose
  | OpForward relay_net proxy_repo time charger_id string ocpp_payload
  | OpDropped charger_id
  | OpReconnected charger_id

fun run_relay :: "relay_op \<Rightarrow> upstream_relay \<Rightarrow> upstream_relay" where
  "run_relay (OpConnect net repo k) r = snd (Connect net repo k r)"
| "run_relay (OpDisconnect k) r = Disconnect k r"
| "run_relay OpClose r = Close r"
| "run_relay (OpForward net repo now k a p) r = snd (ForwardUpstream net repo now k a p r)"
| "run_relay (OpDropped k) r = upstream_disconnected k r"
| "run_relay (OpReconnected k) r = upstream_reconnected k r"

abbreviation connected_set :: "upstream_relay \<Rightarrow> charger_id set" where
  "connected_set r \<equiv> set (keys_of (ur_clients r))"

definition balanced :: "upstream_relay \<Rightarrow> bool" where
  "balanced r \<longleftrightarrow> distinct (keys_of (ur_clients r)) \<and>
     (\<forall>k. opens k (ur_trace r) = (if k \<in> connected_set r then 1 else 0))"

lemma state_change_frame [simp]:
  "ur_clients (state_change k up r) = ur_clients r"
  "opens k' (ur_trace (state_change k up r)) = opens k' (ur_trace r)"
  by (simp_all add: state_change_def note_relay_def)

lemma state_change_balanced [simp]: "balanced (state_change k up r) = balanced r"
  by (simp add: balanced_def)

lemma Connect_balanced:
  assumes "balanced r"
  shows "balanced (snd (Connect net repo k r))"
proof -
  have "k \<in> connected_set r \<longleftrightarrow> map_of (ur_clients r) k \<noteq> None" by (simp add: map_of_eq_None_iff)
  then show ?thesis using assms
    by (simp add: Connect_def Let_def GetProxyConfig_def balanced_def note_relay_def
        distinct_keys_update split: option.split del: set_map)
qed

lemma Disconnect_balanced:
  assumes "balanced r"
  shows "balanced (Disconnect k r)"
proof -
  have "k \<in> connected_set r \<longleftrightarrow> map_of (ur_clients r) k \<noteq> None" by (simp add: map_of_eq_None_iff)
  then show ?thesis using assms
    by (simp add: Disconnect_def balanced_def note_relay_def distinct_delete delete_keys distinct_removeAll
        split: option.split del: set_map)
qed

lemma Close_balanced: "balanced r \<Longrightarrow> balanced (Close r)"
  unfolding Close_def Let_def by (rule fold_invariant) (auto intro: Disconnect_balanced)

lemma Forward_balanced: "balanced r \<Longrightarrow> balanced (snd (ForwardUpstream net repo now k a p r))"
  by (cases rule: ForwardUpstream_cases[of net repo now k a p r]) (simp_all add: balanced_def)

lemma run_relay_balanced: "balanced r \<Longrightarrow> balanced (run_relay op r)"
  by (cases op)
    (auto simp: upstream_disconnected_def upstream_reconnected_def
      intro: Connect_balanced Disconnect_balanced Close_balanced Forward_balanced)

lemma Disconnect_clients: "ur_clients (Disconnect k r) = AList.delete k (ur_clients r)"
  by (auto simp: Disconnect_def state_change_def note_relay_def delete_idem map_of_eq_None_iff
      split: option.split)

lemma fold_Disconnect_clients:
  "ur_clients (fold Disconnect ks r) = fold AList.delete ks (ur_clients r)"
  by (induction ks arbitrary: r) (auto simp: Disconnect_clients)

lemma fold_delete_keys: "set (keys_of (fold AList.delete ks al)) = set (keys_of al) - set ks"
  by (induction ks arbitrary: al) (auto simp: delete_keys simp del: set_map)

lemma Close_clients [simp]: "ur_clients (Close r) = []"
proof -
  have "set (keys_of (ur_clients (Close r))) = {}"
    by (simp add: Close_def fold_Disconnect_clients fold_delete_keys del: set_map)
  then show ?thesis by (simp del: set_map)
qed

text \<open>
  C31: no upstream connection leaks and none is stopped twice: in every run of the relay, each
  charger has started exactly one connection more than it stopped while it is registered, as many
  otherwise, and closing the relay leaves none open.
\<close>

theorem upstream_connections_balanced:
  "(let r = fold run_relay ops NewUpstreamRelay in
     \<forall>k. opens k (ur_trace r) = (if k \<in> connected_set r then 1 else 0)) \<and>
   (\<forall>k. opens k (ur_trace (fold run_relay (ops @ [OpClose]) NewUpstreamRelay)) = 0)"
proof -
  have "balanced (fold run_relay ops' NewUpstreamRelay)" for ops'
    by (rule fold_invariant) (auto intro: run_relay_balanced, simp add: balanced_def NewUpstreamRelay_def)
  from this[of ops] this[of "ops @ [OpClose]"] show ?thesis
    by (simp add: balanced_def Let_def)
qed

text \<open>
  A start or stop request without a timestamp is forwarded without one: the current time that
  \<open>forward\<close> computes for it is overwritten by the option function that copies the request.
\<close>

theorem missing_timestamp_stays_missing:
  assumes "st_Timestamp req = None"
  shows "\<exists>c. forward_call now action (StartTransactionRequest req) = Inr c \<and>
    uc_args c = StartTransactionRequest (req\<lparr>st_Timestamp := Some now\<rparr>) \<and>
    uc_request c = StartTransactionRequest req"
  using assms by (simp add: Let_def)

theorem missing_timestamp_stays_missing_witness:
  "\<exists>c. forward_call 7 ''StartTransaction'' (StartTransactionRequest
      \<lparr>st_ConnectorId = 1, st_IdTag = ''t'', st_MeterStart = 0, st_Timestamp = None\<rparr>) = Inr c \<and>
    uc_args c = StartTransactionRequest (\<lparr>st_ConnectorId = 1, st_IdTag = ''t'', st_MeterStart = 0,
      st_Timestamp = None\<rparr>\<lparr>st_Timestamp := Some 7\<rparr>) \<and>
    uc_request c = StartTransactionRequest
      \<lparr>st_ConnectorId = 1, st_IdTag = ''t'', st_MeterStart = 0, st_Timestamp = None\<rparr>"
  by (rule missing_timestamp_stays_missing) simp

end
