(* ===== verification/Router.thy ===== *)
theory Router
  imports Policy Relay
begin

section \<open>Router: policy and relay together\<close>

text \<open>
  \<open>internal/adapter/outbound/ocpp/router.go\<close>. Every inbound request is decided by the policy and
  forwarded to the relay first (synchronously, in spite of the helper's name); the caller then
  handles it locally whatever the decision was.
\<close>

record router =
  ro_policy :: policy
  ro_relay :: relay

definition NewRouter :: "policy \<Rightarrow> relay \<Rightarrow> router" where
  "NewRouter p rl = \<lparr>ro_policy = p, ro_relay = rl\<rparr>"

definition decide_route :: "Direction \<Rightarrow> string \<Rightarrow> router \<Rightarrow> RouteDecision" where
  "decide_route dir action r = Decide (ro_policy r) dir action"

definition dirString :: "Direction \<Rightarrow> string" where
  "dirString dir = (if dir = DirectionOutbound then ''outbound'' else ''inbound'')"

definition forwardAsync ::
  "relay_net \<Rightarrow> proxy_repo \<Rightarrow> time \<Rightarrow> charger_id \<Rightarrow> string \<Rightarrow> ocpp_payload \<Rightarrow> router \<Rightarrow> router" where
  "forwardAsync net repo now k action req r =
     r\<lparr>ro_relay := snd (Forward net repo now k action req (ro_relay r))\<rparr>"

definition RouteBootNotification ::
  "relay_net \<Rightarrow> proxy_repo \<Rightarrow> time \<Rightarrow> charger_id \<Rightarrow> boot_request \<Rightarrow> router \<Rightarrow> RouteDecision \<times> router" where
  "RouteBootNotification net repo now k req r =
     (let d = decide_route DirectionInbound ''BootNotification'' r
      in (d, if ShouldForward d then forwardAsync net repo now k ''BootNotification'' (BootNotificationRequest req) r else r))"

definition RouteAuthorize ::
  "relay_net \<Rightarrow> proxy_repo \<Rightarrow> time \<Rightarrow> charger_id \<Rightarrow> string \<Rightarrow> router \<Rightarrow> RouteDecision \<times> router" where
  "RouteAuthorize net repo now k req r =
     (let d = decide_route DirectionInbound ''Authorize'' r
      in (d, if ShouldForward d then forwardAsync net repo now k ''Authorize'' (AuthorizeRequest req) r else r))"

definition RouteDataTransfer ::
  "relay_net \<Rightarrow> proxy_repo \<Rightarrow> time \<Rightarrow> charger_id \<Rightarrow> string \<Rightarrow> router \<Rightarrow> RouteDecision \<times> router" where
  "RouteDataTransfer net repo now k req r =
     (let d = decide_route DirectionInbound ''DataTransfer'' r
      in (d, if ShouldForward d then forwardAsync net repo now k ''DataTransfer'' (DataTransferRequest req) r else r))"

definition RouteHeartbeat ::
  "relay_net \<Rightarrow> proxy_repo \<Rightarrow> time \<Rightarrow> charger_id \<Rightarrow> router \<Rightarrow> RouteDecision \<times> router" where
  "RouteHeartbeat net repo now k r =
     (let d = decide_route DirectionInbound ''Heartbeat'' r
      in (d, if ShouldForward d then forwardAsync net repo now k ''Heartbeat'' HeartbeatRequest r else r))"

definition RouteStatusNotification ::
  "relay_net \<Rightarrow> proxy_repo \<Rightarrow> time \<Rightarrow> charger_id \<Rightarrow> status_request \<Rightarrow> router \<Rightarrow> RouteDecision \<times> router" where
  "RouteStatusNotification net repo now k req r =
     (let d = decide_route DirectionInbound ''StatusNotification'' r
      in (d, if ShouldForward d then forwardAsync net repo now k ''StatusNotification'' (StatusNotificationRequest req) r else r))"

definition RouteMeterValues ::
  "relay_net \<Rightarrow> proxy_repo \<Rightarrow> time \<Rightarrow> charger_id \<Rightarrow> meter_request \<Rightarrow> router \<Rightarrow> RouteDecision \<times> router" where
  "RouteMeterValues net repo now k req r =
     (let d = decide_route DirectionInbound ''MeterValues'' r
      in (d, if ShouldForward d then forwardAsync net repo now k ''MeterValues'' (MeterValuesRequest req) r else r))"

definition RouteStartTransaction ::
  "relay_net \<Rightarrow> proxy_repo \<Rightarrow> time \<Rightarrow> charger_id \<Rightarrow> start_request \<Rightarrow> router \<Rightarrow> RouteDecision \<times> router" where
  "RouteStartTransaction net repo now k req r =
     (let d = decide_route DirectionInbound ''StartTransaction'' r
      in (d, if ShouldForward d then forwardAsync net repo now k ''StartTransaction'' (StartTransactionRequest req) r else r))"

definition RouteStopTransaction ::
  "relay_net \<Rightarrow> proxy_repo \<Rightarrow> time \<Rightarrow> charger_id \<Rightarrow> stop_request \<Rightarrow> router \<Rightarrow> RouteDecision \<times> router" where
  "RouteStopTransaction net repo now k req r =
     (let d = decide_route DirectionInbound ''StopTransaction'' r
      in (d, if ShouldForward d then forwardAsync net repo now k ''StopTransaction'' (StopTransactionRequest req) r else r))"

definition RouteFirmwareStatusNotification ::
  "relay_net \<Rightarrow> proxy_repo \<Rightarrow> time \<Rightarrow> charger_id \<Rightarrow> string \<Rightarrow> router \<Rightarrow> RouteDecision \<times> router" where
  "RouteFirmwareStatusNotification net repo now k req r =
     (let d = decide_route DirectionInbound ''FirmwareStatusNotification'' r
      in (d, if ShouldForward d then forwardAsync net repo now k ''FirmwareStatusNotification'' (FirmwareStatusNotificationRequest req) r else r))"

definition RouteDiagnosticsStatusNotification ::
  "relay_net \<Rightarrow> proxy_repo \<Rightarrow> time \<Rightarrow> charger_id \<Rightarrow> string \<Rightarrow> router \<Rightarrow> RouteDecision \<times> router" where
  "RouteDiagnosticsStatusNotification net repo now k req r =
     (let d = decide_route DirectionInbound ''DiagnosticsStatusNotification'' r
      in (d, if ShouldForward d then forwardAsync net repo now k ''DiagnosticsStatusNotification'' (DiagnosticsStatusNotificationRequest req) r else r))"

definition RouteSetChargingProfile :: "router \<Rightarrow> RouteDecision" where
  "RouteSetChargingProfile r = Decide (ro_policy r) DirectionOutbound ''SetChargingProfile''"

definition RouteClearChargingProfile :: "router \<Rightarrow> RouteDecision" where
  "RouteClearChargingProfile r = Decide (ro_policy r) DirectionOutbound ''ClearChargingProfile''"

definition RouteRemoteStartTransaction :: "router \<Rightarrow> RouteDecision" where
  "RouteRemoteStartTransaction r = decide_route DirectionOutbound ''RemoteStartTransaction'' r"

definition RouteRemoteStopTransaction :: "router \<Rightarrow> RouteDecision" where
  "RouteRemoteStopTransaction r = decide_route DirectionOutbound ''RemoteStopTransaction'' r"

subsection \<open>The inbound requests as one family\<close>

text \<open>The charger's request, dispatched to the route of its type as the OCPP server does.\<close>

fun action_of :: "ocpp_payload \<Rightarrow> string" where
  "action_of (BootNotificationRequest req) = ''BootNotification''"
| "action_of HeartbeatRequest = ''Heartbeat''"
| "action_of (AuthorizeRequest req) = ''Authorize''"
| "action_of (StatusNotificationRequest req) = ''StatusNotification''"
| "action_of (MeterValuesRequest req) = ''MeterValues''"
| "action_of (StartTransactionRequest req) = ''StartTransaction''"
| "action_of (StopTransactionRequest req) = ''StopTransaction''"
| "action_of (DataTransferRequest req) = ''DataTransfer''"
| "action_of (FirmwareStatusNotificationRequest req) = ''FirmwareStatusNotification''"
| "action_of (DiagnosticsStatusNotificationRequest req) = ''DiagnosticsStatusNotification''"
| "action_of NilPayload = ''''"
| "action_of OtherPayload = ''''"

fun route_inbound ::
  "relay_net \<Rightarrow> proxy_repo \<Rightarrow> time \<Rightarrow> charger_id \<Rightarrow> ocpp_payload \<Rightarrow> router \<Rightarrow> router" where
  "route_inbound net repo now k (BootNotificationRequest req) r = snd (RouteBootNotification net repo now k req r)"
| "route_inbound net repo now k HeartbeatRequest r = snd (RouteHeartbeat net repo now k r)"
| "route_inbound net repo now k (AuthorizeRequest req) r = snd (RouteAuthorize net repo now k req r)"
| "route_inbound net repo now k (StatusNotificationRequest req) r = snd (RouteStatusNotification net repo now k req r)"
| "route_inbound net repo now k (MeterValuesRequest req) r = snd (RouteMeterValues net repo now k req r)"
| "route_inbound net repo now k (StartTransactionRequest req) r = snd (RouteStartTransaction net repo now k req r)"
| "route_inbound net repo now k (StopTransactionRequest req) r = snd (RouteStopTransaction net repo now k req r)"
| "route_inbound net repo now k (DataTransferRequest req) r = snd (RouteDataTransfer net repo now k req r)"
| "route_inbound net repo now k (FirmwareStatusNotificationRequest req) r =
     snd (RouteFirmwareStatusNotification net repo now k req r)"
| "route_inbound net repo now k (DiagnosticsStatusNotificationRequest req) r =
     snd (RouteDiagnosticsStatusNotification net repo now k req r)"
| "route_inbound net repo now k NilPayload r = r"
| "route_inbound net repo now k OtherPayload r = r"

lemmas route_defs = RouteBootNotification_def RouteHeartbeat_def RouteAuthorize_def
  RouteStatusNotification_def RouteMeterValues_def RouteStartTransaction_def RouteStopTransaction_def
  RouteDataTransfer_def RouteFirmwareStatusNotification_def RouteDiagnosticsStatusNotification_def

definition wants_upstream :: "policy \<Rightarrow> ocpp_payload \<Rightarrow> bool" where
  "wants_upstream p req \<longleftrightarrow> req \<noteq> NilPayload \<and> req \<noteq> OtherPayload \<and>
     ShouldForward (Decide p DirectionInbound (action_of req))"

lemma route_inbound_relay:
  "ro_relay (route_inbound net repo now k req r) =
     upstream.routed net repo now (wants_upstream (ro_policy r) req) k (action_of req) req (ro_relay r)"
  by (cases req)
    (simp_all add: route_defs Let_def decide_route_def forwardAsync_def wants_upstream_def
      upstream.routed_def)

lemma route_inbound_policy [simp]: "ro_policy (route_inbound net repo now k req r) = ro_policy r"
  by (cases req) (simp_all add: route_defs Let_def forwardAsync_def)

text \<open>A history of inbound requests, each with its time, charger, network and relay configuration.\<close>

type_synonym inbound = "relay_net \<times> proxy_repo \<times> time \<times> charger_id \<times> ocpp_payload"

definition route_history :: "inbound list \<Rightarrow> router \<Rightarrow> router" where
  "route_history msgs r = fold (\<lambda>(net, repo, now, k, req). route_inbound net repo now k req) msgs r"

fun msg_of :: "inbound \<Rightarrow> charger_id \<times> ocpp_payload" where
  "msg_of (net, repo, now, k, req) = (k, req)"

text \<open>What the policy lets through, in order.\<close>

definition forwarded :: "policy \<Rightarrow> inbound list \<Rightarrow> (charger_id \<times> ocpp_payload) list" where
  "forwarded p msgs = filter (\<lambda>(k, req). wants_upstream p req) (map msg_of msgs)"

lemma route_history_sent:
  "\<exists>new. relay_sent (ro_relay (route_history msgs r)) = relay_sent (ro_relay r) @ new \<and>
     subseq new (forwarded (ro_policy r) msgs) \<and> fst ` set new \<subseteq> relay_linked (ro_relay r)"
proof (induction msgs arbitrary: r)
  case (Cons m msgs)
  obtain net repo now k req where m: "m = (net, repo, now, k, req)" by (cases m)
  let ?r = "route_inbound net repo now k req r"
  let ?w = "wants_upstream (ro_policy r) req"
  have linked: "relay_linked (ro_relay ?r) = relay_linked (ro_relay r)"
    by (simp add: route_inbound_relay upstream.routed_linked)
  have step: "route_history (m # msgs) r = route_history msgs ?r" by (simp add: route_history_def m)
  from Cons.IH[of ?r] obtain new where new:
    "relay_sent (ro_relay (route_history msgs ?r)) = relay_sent (ro_relay ?r) @ new"
    "subseq new (forwarded (ro_policy r) msgs)" "fst ` set new \<subseteq> relay_linked (ro_relay r)"
    unfolding linked route_inbound_policy by blast
  have spec: "forwarded (ro_policy r) (m # msgs) =
      (if ?w then [(k, req)] else []) @ forwarded (ro_policy r) msgs"
    by (simp add: forwarded_def m)
  consider (none) "relay_sent (ro_relay ?r) = relay_sent (ro_relay r)"
    | (one) "?w" "relay_sent (ro_relay ?r) = relay_sent (ro_relay r) @ [(k, req)]"
        "k \<in> relay_linked (ro_relay r)"
    using upstream.fwd_sent[of net repo now k "action_of req" req "ro_relay r"]
      upstream.fwd_unlinked[of k "ro_relay r" net repo now "action_of req" req]
    by (cases ?w; cases "k \<in> relay_linked (ro_relay r)")
      (auto simp: route_inbound_relay upstream.routed_def)
  then show ?case
  proof cases
    case none
    then show ?thesis unfolding step spec using new by (intro exI[of _ new]) auto
  next
    case one
    then show ?thesis unfolding step spec using new by (intro exI[of _ "(k, req) # new"]) auto
  qed
qed (simp add: route_history_def forwarded_def)

subsection \<open>Properties\<close>

text \<open>
  C22: what leaves the system for the vendor clouds. Over any history of inbound requests the
  upstreams receive, in order and unchanged, some of the requests the policy forwards, each on its
  own charger's connection, and nothing else.
\<close>

theorem upstream_sees_only_forwarded:
  "\<exists>new. relay_sent (ro_relay (route_history msgs (NewRouter p rl))) = relay_sent rl @ new \<and>
     subseq new (forwarded p msgs) \<and> fst ` set new \<subseteq> relay_linked rl"
  using route_history_sent[of msgs "NewRouter p rl"] by (simp add: NewRouter_def)

end
