(* ===== verification/Events.thy ===== *)
theory Events
  imports Calculator
begin

section \<open>Events: the domain events and their emitter\<close>

text \<open>
  \<open>pkg/csms/event.go\<close>, \<open>emitter.go\<close>, \<open>charger_info.go\<close> and \<open>charging_state.go\<close>. A
  subscriber's buffered channel is the list of the events waiting in it, oldest first; its capacity
  is the emitter's \<open>bufSize\<close>. A receive takes the head. The specification of a subscriber is
  \<open>deliver\<close>: what a consumer that alternates with the emitter in some given way has received.
\<close>

subsection \<open>The events\<close>

datatype csms_event =
    ChargerConnected time charger_id string string string string
      \<comment> \<open>timestamp, charger, vendor, model, firmware version, serial number\<close>
  | ChargerDisconnected time charger_id
  | TransactionStarted time int charger_id string int float64
      \<comment> \<open>timestamp, transaction, charger, id tag, connector, meter start\<close>
  | TransactionStopped time int charger_id string float64
      \<comment> \<open>timestamp, transaction, charger, reason, meter stop\<close>
  | MeterValueEvent time int charger_id int float64
      \<comment> \<open>timestamp, transaction, charger, connector, energy\<close>
  | StatusChanged time charger_id int string string
      \<comment> \<open>timestamp, charger, connector, status, error code\<close>
  | ChargingProfileUpdated time charger_id int bool reason
      \<comment> \<open>timestamp, charger, limit, should stop, reason\<close>

record charger_info =
  ci_ID :: charger_id
  ci_Vendor :: string
  ci_Model :: string
  ci_Firmware :: string
  ci_SerialNumber :: string
  ci_Status :: string
  ci_ConnectorID :: int
  ci_TxID :: int
  ci_LimitAmps :: int
  ci_ChargingPower :: float64

record charging_state =
  cs_CurrentAmps :: int
  cs_GridPowerW :: rat
  cs_SolarPowerW :: rat
  cs_ConsumptionW :: rat
  cs_Enabled :: bool

subsection \<open>The emitter\<close>

record emitter =
  em_subscribers :: "csms_event list list"
  em_bufSize :: int

definition DefaultEventBufferSize :: int where "DefaultEventBufferSize = 512"

definition NewEmitter :: "int \<Rightarrow> emitter" where
  "NewEmitter bufSize =
     \<lparr>em_subscribers = [], em_bufSize = (if bufSize \<le> 0 then DefaultEventBufferSize else bufSize)\<rparr>"

definition BufferSize :: "emitter \<Rightarrow> int" where "BufferSize e = em_bufSize e"

text \<open>The result is the subscriber's index among the channels.\<close>

definition Subscribe :: "emitter \<Rightarrow> nat \<times> emitter" where
  "Subscribe e = (length (em_subscribers e), e\<lparr>em_subscribers := em_subscribers e @ [[]]\<rparr>)"

definition try_send :: "int \<Rightarrow> csms_event \<Rightarrow> csms_event list \<Rightarrow> csms_event list" where
  "try_send cap ev ch = (if int (length ch) < cap then ch @ [ev] else ch)"

definition Emit :: "csms_event \<Rightarrow> emitter \<Rightarrow> emitter" where
  "Emit ev e = e\<lparr>em_subscribers := map (try_send (em_bufSize e) ev) (em_subscribers e)\<rparr>"

text \<open>The consumer's side of a channel: a receive by subscriber \<open>i\<close>.\<close>

definition receive :: "nat \<Rightarrow> emitter \<Rightarrow> csms_event option \<times> emitter" where
  "receive i e =
     (if i < length (em_subscribers e) then
        (case em_subscribers e ! i of
           [] \<Rightarrow> (None, e)
         | ev # ch \<Rightarrow> (Some ev, e\<lparr>em_subscribers := (em_subscribers e)[i := ch]\<rparr>))
      else (None, e))"

subsection \<open>Runs of emits and receives\<close>

datatype emitter_op = OpEmit csms_event | OpReceive nat | OpSubscribe

fun run_emitter :: "emitter_op list \<Rightarrow> emitter \<Rightarrow> emitter" where
  "run_emitter [] e = e"
| "run_emitter (OpEmit ev # ops) e = run_emitter ops (Emit ev e)"
| "run_emitter (OpReceive i # ops) e = run_emitter ops (snd (receive i e))"
| "run_emitter (OpSubscribe # ops) e = run_emitter ops (snd (Subscribe e))"

text \<open>What subscriber \<open>i\<close> receives in a run.\<close>

fun received :: "nat \<Rightarrow> emitter_op list \<Rightarrow> emitter \<Rightarrow> csms_event list" where
  "received i [] e = []"
| "received i (OpEmit ev # ops) e = received i ops (Emit ev e)"
| "received i (OpReceive j # ops) e =
     (case receive j e of
        (Some ev, e') \<Rightarrow> (if i = j then ev # received i ops e' else received i ops e')
      | (None, e') \<Rightarrow> received i ops e')"
| "received i (OpSubscribe # ops) e = received i ops (snd (Subscribe e))"

fun emitted :: "emitter_op list \<Rightarrow> csms_event list" where
  "emitted [] = []"
| "emitted (OpEmit ev # ops) = ev # emitted ops"
| "emitted (op # ops) = emitted ops"

text \<open>The specification of one subscriber: it looks at no other subscriber. \<open>ch\<close> is what waits
  in its channel, and each element of the run is an emit or one of its own receives.\<close>

fun deliver :: "int \<Rightarrow> nat \<Rightarrow> csms_event list \<Rightarrow> emitter_op list \<Rightarrow> csms_event list" where
  "deliver cap i ch [] = []"
| "deliver cap i ch (OpEmit ev # ops) = deliver cap i (try_send cap ev ch) ops"
| "deliver cap i ch (OpReceive j # ops) =
     (if i = j then (case ch of [] \<Rightarrow> deliver cap i [] ops | ev # ch' \<Rightarrow> ev # deliver cap i ch' ops)
      else deliver cap i ch ops)"
| "deliver cap i ch (OpSubscribe # ops) = deliver cap i ch ops"

definition emitter_ok :: "emitter \<Rightarrow> bool" where
  "emitter_ok e \<longleftrightarrow> 0 < em_bufSize e \<and>
     (\<forall>ch \<in> set (em_subscribers e). int (length ch) \<le> em_bufSize e)"

lemma NewEmitter_ok [inv_pres]: "emitter_ok (NewEmitter n)"
  by (simp add: emitter_ok_def NewEmitter_def DefaultEventBufferSize_def)

lemma Emit_ok [inv_pres]: "emitter_ok e \<Longrightarrow> emitter_ok (Emit ev e)"
  by (auto simp: emitter_ok_def Emit_def try_send_def)

lemma Subscribe_ok [inv_pres]: "emitter_ok e \<Longrightarrow> emitter_ok (snd (Subscribe e))"
  by (auto simp: emitter_ok_def Subscribe_def)

lemma receive_ok [inv_pres]:
  assumes "emitter_ok e"
  shows "emitter_ok (snd (receive i e))"
proof (cases "i < length (em_subscribers e) \<and> em_subscribers e ! i \<noteq> []")
  case True
  then obtain ev ch where ch: "em_subscribers e ! i = ev # ch" by (meson neq_Nil_conv)
  then have "int (length (ev # ch)) \<le> em_bufSize e"
    using assms True by (metis emitter_ok_def nth_mem)
  with assms have "\<forall>x \<in> set ((em_subscribers e)[i := ch]). int (length x) \<le> em_bufSize e"
    by (intro all_set_update) (auto simp: emitter_ok_def)
  then show ?thesis using assms True ch by (simp add: emitter_ok_def receive_def)
next
  case False
  then show ?thesis using assms by (auto simp: receive_def)
qed

lemma run_emitter_ok: "emitter_ok e \<Longrightarrow> emitter_ok (run_emitter ops e)"
  by (induction ops e rule: run_emitter.induct) (auto intro: inv_pres)

lemma receive_Nil: "em_subscribers e ! j = [] \<Longrightarrow> receive j e = (None, e)"
  by (simp add: receive_def)

lemma receive_Cons:
  "j < length (em_subscribers e) \<Longrightarrow> em_subscribers e ! j = ev # ch \<Longrightarrow>
     receive j e = (Some ev, e\<lparr>em_subscribers := (em_subscribers e)[j := ch]\<rparr>)"
  by (simp add: receive_def)

lemma receive_out: "\<not> j < length (em_subscribers e) \<Longrightarrow> receive j e = (None, e)"
  by (simp add: receive_def)

lemma received_deliver:
  "i < length (em_subscribers e) \<Longrightarrow>
     received i ops e = deliver (em_bufSize e) i (em_subscribers e ! i) ops"
proof (induction ops arbitrary: e)
  case (Cons op ops)
  show ?case
  proof (cases op)
    case (OpEmit ev)
    then show ?thesis using Cons by (simp add: Emit_def)
  next
    case (OpReceive j)
    consider "\<not> j < length (em_subscribers e)"
      | "j < length (em_subscribers e)" "em_subscribers e ! j = []"
      | ev ch where "j < length (em_subscribers e)" "em_subscribers e ! j = ev # ch"
      by (meson neq_Nil_conv)
    then show ?thesis
      using Cons OpReceive by cases (auto simp: receive_Nil receive_Cons receive_out)
  next
    case OpSubscribe
    then show ?thesis using Cons by (simp add: Subscribe_def nth_append)
  qed
qed simp

lemma deliver_subseq: "subseq (deliver cap i ch ops) (ch @ emitted ops)"
proof (induction cap i ch ops rule: deliver.induct)
  case (2 cap i ch ev ops)
  have "subseq (ch @ emitted ops) (ch @ ev # emitted ops)"
    by (intro list_emb_append_mono) auto
  with 2 show ?case
    by (cases "int (length ch) < cap") (auto simp: try_send_def dest: subseq_order.order_trans)
next
  case (3 cap i ch j ops)
  then show ?case by (auto split: list.splits)
qed auto

text \<open>The run with no emit lost: the channel of the specification never is full at an emit.\<close>

fun roomy :: "int \<Rightarrow> nat \<Rightarrow> csms_event list \<Rightarrow> emitter_op list \<Rightarrow> bool" where
  "roomy cap i ch [] = True"
| "roomy cap i ch (OpEmit ev # ops) \<longleftrightarrow> int (length ch) < cap \<and> roomy cap i (ch @ [ev]) ops"
| "roomy cap i ch (OpReceive j # ops) \<longleftrightarrow> roomy cap i (if i = j then tl ch else ch) ops"
| "roomy cap i ch (OpSubscribe # ops) \<longleftrightarrow> roomy cap i ch ops"

lemma deliver_roomy: "roomy cap i ch ops \<Longrightarrow> prefix (deliver cap i ch ops) (ch @ emitted ops)"
proof (induction cap i ch ops rule: deliver.induct)
  case (3 cap i ch j ops)
  then show ?case by (auto split: list.splits)
qed (auto simp: try_send_def)

subsection \<open>Properties\<close>

text \<open>
  C29: a slow consumer is its own problem: what a subscriber receives depends on the events emitted
  and on its own receives only, in every run with any number of other subscribers.
\<close>

theorem subscriber_isolated:
  assumes "i < length (em_subscribers e)"
  shows "received i ops e = deliver (em_bufSize e) i (em_subscribers e ! i) ops"
  using assms by (rule received_deliver)

theorem subscriber_isolated_witness:
  "let e = snd (Subscribe (snd (Subscribe (NewEmitter 1))));
       ops = [OpEmit (ChargerDisconnected 0 ''a''), OpReceive 1, OpEmit (ChargerDisconnected 1 ''b''), OpReceive 1]
   in received 1 ops e = deliver (em_bufSize e) 1 (em_subscribers e ! 1) ops"
  unfolding Let_def by (rule subscriber_isolated) (simp add: Subscribe_def NewEmitter_def)

text \<open>
  Events are never reordered, duplicated or invented: what a subscriber receives is a
  subsequence of what waited for it and was then emitted; and while its channel has room at every
  emit, nothing is dropped in between.
\<close>

theorem events_in_order:
  assumes "i < length (em_subscribers e)"
  shows "subseq (received i ops e) (em_subscribers e ! i @ emitted ops) \<and>
    (roomy (em_bufSize e) i (em_subscribers e ! i) ops \<longrightarrow>
     prefix (received i ops e) (em_subscribers e ! i @ emitted ops))"
  using received_deliver[OF assms] deliver_subseq deliver_roomy by metis

theorem events_in_order_witness:
  "let e = snd (Subscribe (NewEmitter 2));
       ops = [OpEmit (ChargerDisconnected 0 ''a''), OpEmit (ChargerDisconnected 1 ''b''), OpReceive 0]
   in subseq (received 0 ops e) (em_subscribers e ! 0 @ emitted ops) \<and>
      prefix (received 0 ops e) (em_subscribers e ! 0 @ emitted ops)"
proof -
  let ?e = "snd (Subscribe (NewEmitter 2))"
  let ?ops = "[OpEmit (ChargerDisconnected 0 ''a''), OpEmit (ChargerDisconnected 1 ''b''), OpReceive 0]"
  have "0 < length (em_subscribers ?e)" by (simp add: Subscribe_def)
  moreover have "roomy (em_bufSize ?e) 0 (em_subscribers ?e ! 0) ?ops"
    by (simp add: Subscribe_def NewEmitter_def)
  ultimately show ?thesis using events_in_order[of 0 ?e ?ops] unfolding Let_def by blast
qed

text \<open>
  Emitting never blocks and never grows a channel past its capacity, whatever the consumers do.
\<close>

theorem channels_bounded:
  "list_all (\<lambda>ch. int (length ch) \<le> BufferSize (NewEmitter n))
     (em_subscribers (run_emitter ops (NewEmitter n)))"
proof -
  have "em_bufSize (run_emitter ops e) = em_bufSize e" for e
    by (induction ops e rule: run_emitter.induct)
      (auto simp: Emit_def Subscribe_def receive_def split: list.splits)
  then show ?thesis using run_emitter_ok[OF NewEmitter_ok, of ops n]
    by (simp add: emitter_ok_def BufferSize_def list_all_iff)
qed

end
