(* ===== verification/Effects.thy ===== *)
theory Effects
  imports Events
begin

section \<open>Effects: calls on the outbound ports\<close>

text \<open>
  What the handler, the controller and the command bridge do to the ports they are given: one
  constructor per method of \<open>ports.EventPublisher\<close> and \<open>ports.DiscoveryPublisher\<close>
  (\<open>internal/domain/ports/ports.go\<close>), of the event emitter, and of the \<open>LiveBroadcaster\<close>,
  \<open>MetricsRecorder\<close> and \<open>OcppMessageBroker\<close> of \<open>handler.go\<close>, and the global discovery the system
  itself publishes. A component's trace lists its calls,
  oldest first. Durations given to the metrics are left out.
\<close>

datatype effect =
    PublishChargerStatus charger_id connector_status
  | PublishChargerPower charger_id float64
  | PublishSessionEnergy charger_id float64
  | PublishChargingEnergy charger_id float64
  | PublishChargerOnline charger_id bool
  | PublishChargerCurrent charger_id int
  | PublishChargingState charger_id bool
  | PublishProxyState charger_id bool
  | PublishChargerMode charger_id string
  | PublishSmartChargingEnabled bool
  | PublishSolarThreshold charger_id int
  | PublishDiscovery charger int int bool
  | EmitEvent csms_event
  | BroadcastMeter charger_id float64 float64 float64
  | BroadcastStatus charger_id string
  | BrokerAdd charger_id string string "int option"
  | RecordInbound string
  | RecordSessionStart
  | RecordSessionStop
  | RecordChargerConnected
  | RecordChargerDisconnected
  | RecordChargePowerWatts charger_id float64
  | ClearOverride charger_id
  | PublishGlobalDiscovery

end
