(* ===== verification/Controller.thy ===== *)
theory Controller
  imports Commander Energy Effects
begin

section \<open>Controller: the smart-charging loop\<close>

text \<open>
  \<open>internal/adapter/outbound/ocpp/controller.go\<close>. One \<open>tick\<close> reads the clock once (\<open>now\<close>) and
  sees the energy source as it was at its start. The repositories belong to the handler and are
  arguments; the commander, the calculator and the energy source are held here. The two \<open>sync.Map\<close>s
  keyed by \<open>charger:connector\<close> are partial functions on that key, the set of overrides is the list of
  the ranging order, and 32-bit counters wrap with \<open>wrap32\<close>. \<open>ctl_trace\<close> lists the calls on the
  publisher and the emitter. Logging is left out, and with it \<open>warnSensorDrift\<close>.
\<close>

subsection \<open>State\<close>

record controller =
  ctl_commander :: commander
  ctl_calc :: calculator
  ctl_energySource :: energy
  ctl_hasPublisher :: bool
  ctl_hasEmitter :: bool
  ctl_staleTimeout :: duration
  ctl_safeAmps :: int
  ctl_lastSetAmps :: "string \<Rightarrow> int option"
  ctl_lastShouldStop :: "string \<Rightarrow> bool option"
  ctl_enabled :: bool
  ctl_manualOverride :: "charger_id list"
  ctl_solarThreshold :: int
  ctl_solarGateStopped :: "charger_id set"
  ctl_solarBelowTicks :: int
  ctl_solarAboveTicks :: int
  ctl_trace :: "effect list"

definition solarGateStopTicks :: int where "solarGateStopTicks = 3"
definition solarGateStartTicks :: int where "solarGateStartTicks = 2"

definition NewController ::
  "commander \<Rightarrow> energy \<Rightarrow> bool \<Rightarrow> calculator \<Rightarrow> int \<Rightarrow> duration \<Rightarrow> controller" where
  "NewController cmd energy pub calc safeAmps staleTimeout =
     \<lparr>ctl_commander = cmd, ctl_calc = calc, ctl_energySource = energy, ctl_hasPublisher = pub,
      ctl_hasEmitter = False, ctl_staleTimeout = staleTimeout, ctl_safeAmps = wrap32 safeAmps,
      ctl_lastSetAmps = (\<lambda>_. None), ctl_lastShouldStop = (\<lambda>_. None), ctl_enabled = True,
      ctl_manualOverride = [], ctl_solarThreshold = 0, ctl_solarGateStopped = {},
      ctl_solarBelowTicks = 0, ctl_solarAboveTicks = 0, ctl_trace = []\<rparr>"

definition note_ctl :: "effect \<Rightarrow> controller \<Rightarrow> controller" where
  "note_ctl eff c = c\<lparr>ctl_trace := ctl_trace c @ [eff]\<rparr>"

definition publish_ctl :: "effect \<Rightarrow> controller \<Rightarrow> controller" where
  "publish_ctl eff c = (if ctl_hasPublisher c then note_ctl eff c else c)"

definition emit_ctl :: "csms_event \<Rightarrow> controller \<Rightarrow> controller" where
  "emit_ctl ev c = (if ctl_hasEmitter c then note_ctl (EmitEvent ev) c else c)"

definition SetEnabled :: "bool \<Rightarrow> controller \<Rightarrow> controller" where
  "SetEnabled enabled c = c\<lparr>ctl_enabled := enabled\<rparr>"

definition IsEnabled :: "controller \<Rightarrow> bool" where "IsEnabled c = ctl_enabled c"

definition SetEmitter :: "controller \<Rightarrow> controller" where
  "SetEmitter c = c\<lparr>ctl_hasEmitter := True\<rparr>"

definition SetSafeAmps :: "int \<Rightarrow> controller \<Rightarrow> controller" where
  "SetSafeAmps amps c = c\<lparr>ctl_safeAmps := wrap32 amps\<rparr>"

definition State :: "time \<Rightarrow> controller \<Rightarrow> charging_state" where
  "State now c =
     (let e = ctl_energySource c;
          solarW = (if solar_available now (ctl_staleTimeout c) e then solar_power e else 0);
          consumptionW = (if consumption_available now (ctl_staleTimeout c) e then consumption_power e else 0)
      in \<lparr>cs_CurrentAmps = ctl_safeAmps c, cs_GridPowerW = grid_power e, cs_SolarPowerW = solarW,
          cs_ConsumptionW = consumptionW, cs_Enabled = ctl_enabled c\<rparr>)"

definition SetManualOverride :: "charger_id \<Rightarrow> controller \<Rightarrow> controller" where
  "SetManualOverride k c =
     publish_ctl (PublishChargerMode k ''manual'')
       (c\<lparr>ctl_manualOverride := List.insert k (ctl_manualOverride c)\<rparr>)"

definition ClearManualOverride :: "charger_id \<Rightarrow> controller \<Rightarrow> controller" where
  "ClearManualOverride k c =
     publish_ctl (PublishChargerMode k ''auto'')
       (c\<lparr>ctl_manualOverride := removeAll k (ctl_manualOverride c)\<rparr>)"

definition ClearAllManualOverrides :: "controller \<Rightarrow> controller" where
  "ClearAllManualOverrides c =
     (fold (\<lambda>k. publish_ctl (PublishChargerMode k ''auto'')) (ctl_manualOverride c) c)
       \<lparr>ctl_manualOverride := []\<rparr>"

definition IsManualOverride :: "charger_id \<Rightarrow> controller \<Rightarrow> bool" where
  "IsManualOverride k c \<longleftrightarrow> k \<in> set (ctl_manualOverride c)"

definition LastSetAmps :: "charger_id \<Rightarrow> int \<Rightarrow> controller \<Rightarrow> int" where
  "LastSetAmps k n c = (case ctl_lastSetAmps c (connector_key k n) of Some prev \<Rightarrow> prev | None \<Rightarrow> 0)"

definition SetSolarThreshold :: "int \<Rightarrow> controller \<Rightarrow> controller" where
  "SetSolarThreshold watts c = c\<lparr>ctl_solarThreshold := wrap32 watts\<rparr>"

definition GetSolarThreshold :: "controller \<Rightarrow> int" where
  "GetSolarThreshold c = ctl_solarThreshold c"

subsection \<open>The connectors\<close>

definition ctl_SetChargingProfile ::
  "env \<Rightarrow> session_repo \<Rightarrow> charger_id \<Rightarrow> int \<Rightarrow> int \<Rightarrow> controller \<Rightarrow> (command_error + unit) \<times> controller" where
  "ctl_SetChargingProfile env sr k n amps c =
     (let (r, cmd) = SetChargingProfile env (Some sr) k n amps (ctl_commander c)
      in (r, c\<lparr>ctl_commander := cmd\<rparr>))"

text \<open>The step the code takes with a limit in \<open>processConnector\<close> (twice) and \<open>revertAllToSafe\<close>.\<close>

definition apply_limit ::
  "env \<Rightarrow> session_repo \<Rightarrow> charger_id \<Rightarrow> int \<Rightarrow> int \<Rightarrow> controller \<Rightarrow> controller" where
  "apply_limit env sr k n amps c =
     (let key = connector_key k n in
      if (case ctl_lastSetAmps c key of Some prev \<Rightarrow> abs_int (amps - prev) < 1 | None \<Rightarrow> False) then c
      else (case ctl_SetChargingProfile env sr k n amps c of
              (Inl e, c) \<Rightarrow> c
            | (Inr _, c) \<Rightarrow>
                publish_ctl (PublishChargerCurrent k amps)
                  (c\<lparr>ctl_lastSetAmps := (ctl_lastSetAmps c)(key \<mapsto> amps)\<rparr>)))"

definition processConnector ::
  "env \<Rightarrow> session_repo \<Rightarrow> time \<Rightarrow> charger \<Rightarrow> meter_sample \<Rightarrow> connector \<Rightarrow> controller \<Rightarrow> controller" where
  "processConnector env sr now ch sample conn c =
     (let (calc, result) = Compute (ch_ID ch) sample (ctl_calc c);
          c = c\<lparr>ctl_calc := calc\<rparr>;
          key = connector_key (ch_ID ch) (cn_ConnectorID conn);
          c = (if ctl_lastShouldStop c key \<noteq> Some (pr_ShouldStop result)
               then emit_ctl (ChargingProfileUpdated now (ch_ID ch)
                      (if pr_ShouldStop result then ctl_safeAmps c else pr_LimitAmps result)
                      (pr_ShouldStop result) (pr_Reason result))
                    (c\<lparr>ctl_lastShouldStop := (ctl_lastShouldStop c)(key \<mapsto> pr_ShouldStop result)\<rparr>)
               else c)
      in if pr_ShouldStop result
         then apply_limit env sr (ch_ID ch) (cn_ConnectorID conn) (ctl_safeAmps c) c
         else apply_limit env sr (ch_ID ch) (cn_ConnectorID conn) (pr_LimitAmps result) c)"

definition controlled :: "connector \<Rightarrow> bool" where
  "controlled conn \<longleftrightarrow> \<not> (cn_Status conn \<noteq> ''Charging'' \<and> cn_Status conn \<noteq> ''SuspendedEVSE'')"

definition processCharger ::
  "env \<Rightarrow> charger_repo \<Rightarrow> session_repo \<Rightarrow> time \<Rightarrow> meter_sample \<Rightarrow> charger \<Rightarrow> controller \<Rightarrow> controller" where
  "processCharger env cr sr now sample ch c =
     (if IsManualOverride (ch_ID ch) c then c
      else case ListConnectors (ch_ID ch) cr of
             Inl e \<Rightarrow> c
           | Inr conns \<Rightarrow>
               fold (\<lambda>conn c. if \<not> controlled conn then c
                              else processConnector env sr now ch sample conn c) conns c)"

definition collectMeterSample :: "time \<Rightarrow> controller \<Rightarrow> meter_sample \<times> rat" where
  "collectMeterSample now c =
     (let e = ctl_energySource c;
          gridW = grid_power e;
          solarW = (if solar_available now (ctl_staleTimeout c) e then solar_power e else 0);
          consumptionW = (if consumption_available now (ctl_staleTimeout c) e then consumption_power e else 0);
          surplusW = solarW - consumptionW;
          surplusW = (if surplusW < 0 then 0 else surplusW)
      in (\<lparr>ms_GridPowerW = gridW, ms_SolarPowerW = solarW, ms_ConsumptionPowerW = consumptionW\<rparr>, surplusW))"

definition revertAllToSafe ::
  "env \<Rightarrow> charger_repo \<Rightarrow> session_repo \<Rightarrow> controller \<Rightarrow> controller" where
  "revertAllToSafe env cr sr c =
     (let safeAmps = ctl_safeAmps c in
      case ListChargers cr of
        Inl e \<Rightarrow> c
      | Inr chargers \<Rightarrow>
          fold (\<lambda>ch c. if \<not> ch_Online ch then c
            else case ListConnectors (ch_ID ch) cr of
                   Inl e \<Rightarrow> c
                 | Inr conns \<Rightarrow>
                     fold (\<lambda>conn c. if \<not> controlled conn then c
                       else apply_limit env sr (ch_ID ch) (cn_ConnectorID conn) safeAmps c) conns c)
            chargers c)"

subsection \<open>The solar gate\<close>

text \<open>Stopping one connector's transaction below the threshold, and starting one above it. The
  command's error is dropped, as in the code.\<close>

definition gate_stop_conn ::
  "env \<Rightarrow> session_repo \<Rightarrow> charger_id \<Rightarrow> connector \<Rightarrow> controller \<Rightarrow> controller" where
  "gate_stop_conn env sr k conn c =
     (if cn_ConnectorID conn = 0 then c
      else case GetActiveSession k (cn_ConnectorID conn) sr of
             Inl e \<Rightarrow> c
           | Inr None \<Rightarrow> c
           | Inr (Some active) \<Rightarrow>
               c\<lparr>ctl_commander := snd (RemoteStopTransaction env k (se_TransactionID active) (ctl_commander c))\<rparr>)"

definition gate_stop_charger ::
  "env \<Rightarrow> charger_repo \<Rightarrow> session_repo \<Rightarrow> charger \<Rightarrow> controller \<Rightarrow> controller" where
  "gate_stop_charger env cr sr ch c =
     (if \<not> ch_Online ch \<or> IsManualOverride (ch_ID ch) c then c
      else if ch_ID ch \<in> ctl_solarGateStopped c then c
      else let c = c\<lparr>ctl_solarGateStopped := insert (ch_ID ch) (ctl_solarGateStopped c)\<rparr> in
        case ListConnectors (ch_ID ch) cr of
          Inl e \<Rightarrow> c
        | Inr conns \<Rightarrow> fold (gate_stop_conn env sr (ch_ID ch)) conns c)"

definition gate_start_conn :: "env \<Rightarrow> charger_id \<Rightarrow> connector \<Rightarrow> controller \<Rightarrow> controller" where
  "gate_start_conn env k conn c =
     (if cn_ConnectorID conn = 0 then c
      else c\<lparr>ctl_commander := snd (RemoteStartTransaction env k (cn_ConnectorID conn) ''solar'' (ctl_commander c))\<rparr>)"

definition gate_start_charger ::
  "env \<Rightarrow> charger_repo \<Rightarrow> charger \<Rightarrow> controller \<Rightarrow> controller" where
  "gate_start_charger env cr ch c =
     (if \<not> ch_Online ch then c\<lparr>ctl_solarGateStopped := ctl_solarGateStopped c - {ch_ID ch}\<rparr>
      else if ch_ID ch \<notin> ctl_solarGateStopped c then c
      else let c = c\<lparr>ctl_solarGateStopped := ctl_solarGateStopped c - {ch_ID ch}\<rparr> in
        case ListConnectors (ch_ID ch) cr of
          Inl e \<Rightarrow> c
        | Inr conns \<Rightarrow> fold (gate_start_conn env (ch_ID ch)) conns c)"

definition gate_forget_offline :: "charger list \<Rightarrow> controller \<Rightarrow> controller" where
  "gate_forget_offline chargers c =
     fold (\<lambda>ch c. if \<not> ch_Online ch
             then c\<lparr>ctl_solarGateStopped := ctl_solarGateStopped c - {ch_ID ch}\<rparr> else c) chargers c"

text \<open>The result tells whether the rest of the tick is skipped.\<close>

definition runSolarGate ::
  "env \<Rightarrow> charger_repo \<Rightarrow> session_repo \<Rightarrow> time \<Rightarrow> charger list \<Rightarrow> controller \<Rightarrow> bool \<times> controller" where
  "runSolarGate env cr sr now chargers c =
     (let threshold = ctl_solarThreshold c in
      if threshold \<le> 0 then (False, c\<lparr>ctl_solarBelowTicks := 0, ctl_solarAboveTicks := 0\<rparr>)
      else if \<not> solar_available now (ctl_staleTimeout c) (ctl_energySource c) then (False, c)
      else let solarW = solar_power (ctl_energySource c); c = gate_forget_offline chargers c in
        if solarW < of_int threshold then
          let below = wrap32 (ctl_solarBelowTicks c + 1);
              c = c\<lparr>ctl_solarAboveTicks := 0, ctl_solarBelowTicks := below\<rparr>
          in if below < solarGateStopTicks then (True, c)
             else if below > solarGateStopTicks then (True, c)
             else (True, fold (gate_stop_charger env cr sr) chargers c)
        else
          let above = wrap32 (ctl_solarAboveTicks c + 1);
              c = c\<lparr>ctl_solarBelowTicks := 0, ctl_solarAboveTicks := above\<rparr>
          in if above < solarGateStartTicks then (True, c)
             else if above > solarGateStartTicks then (False, c)
             else (False, fold (gate_start_charger env cr) chargers c))"

subsection \<open>The tick\<close>

definition tick ::
  "env \<Rightarrow> charger_repo \<Rightarrow> session_repo \<Rightarrow> time \<Rightarrow> controller \<Rightarrow> controller" where
  "tick env cr sr now c =
     (if \<not> ctl_enabled c then c
      else if is_stale now (ctl_staleTimeout c) (ctl_energySource c) then revertAllToSafe env cr sr c
      else case ListChargers cr of
        Inl e \<Rightarrow> c
      | Inr chargers \<Rightarrow>
          (case runSolarGate env cr sr now chargers c of
             (True, c) \<Rightarrow> c
           | (False, c) \<Rightarrow>
               (let sample = fst (collectMeterSample now c)
                in fold (\<lambda>ch c. if \<not> ch_Online ch then c
                                else processCharger env cr sr now sample ch c) chargers c)))"

subsection \<open>What a tick leaves alone\<close>

text \<open>The fields that no step of the loop writes.\<close>

definition settings_of :: "controller \<Rightarrow> energy \<times> duration \<times> int \<times> bool \<times> charger_id list \<times> int \<times> int \<times> int" where
  "settings_of c = (ctl_energySource c, ctl_staleTimeout c, ctl_safeAmps c, ctl_enabled c,
     ctl_manualOverride c, ctl_solarThreshold c, ca_minAmps (ctl_calc c), ca_maxAmps (ctl_calc c))"

lemma note_settings [simp]:
  "settings_of (note_ctl eff c) = settings_of c"
  "settings_of (publish_ctl eff c) = settings_of c"
  "settings_of (emit_ctl ev c) = settings_of c"
  by (simp_all add: settings_of_def note_ctl_def publish_ctl_def emit_ctl_def)

lemma apply_limit_settings [simp]: "settings_of (apply_limit env sr k n a c) = settings_of c"
  by (auto simp: apply_limit_def Let_def ctl_SetChargingProfile_def settings_of_def publish_ctl_def
      note_ctl_def split: prod.split sum.split option.split)

lemma processConnector_settings [simp]:
  "settings_of (processConnector env sr now ch s conn c) = settings_of c"
proof -
  obtain calc result where 1: "Compute (ch_ID ch) s (ctl_calc c) = (calc, result)" by fastforce
  then have "ca_minAmps calc = ca_minAmps (ctl_calc c)" "ca_maxAmps calc = ca_maxAmps (ctl_calc c)"
    using Compute_frame[of "ch_ID ch" s "ctl_calc c"] by simp_all
  then have "settings_of (c\<lparr>ctl_calc := calc\<rparr>) = settings_of c"
    "settings_of (c\<lparr>ctl_calc := calc, ctl_lastShouldStop := x\<rparr>) = settings_of c" for x
    by (simp_all add: settings_of_def)
  then show ?thesis by (simp add: processConnector_def 1 Let_def)
qed

lemma processCharger_settings [simp]:
  "settings_of (processCharger env cr sr now s ch c) = settings_of c"
  by (auto simp: processCharger_def ListConnectors_def intro!: fold_frame)

lemma revertAllToSafe_settings [simp]: "settings_of (revertAllToSafe env cr sr c) = settings_of c"
  by (auto simp: revertAllToSafe_def Let_def ListChargers_def ListConnectors_def intro!: fold_frame)

lemma gate_settings [simp]:
  "settings_of (gate_stop_charger env cr sr ch c) = settings_of c"
  "settings_of (gate_start_charger env cr ch c) = settings_of c"
  "settings_of (gate_forget_offline chargers c) = settings_of c"
proof -
  have stop: "settings_of (gate_stop_conn env sr k conn d) = settings_of d" for k conn d
    by (auto simp: gate_stop_conn_def settings_of_def GetActiveSession_def split: option.split)
  have start: "settings_of (gate_start_conn env k conn d) = settings_of d" for k conn d
    by (simp add: gate_start_conn_def settings_of_def)
  have upd: "settings_of (c\<lparr>ctl_solarGateStopped := x\<rparr>) = settings_of c" for x c
    by (simp add: settings_of_def)
  show "settings_of (gate_stop_charger env cr sr ch c) = settings_of c"
    by (simp add: gate_stop_charger_def ListConnectors_def Let_def fold_frame stop upd)
  show "settings_of (gate_start_charger env cr ch c) = settings_of c"
    by (simp add: gate_start_charger_def ListConnectors_def Let_def fold_frame start upd)
  show "settings_of (gate_forget_offline chargers c) = settings_of c"
    unfolding gate_forget_offline_def by (rule fold_frame) (simp add: upd)
qed

lemma runSolarGate_settings [simp]:
  "settings_of (snd (runSolarGate env cr sr now chargers c)) = settings_of c"
proof -
  have upd: "settings_of (c\<lparr>ctl_solarAboveTicks := x, ctl_solarBelowTicks := y\<rparr>) = settings_of c"
    "settings_of (c\<lparr>ctl_solarBelowTicks := x, ctl_solarAboveTicks := y\<rparr>) = settings_of c" for x y c
    by (simp_all add: settings_of_def)
  show ?thesis by (simp add: runSolarGate_def Let_def upd fold_frame)
qed

lemma tick_settings [simp]: "settings_of (tick env cr sr now c) = settings_of c"
proof -
  have "settings_of (fold (\<lambda>ch c. if \<not> ch_Online ch then c
      else processCharger env cr sr now s ch c) chs d) = settings_of d" for s chs d
    by (rule fold_frame) simp
  then show ?thesis using runSolarGate_settings[of env cr sr now _ c]
    by (auto simp: tick_def ListChargers_def Let_def split: prod.split bool.split
        dest!: arg_cong[where f = snd])
qed

subsection \<open>Which commands a tick may give\<close>

text \<open>The specification: the commands a tick in state \<open>c\<close> may hand to the library, and why.\<close>

definition below_threshold :: "controller \<Rightarrow> bool" where
  "below_threshold c \<longleftrightarrow> solar_power (ctl_energySource c) < of_int (ctl_solarThreshold c)"

definition gate_active :: "time \<Rightarrow> controller \<Rightarrow> bool" where
  "gate_active now c \<longleftrightarrow> 0 < ctl_solarThreshold c \<and>
     solar_available now (ctl_staleTimeout c) (ctl_energySource c)"

definition stale :: "time \<Rightarrow> controller \<Rightarrow> bool" where
  "stale now c \<longleftrightarrow> is_stale now (ctl_staleTimeout c) (ctl_energySource c)"

definition online_charger :: "charger_repo \<Rightarrow> charger_id \<Rightarrow> bool" where
  "online_charger cr k \<longleftrightarrow> (\<exists>ch \<in> set (vals_of (cr_chargers cr)). ch_ID ch = k \<and> ch_Online ch)"

fun tick_may ::
  "charger_repo \<Rightarrow> session_repo \<Rightarrow> time \<Rightarrow> controller \<Rightarrow> ocpp_command \<Rightarrow> bool" where
  "tick_may cr sr now c (SetChargingProfileReq k n p) \<longleftrightarrow>
     online_charger cr k \<and> (\<exists>conn \<in> set (conns_of cr k). controlled conn \<and> cn_ConnectorID conn = n) \<and>
     (\<exists>a. cp_Periods p = [(0, a)] \<and>
        (if stale now c then a = ctl_safeAmps c
         else k \<notin> set (ctl_manualOverride c) \<and>
           (a = ctl_safeAmps c \<or> ca_minAmps (ctl_calc c) \<le> a \<and> a \<le> ca_maxAmps (ctl_calc c))))"
| "tick_may cr sr now c (RemoteStopReq k tx) \<longleftrightarrow>
     \<not> stale now c \<and> gate_active now c \<and> below_threshold c \<and>
     online_charger cr k \<and> k \<notin> set (ctl_manualOverride c) \<and>
     (\<exists>conn \<in> set (conns_of cr k). cn_ConnectorID conn \<noteq> 0 \<and>
        (\<exists>s. GetActiveSession k (cn_ConnectorID conn) sr = Inr (Some s) \<and> se_TransactionID s = tx))"
| "tick_may cr sr now c (RemoteStartReq k n tag) \<longleftrightarrow>
     \<not> stale now c \<and> gate_active now c \<and> \<not> below_threshold c \<and> tag = ''solar'' \<and>
     online_charger cr k \<and> n \<noteq> 0 \<and> (\<exists>conn \<in> set (conns_of cr k). cn_ConnectorID conn = n)"
| "tick_may cr sr now c (ClearChargingProfileReq k n) \<longleftrightarrow> False"

abbreviation gives :: "(ocpp_command \<Rightarrow> bool) \<Rightarrow> controller \<Rightarrow> controller \<Rightarrow> bool" where
  "gives P c c' \<equiv> cmdr.extends P (ctl_commander c) (ctl_commander c')"

lemma note_commander [simp]:
  "ctl_commander (note_ctl eff c) = ctl_commander c"
  "ctl_commander (publish_ctl eff c) = ctl_commander c"
  "ctl_commander (emit_ctl ev c) = ctl_commander c"
  "ctl_calc (note_ctl eff c) = ctl_calc c"
  "ctl_calc (publish_ctl eff c) = ctl_calc c"
  "ctl_calc (emit_ctl ev c) = ctl_calc c"
  by (simp_all add: note_ctl_def publish_ctl_def emit_ctl_def)

lemma ctl_SetChargingProfile_commander [simp]:
  "ctl_commander (snd (ctl_SetChargingProfile env sr k n a c)) =
     snd (SetChargingProfile env (Some sr) k n a (ctl_commander c))"
  by (simp add: ctl_SetChargingProfile_def split_beta)

lemma apply_limit_commander:
  "ctl_commander (apply_limit env sr k n a c) =
     (if (case ctl_lastSetAmps c (connector_key k n) of Some prev \<Rightarrow> abs_int (a - prev) < 1 | None \<Rightarrow> False)
      then ctl_commander c else snd (SetChargingProfile env (Some sr) k n a (ctl_commander c)))"
  by (auto simp: apply_limit_def Let_def ctl_SetChargingProfile_def split_beta split: sum.split prod.split)

lemma apply_limit_calc [simp]: "ctl_calc (apply_limit env sr k n a c) = ctl_calc c"
  by (auto simp: apply_limit_def Let_def ctl_SetChargingProfile_def split_beta split: sum.split)

lemma apply_limit_gives:
  "(\<And>p. cp_Periods p = [(0, a)] \<Longrightarrow> P (SetChargingProfileReq k n p)) \<Longrightarrow>
     gives P c (apply_limit env sr k n a c)"
  by (auto simp: apply_limit_commander intro: cmdr.set_profile_extends)

lemma processConnector_gives:
  assumes "calculator_ok (ctl_calc c)"
    and "\<And>a p. cp_Periods p = [(0, a)] \<Longrightarrow> a = ctl_safeAmps c \<or> ca_minAmps (ctl_calc c) \<le> a \<and> a \<le> ca_maxAmps (ctl_calc c)
           \<Longrightarrow> P (SetChargingProfileReq (ch_ID ch) (cn_ConnectorID conn) p)"
  shows "gives P c (processConnector env sr now ch s conn c) \<and>
         calculator_ok (ctl_calc (processConnector env sr now ch s conn c))"
proof -
  obtain calc result where 1: "Compute (ch_ID ch) s (ctl_calc c) = (calc, result)" by fastforce
  then have ok: "calculator_ok calc" using Compute_ok[OF assms(1)] by (metis fst_conv)
  have lim: "ca_minAmps (ctl_calc c) \<le> pr_LimitAmps result \<and> pr_LimitAmps result \<le> ca_maxAmps (ctl_calc c)"
    using Compute_limit[OF assms(1), of "ch_ID ch" s] 1 by simp
  have g: "gives P c (apply_limit env sr (ch_ID ch) (cn_ConnectorID conn) a d)"
    if "ctl_commander d = ctl_commander c"
      "a = ctl_safeAmps c \<or> ca_minAmps (ctl_calc c) \<le> a \<and> a \<le> ca_maxAmps (ctl_calc c)" for a d
    using apply_limit_gives[of a P "ch_ID ch" "cn_ConnectorID conn" d env sr] assms(2) that by simp
  have safe: "ctl_safeAmps (emit_ctl ev d) = ctl_safeAmps d" for ev d
    by (simp add: emit_ctl_def note_ctl_def)
  show ?thesis using ok lim by (auto simp: processConnector_def 1 Let_def safe intro!: g)
qed

lemma online_chargerI:
  "ch \<in> set (vals_of (cr_chargers cr)) \<Longrightarrow> ch_Online ch \<Longrightarrow> online_charger cr (ch_ID ch)"
  unfolding online_charger_def by blast

text \<open>The invariant of the loops of a tick that started in \<open>c\<close>.\<close>

definition in_tick :: "controller \<Rightarrow> controller \<Rightarrow> bool" where
  "in_tick c d \<longleftrightarrow> settings_of d = settings_of c \<and> calculator_ok (ctl_calc d)"

lemma in_tickD:
  assumes "in_tick c d"
  shows "ctl_safeAmps d = ctl_safeAmps c" "ctl_manualOverride d = ctl_manualOverride c"
    "ca_minAmps (ctl_calc d) = ca_minAmps (ctl_calc c)" "ca_maxAmps (ctl_calc d) = ca_maxAmps (ctl_calc c)"
    "ctl_energySource d = ctl_energySource c" "ctl_staleTimeout d = ctl_staleTimeout c"
    "ctl_solarThreshold d = ctl_solarThreshold c" "calculator_ok (ctl_calc d)"
  using assms by (simp_all add: in_tick_def settings_of_def)

lemma processCharger_gives:
  assumes "in_tick c d" "ch \<in> set (vals_of (cr_chargers cr))" "ch_Online ch" "\<not> stale now c"
  shows "in_tick c (processCharger env cr sr now s ch d) \<and>
         gives (tick_may cr sr now c) d (processCharger env cr sr now s ch d)"
proof (cases "IsManualOverride (ch_ID ch) d")
  case True
  then show ?thesis using assms by (simp add: processCharger_def)
next
  case False
  then have "ch_ID ch \<notin> set (ctl_manualOverride c)"
    using in_tickD(2)[OF assms(1)] by (simp add: IsManualOverride_def)
  moreover have "online_charger cr (ch_ID ch)" using assms by (auto simp: online_charger_def)
  ultimately have may: "tick_may cr sr now c (SetChargingProfileReq (ch_ID ch) (cn_ConnectorID conn) p)"
    if "conn \<in> set (conns_of cr (ch_ID ch))" "controlled conn" "cp_Periods p = [(0, a)]"
      "a = ctl_safeAmps e \<or> ca_minAmps (ctl_calc e) \<le> a \<and> a \<le> ca_maxAmps (ctl_calc e)" "in_tick c e"
    for conn a p e
    using that assms(4) in_tickD[OF that(5)] by auto
  let ?f = "\<lambda>conn c. if \<not> controlled conn then c else processConnector env sr now ch s conn c"
  have step: "in_tick c (?f conn e) \<and> gives (tick_may cr sr now c) e (?f conn e)"
    if "conn \<in> set (conns_of cr (ch_ID ch))" "in_tick c e" for conn e
  proof (cases "controlled conn")
    case True
    have "gives (tick_may cr sr now c) e (processConnector env sr now ch s conn e) \<and>
        calculator_ok (ctl_calc (processConnector env sr now ch s conn e))"
      by (rule processConnector_gives[OF in_tickD(8)[OF that(2)]]) (rule may[OF that(1) True _ _ that(2)])
    then show ?thesis using True that(2) by (simp add: in_tick_def)
  qed (use that in simp)
  have "in_tick c (fold ?f (conns_of cr (ch_ID ch)) d) \<and>
      gives (tick_may cr sr now c) d (fold ?f (conns_of cr (ch_ID ch)) d)"
    by (rule cmdr.extends_fold_inv[where h = ctl_commander and I = "in_tick c", OF assms(1) step])
  then show ?thesis using False by (simp add: processCharger_def ListConnectors_def)
qed

lemma revertAllToSafe_gives:
  assumes "in_tick c d" "stale now c"
  shows "gives (tick_may cr sr now c) d (revertAllToSafe env cr sr d)"
proof -
  have a: "gives (tick_may cr sr now c) e (apply_limit env sr k (cn_ConnectorID conn) (ctl_safeAmps d) e)"
    if "online_charger cr k" "conn \<in> set (conns_of cr k)" "controlled conn" for k conn e
    using that assms(2) in_tickD(1)[OF assms(1)] by (intro apply_limit_gives) auto
  have b: "gives (tick_may cr sr now c) e (fold (\<lambda>conn c. if \<not> controlled conn then c
      else apply_limit env sr k (cn_ConnectorID conn) (ctl_safeAmps d) c) (conns_of cr k) e)"
    if "online_charger cr k" for k e
    by (rule cmdr.extends_fold[where h = ctl_commander]) (use a[OF that] in simp)
  show ?thesis unfolding revertAllToSafe_def ListChargers_def ListConnectors_def Let_def sum.case
    by (rule cmdr.extends_fold[where h = ctl_commander]) (simp add: b online_chargerI del: set_map)
qed

lemma gate_stop_gives:
  assumes "in_tick c d" "\<not> stale now c" "gate_active now c" "below_threshold c"
    and "ch \<in> set (vals_of (cr_chargers cr))"
  shows "in_tick c (gate_stop_charger env cr sr ch d) \<and>
    gives (tick_may cr sr now c) d (gate_stop_charger env cr sr ch d)"
proof -
  have conn: "gives (tick_may cr sr now c) e (gate_stop_conn env sr (ch_ID ch) conn e)"
    if "ch_Online ch" "ch_ID ch \<notin> set (ctl_manualOverride c)" "conn \<in> set (conns_of cr (ch_ID ch))"
    for conn e
  proof (cases "cn_ConnectorID conn = 0")
    case False
    have "tick_may cr sr now c (RemoteStopReq (ch_ID ch) (se_TransactionID s))"
      if "GetActiveSession (ch_ID ch) (cn_ConnectorID conn) sr = Inr (Some s)" for s
      unfolding tick_may.simps
      using that \<open>conn \<in> _\<close> \<open>ch_Online ch\<close> \<open>ch_ID ch \<notin> _\<close> False assms(2-5) online_chargerI by blast
    then show ?thesis
      by (auto simp: gate_stop_conn_def intro: cmdr.stop_extends split: sum.split option.split)
  qed (simp add: gate_stop_conn_def)
  have "gives (tick_may cr sr now c) d (gate_stop_charger env cr sr ch d)"
  proof (cases "ch_Online ch \<and> ch_ID ch \<notin> set (ctl_manualOverride c)")
    case True
    let ?d = "d\<lparr>ctl_solarGateStopped := insert (ch_ID ch) (ctl_solarGateStopped d)\<rparr>"
    have "gives (tick_may cr sr now c) ?d
        (fold (gate_stop_conn env sr (ch_ID ch)) (conns_of cr (ch_ID ch)) ?d)"
      by (rule cmdr.extends_fold[where h = ctl_commander]) (use conn True in blast)
    then show ?thesis by (simp add: gate_stop_charger_def ListConnectors_def Let_def)
  next
    case False
    then show ?thesis using in_tickD(2)[OF assms(1)]
      by (auto simp: gate_stop_charger_def IsManualOverride_def)
  qed
  moreover have "ctl_calc (gate_stop_conn env sr k conn e) = ctl_calc e" for k conn e
    by (simp add: gate_stop_conn_def GetActiveSession_def split: option.split)
  then have "ctl_calc (gate_stop_charger env cr sr ch d) = ctl_calc d"
    by (simp add: gate_stop_charger_def ListConnectors_def Let_def fold_frame)
  ultimately show ?thesis using assms(1) by (simp add: in_tick_def)
qed

lemma gate_start_gives:
  assumes "in_tick c d" "\<not> stale now c" "gate_active now c" "\<not> below_threshold c"
    and "ch \<in> set (vals_of (cr_chargers cr))"
  shows "in_tick c (gate_start_charger env cr ch d) \<and>
    gives (tick_may cr sr now c) d (gate_start_charger env cr ch d)"
proof -
  have conn: "gives (tick_may cr sr now c) e (gate_start_conn env (ch_ID ch) conn e)"
    if "ch_Online ch" "conn \<in> set (conns_of cr (ch_ID ch))" for conn e
  proof (cases "cn_ConnectorID conn = 0")
    case False
    have "tick_may cr sr now c (RemoteStartReq (ch_ID ch) (cn_ConnectorID conn) ''solar'')"
      unfolding tick_may.simps using that False assms(2-5) online_chargerI by blast
    then show ?thesis by (simp add: gate_start_conn_def False cmdr.start_extends)
  qed (simp add: gate_start_conn_def)
  have "gives (tick_may cr sr now c) d (gate_start_charger env cr ch d)"
  proof (cases "ch_Online ch")
    case True
    let ?d = "d\<lparr>ctl_solarGateStopped := ctl_solarGateStopped d - {ch_ID ch}\<rparr>"
    have "gives (tick_may cr sr now c) ?d
        (fold (gate_start_conn env (ch_ID ch)) (conns_of cr (ch_ID ch)) ?d)"
      by (rule cmdr.extends_fold[where h = ctl_commander]) (use conn True in blast)
    then show ?thesis by (simp add: gate_start_charger_def ListConnectors_def Let_def)
  qed (simp add: gate_start_charger_def)
  moreover have "ctl_calc (gate_start_conn env k conn e) = ctl_calc e" for k conn e
    by (simp add: gate_start_conn_def)
  then have "ctl_calc (gate_start_charger env cr ch d) = ctl_calc d"
    by (simp add: gate_start_charger_def ListConnectors_def Let_def fold_frame)
  ultimately show ?thesis using assms(1) by (simp add: in_tick_def)
qed

lemma runSolarGate_gives:
  assumes "in_tick c c" "\<not> stale now c"
  shows "in_tick c (snd (runSolarGate env cr sr now (vals_of (cr_chargers cr)) c)) \<and>
    gives (tick_may cr sr now c) c (snd (runSolarGate env cr sr now (vals_of (cr_chargers cr)) c))"
proof (cases "gate_active now c")
  case False
  then show ?thesis using assms
    by (auto simp: runSolarGate_def gate_active_def Let_def in_tick_def settings_of_def)
next
  case True
  let ?chs = "vals_of (cr_chargers cr)"
  define d where "d = gate_forget_offline ?chs c"
  have dcmd: "ctl_commander d = ctl_commander c" "ctl_calc d = ctl_calc c"
    unfolding d_def gate_forget_offline_def by (rule fold_frame, simp)+
  then have d: "in_tick c d" using assms(1) gate_settings(3)[of ?chs c] by (simp add: in_tick_def d_def)
  have below: "in_tick c (d\<lparr>ctl_solarAboveTicks := x, ctl_solarBelowTicks := y\<rparr>)"
    and above: "in_tick c (d\<lparr>ctl_solarBelowTicks := x, ctl_solarAboveTicks := y\<rparr>)" for x y
    using d by (simp_all add: in_tick_def settings_of_def)
  have stop: "in_tick c (fold (gate_stop_charger env cr sr) ?chs e) \<and>
      gives (tick_may cr sr now c) e (fold (gate_stop_charger env cr sr) ?chs e)"
    if "in_tick c e" "below_threshold c" for e
    by (rule cmdr.extends_fold_inv[where h = ctl_commander and I = "in_tick c", OF that(1)])
      (rule gate_stop_gives[OF _ assms(2) True that(2)])
  have start: "in_tick c (fold (gate_start_charger env cr) ?chs e) \<and>
      gives (tick_may cr sr now c) e (fold (gate_start_charger env cr) ?chs e)"
    if "in_tick c e" "\<not> below_threshold c" for e
    by (rule cmdr.extends_fold_inv[where h = ctl_commander and I = "in_tick c", OF that(1)])
      (rule gate_start_gives[OF _ assms(2) True that(2)])
  note gate = True[unfolded gate_active_def]
  show ?thesis
  proof (cases "below_threshold c")
    case True
    then have lt: "solar_power (ctl_energySource c) < of_int (ctl_solarThreshold c)"
      by (simp add: below_threshold_def)
    have "gives (tick_may cr sr now c) c
        (fold (gate_stop_charger env cr sr) ?chs (d\<lparr>ctl_solarAboveTicks := x, ctl_solarBelowTicks := y\<rparr>))"
      for x y using stop[OF below True] dcmd by simp
    then show ?thesis using stop[OF below True] below gate lt dcmd
      by (simp add: runSolarGate_def Let_def d_def[symmetric])
  next
    case False
    then have lt: "\<not> solar_power (ctl_energySource c) < of_int (ctl_solarThreshold c)"
      by (simp add: below_threshold_def)
    have "gives (tick_may cr sr now c) c
        (fold (gate_start_charger env cr) ?chs (d\<lparr>ctl_solarBelowTicks := x, ctl_solarAboveTicks := y\<rparr>))"
      for x y using start[OF above False] dcmd by simp
    then show ?thesis using start[OF above False] above gate lt dcmd
      by (simp add: runSolarGate_def Let_def d_def[symmetric])
  qed
qed

lemma tick_gives:
  assumes "calculator_ok (ctl_calc c)"
  shows "in_tick c (tick env cr sr now c) \<and> gives (tick_may cr sr now c) c (tick env cr sr now c)"
proof -
  have c: "in_tick c c" using assms by (simp add: in_tick_def)
  consider (off) "\<not> ctl_enabled c" | (stale) "ctl_enabled c" "stale now c"
    | (run) "ctl_enabled c" "\<not> stale now c" by blast
  then show ?thesis
  proof cases
    case off
    then show ?thesis using c by (simp add: tick_def)
  next
    case stale
    have calc: "ctl_calc (revertAllToSafe env cr sr c) = ctl_calc c"
      unfolding revertAllToSafe_def ListChargers_def ListConnectors_def Let_def sum.case
      by (rule fold_frame) (auto intro!: fold_frame)
    from stale revertAllToSafe_gives[OF c stale(2)] calc assms show ?thesis
      by (simp add: tick_def stale_def in_tick_def)
  next
    case run
    let ?chs = "vals_of (cr_chargers cr)"
    obtain skip d where gate: "runSolarGate env cr sr now ?chs c = (skip, d)" by fastforce
    have d: "in_tick c d" "gives (tick_may cr sr now c) c d"
      using runSolarGate_gives[OF c run(2), of env cr sr] gate by simp_all
    let ?s = "fst (collectMeterSample now d)"
    let ?f = "\<lambda>ch c. if \<not> ch_Online ch then c else processCharger env cr sr now ?s ch c"
    have "in_tick c (fold ?f ?chs d) \<and> gives (tick_may cr sr now c) d (fold ?f ?chs d)"
    proof (rule cmdr.extends_fold_inv[where h = ctl_commander and I = "in_tick c", OF d(1)])
      fix ch e assume "ch \<in> set ?chs" "in_tick c e"
      then show "in_tick c (?f ch e) \<and> gives (tick_may cr sr now c) e (?f ch e)"
        using processCharger_gives[of c e ch cr now env sr ?s] run(2) by (cases "ch_Online ch") simp_all
    qed
    then show ?thesis using d run gate
      by (auto simp: tick_def stale_def ListChargers_def Let_def split: bool.split intro: cmdr.extends_trans)
  qed
qed

text \<open>A run of ticks, each with its network, its repositories and its clock; the energy source
  polls in between.\<close>

type_synonym tick_input = "env \<times> charger_repo \<times> session_repo \<times> time \<times> energy"

definition run_ticks :: "tick_input list \<Rightarrow> controller \<Rightarrow> controller" where
  "run_ticks inputs c =
     fold (\<lambda>(env, cr, sr, now, e) c. tick env cr sr now (c\<lparr>ctl_energySource := e\<rparr>)) inputs c"

fun profile_amps :: "ocpp_command \<Rightarrow> int list" where
  "profile_amps (SetChargingProfileReq k n p) = map snd (cp_Periods p)"
| "profile_amps cmd = []"

lemma tick_may_amps:
  "tick_may cr sr now c cmd \<Longrightarrow> a \<in> set (profile_amps cmd) \<Longrightarrow>
     a = ctl_safeAmps c \<or> ca_minAmps (ctl_calc c) \<le> a \<and> a \<le> ca_maxAmps (ctl_calc c)"
  by (cases cmd) (auto split: if_splits)

lemma run_ticks_amps:
  assumes "calculator_ok (ctl_calc c)" "ca_minAmps (ctl_calc c) = lo" "ca_maxAmps (ctl_calc c) = hi"
    "ctl_safeAmps c = safe"
  shows "gives (\<lambda>cmd. \<forall>a \<in> set (profile_amps cmd). a = safe \<or> lo \<le> a \<and> a \<le> hi) c (run_ticks inputs c)"
  using assms
proof (induction inputs arbitrary: c)
  case (Cons i inputs)
  obtain env cr sr now e where i: "i = (env, cr, sr, now, e)" by (cases i)
  let ?c = "c\<lparr>ctl_energySource := e\<rparr>"
  let ?d = "tick env cr sr now ?c"
  have t: "in_tick ?c ?d" "gives (tick_may cr sr now ?c) c ?d"
    using tick_gives[of ?c env cr sr now] Cons.prems(1) by simp_all
  have "gives (\<lambda>cmd. \<forall>a \<in> set (profile_amps cmd). a = safe \<or> lo \<le> a \<and> a \<le> hi) c ?d"
    by (rule cmdr.extends_mono[OF t(2)]) (use tick_may_amps Cons.prems in fastforce)
  moreover have "gives (\<lambda>cmd. \<forall>a \<in> set (profile_amps cmd). a = safe \<or> lo \<le> a \<and> a \<le> hi) ?d (run_ticks inputs ?d)"
    using in_tickD[OF t(1)] Cons.prems by (intro Cons.IH) simp_all
  ultimately show ?case by (auto simp: run_ticks_def i intro: cmdr.extends_trans)
qed (simp add: run_ticks_def)

subsection \<open>The gate's counters\<close>

text \<open>What a tick tells the gate: nothing when the gate does not look, else whether the production is
  below the threshold.\<close>

definition gate_obs :: "controller \<Rightarrow> tick_input \<Rightarrow> bool list" where
  "gate_obs c = (\<lambda>(env, cr, sr, now, e).
     if ctl_enabled c \<and> \<not> is_stale now (ctl_staleTimeout c) e \<and> solar_available now (ctl_staleTimeout c) e
     then [solar_power e < of_int (ctl_solarThreshold c)] else [])"

definition counters :: "controller \<Rightarrow> int \<times> int" where
  "counters c = (ctl_solarBelowTicks c, ctl_solarAboveTicks c)"

lemma counters_note [simp]:
  "counters (note_ctl eff c) = counters c"
  "counters (publish_ctl eff c) = counters c"
  "counters (emit_ctl ev c) = counters c"
  by (simp_all add: counters_def note_ctl_def publish_ctl_def emit_ctl_def)

lemma counters_upd [simp]:
  "counters (c\<lparr>ctl_commander := x1\<rparr>) = counters c" "counters (c\<lparr>ctl_calc := x2\<rparr>) = counters c"
  "counters (c\<lparr>ctl_lastSetAmps := x3\<rparr>) = counters c" "counters (c\<lparr>ctl_lastShouldStop := x4\<rparr>) = counters c"
  "counters (c\<lparr>ctl_solarGateStopped := x5\<rparr>) = counters c" "counters (c\<lparr>ctl_energySource := x6\<rparr>) = counters c"
  by (simp_all add: counters_def)

lemma apply_limit_counters [simp]: "counters (apply_limit env sr k n a c) = counters c"
  by (simp add: apply_limit_def Let_def ctl_SetChargingProfile_def split_beta split: sum.split prod.split)

lemma processCharger_counters [simp]: "counters (processCharger env cr sr now s ch c) = counters c"
proof -
  have "counters (processConnector env sr now ch s conn d) = counters d" for conn d
    by (simp add: processConnector_def Let_def split_beta)
  then show ?thesis by (simp add: processCharger_def ListConnectors_def fold_frame)
qed

lemma gate_chargers_counters [simp]:
  "counters (fold (gate_stop_charger env cr sr) chs c) = counters c"
  "counters (fold (gate_start_charger env cr) chs c) = counters c"
proof -
  have "counters (gate_stop_conn env sr k conn d) = counters d" for k conn d
    by (simp add: gate_stop_conn_def GetActiveSession_def split: option.split)
  then have "counters (gate_stop_charger env cr sr ch d) = counters d" for ch d
    by (simp add: gate_stop_charger_def ListConnectors_def Let_def fold_frame)
  then show "counters (fold (gate_stop_charger env cr sr) chs c) = counters c" by (simp add: fold_frame)
  have "counters (gate_start_conn env k conn d) = counters d" for k conn d
    by (simp add: gate_start_conn_def)
  then have "counters (gate_start_charger env cr ch d) = counters d" for ch d
    by (simp add: gate_start_charger_def ListConnectors_def Let_def fold_frame)
  then show "counters (fold (gate_start_charger env cr) chs c) = counters c" by (simp add: fold_frame)
qed

text \<open>The counters after one tick, given what it observed.\<close>

fun count :: "bool list \<Rightarrow> int \<times> int \<Rightarrow> int \<times> int" where
  "count [] st = st"
| "count (True # obs) (b, a) = count obs (wrap32 (b + 1), 0)"
| "count (False # obs) (b, a) = count obs (0, wrap32 (a + 1))"

lemma gate_counters:
  assumes "0 < ctl_solarThreshold c" "solar_available now (ctl_staleTimeout c) (ctl_energySource c)"
  shows "counters (snd (runSolarGate env cr sr now chs c)) = count [below_threshold c] (counters c)"
proof -
  have "counters (gate_forget_offline chs c) = counters c"
    unfolding gate_forget_offline_def by (rule fold_frame) simp
  then show ?thesis using assms
    by (auto simp: runSolarGate_def Let_def below_threshold_def counters_def[of "_\<lparr>ctl_solarAboveTicks := _\<rparr>"]
        counters_def[of "_\<lparr>ctl_solarBelowTicks := _\<rparr>"] counters_def[of "gate_forget_offline chs c"]
        counters_def[of c])
qed

lemma tick_counters:
  assumes "0 < ctl_solarThreshold c"
  shows "counters (tick env cr sr now (c\<lparr>ctl_energySource := e\<rparr>)) =
     count (gate_obs c (env, cr, sr, now, e)) (counters c)"
proof -
  let ?c = "c\<lparr>ctl_energySource := e\<rparr>" and ?chs = "vals_of (cr_chargers cr)"
  have revert: "counters (revertAllToSafe env cr sr d) = counters d" for d
    unfolding revertAllToSafe_def ListChargers_def ListConnectors_def Let_def sum.case
    by (rule fold_frame) (auto intro!: fold_frame)
  have run: "counters (fold (\<lambda>ch c. if \<not> ch_Online ch then c
      else processCharger env cr sr now s ch c) chs d) = counters d" for s chs d
    by (rule fold_frame) simp
  have gate: "counters (snd (runSolarGate env cr sr now ?chs ?c)) =
      (if solar_available now (ctl_staleTimeout c) e
       then count [solar_power e < of_int (ctl_solarThreshold c)] (counters c) else counters c)"
    using gate_counters[of ?c now env cr sr ?chs] assms
    by (auto simp: below_threshold_def runSolarGate_def)
  obtain skip d where "runSolarGate env cr sr now ?chs ?c = (skip, d)" by fastforce
  with gate show ?thesis
    by (auto simp: tick_def revert run ListChargers_def Let_def gate_obs_def split: bool.split)
qed

lemma gate_obs_settings: "settings_of d = settings_of c \<Longrightarrow> gate_obs d = gate_obs c"
  by (auto simp: gate_obs_def settings_of_def fun_eq_iff)

text \<open>The settings but for the energy source, which polls between ticks.\<close>

lemma tick_obs: "gate_obs (tick env cr sr now (c\<lparr>ctl_energySource := e\<rparr>)) = gate_obs c"
proof -
  have "gate_obs (tick env cr sr now (c\<lparr>ctl_energySource := e\<rparr>)) = gate_obs (c\<lparr>ctl_energySource := e\<rparr>)"
    by (rule gate_obs_settings) simp
  also have "\<dots> = gate_obs c" by (auto simp: gate_obs_def fun_eq_iff)
  finally show ?thesis .
qed

lemma tick_fields:
  "ctl_solarThreshold (tick env cr sr now c) = ctl_solarThreshold c"
  "ctl_safeAmps (tick env cr sr now c) = ctl_safeAmps c"
  "ctl_enabled (tick env cr sr now c) = ctl_enabled c"
  "ctl_staleTimeout (tick env cr sr now c) = ctl_staleTimeout c"
  "ctl_manualOverride (tick env cr sr now c) = ctl_manualOverride c"
  using tick_settings[of env cr sr now c] by (simp_all add: settings_of_def)

lemma run_ticks_snoc:
  "run_ticks (is @ [(env, cr, sr, now, e)]) c = tick env cr sr now ((run_ticks is c)\<lparr>ctl_energySource := e\<rparr>)"
  by (simp add: run_ticks_def)

lemma run_ticks_frame:
  "gate_obs (run_ticks is c) = gate_obs c \<and> ctl_solarThreshold (run_ticks is c) = ctl_solarThreshold c"
  by (induction "is" rule: rev_induct)
    (auto simp: run_ticks_snoc tick_obs tick_fields, simp_all add: run_ticks_def)

definition observed :: "controller \<Rightarrow> tick_input list \<Rightarrow> bool list" where
  "observed c is = concat (map (gate_obs c) is)"

lemma observed_snoc: "observed c (is @ [i]) = observed c is @ gate_obs c i"
  by (simp add: observed_def)

lemma gate_obs_short: "gate_obs c i = [] \<or> (\<exists>b. gate_obs c i = [b])"
  by (cases i) (simp add: gate_obs_def)

lemma trailing_le: "trailing b bs \<le> length bs"
  unfolding trailing_def by (metis length_rev length_takeWhile_le)

lemma count_trailing:
  assumes "length bs < 2147483647"
  shows "count [b] (int (trailing True bs), int (trailing False bs)) =
     (int (trailing True (bs @ [b])), int (trailing False (bs @ [b])))"
proof -
  have "int (trailing x bs) + 1 < 2147483648" for x using trailing_le[of x bs] assms by linarith
  then have "wrap32 (int (trailing x bs) + 1) = int (trailing x bs) + 1" for x
    by (intro wrap32_id) auto
  then show ?thesis by (cases b) simp_all
qed

lemma run_ticks_counters:
  assumes "0 < ctl_solarThreshold c" "counters c = (0, 0)" "length (observed c is) < 2147483647"
  shows "counters (run_ticks is c) =
     (int (trailing True (observed c is)), int (trailing False (observed c is)))"
  using assms(3)
proof (induction "is" rule: rev_induct)
  case Nil
  then show ?case using assms(2) by (simp add: run_ticks_def observed_def)
next
  case (snoc i "is")
  obtain env cr sr now e where i: "i = (env, cr, sr, now, e)" by (cases i)
  have short: "length (observed c is) < 2147483647" using snoc.prems by (simp add: observed_snoc)
  have "counters (run_ticks (is @ [i]) c) = count (gate_obs c i) (counters (run_ticks is c))"
    using tick_counters[of "run_ticks is c" env cr sr now e] run_ticks_frame[of "is" c] assms(1)
    by (simp add: i run_ticks_snoc)
  also have "\<dots> = count (gate_obs c i)
      (int (trailing True (observed c is)), int (trailing False (observed c is)))"
    by (simp only: snoc.IH[OF short])
  finally show ?case
    using gate_obs_short[of c i] count_trailing[OF short] by (auto simp: observed_snoc)
qed

text \<open>When the counters allow a start or a stop.\<close>

fun gate_ok :: "bool list \<Rightarrow> int \<times> int \<Rightarrow> ocpp_command \<Rightarrow> bool" where
  "gate_ok obs (b, a) (RemoteStopReq k tx) \<longleftrightarrow> obs = [True] \<and> wrap32 (b + 1) = solarGateStopTicks"
| "gate_ok obs (b, a) (RemoteStartReq k n tag) \<longleftrightarrow> obs = [False] \<and> wrap32 (a + 1) = solarGateStartTicks"
| "gate_ok obs (b, a) cmd \<longleftrightarrow> True"

lemma gate_ok_profile [simp]: "gate_ok obs ba (SetChargingProfileReq k n p)"
  by (cases ba) simp

lemma loops_give_profiles:
  assumes "\<And>k n p. P (SetChargingProfileReq k n p)"
  shows "gives P c (revertAllToSafe env cr sr c)"
    and "gives P c (fold (\<lambda>ch c. if \<not> ch_Online ch then c else processCharger env cr sr now s ch c) chs c)"
proof -
  have a: "gives P d (apply_limit env sr k n a d)" for k n a d
    by (rule apply_limit_gives) (rule assms)
  show "gives P c (revertAllToSafe env cr sr c)"
    unfolding revertAllToSafe_def ListChargers_def ListConnectors_def Let_def sum.case
    by (rule cmdr.extends_fold[where h = ctl_commander])
      (auto intro!: cmdr.extends_fold[where h = ctl_commander] a)
  have b: "gives P d (apply_limit env sr k n a e)" if "ctl_commander d = ctl_commander e" for k n a d e
    using a[of e k n a] that by simp
  have "gives P d (processConnector env sr now ch s conn d)" for ch conn d
    by (auto simp: processConnector_def Let_def split_beta intro!: b)
  then have "gives P d (processCharger env cr sr now s ch d)" for ch d
    by (auto simp: processCharger_def ListConnectors_def intro!: cmdr.extends_fold[where h = ctl_commander])
  then show "gives P c (fold (\<lambda>ch c. if \<not> ch_Online ch then c else processCharger env cr sr now s ch c) chs c)"
    by (auto intro!: cmdr.extends_fold[where h = ctl_commander])
qed

lemma gate_loops_give:
  assumes "\<And>k tx. P (RemoteStopReq k tx)"
  shows "gives P c (fold (gate_stop_charger env cr sr) chs c)"
proof -
  have conn: "gives P d (gate_stop_conn env sr k conn d)" for k conn d
    by (auto simp: gate_stop_conn_def GetActiveSession_def split: option.split
        intro!: cmdr.stop_extends assms)
  have "gives P d (fold (gate_stop_conn env sr k) conns d)" for k conns d
    by (rule cmdr.extends_fold[where h = ctl_commander]) (rule conn)
  from this[of "d\<lparr>ctl_solarGateStopped := x\<rparr>" for d x] have "gives P d (gate_stop_charger env cr sr ch d)" for ch d
    by (auto simp: gate_stop_charger_def ListConnectors_def Let_def)
  then show ?thesis by (auto intro!: cmdr.extends_fold[where h = ctl_commander])
qed

lemma gate_loops_give_start:
  assumes "\<And>k n tag. P (RemoteStartReq k n tag)"
  shows "gives P c (fold (gate_start_charger env cr) chs c)"
proof -
  have conn: "gives P d (gate_start_conn env k conn d)" for k conn d
    by (auto simp: gate_start_conn_def intro!: cmdr.start_extends assms)
  have "gives P d (fold (gate_start_conn env k) conns d)" for k conns d
    by (rule cmdr.extends_fold[where h = ctl_commander]) (rule conn)
  from this[of "d\<lparr>ctl_solarGateStopped := x\<rparr>" for d x] have "gives P d (gate_start_charger env cr ch d)" for ch d
    by (auto simp: gate_start_charger_def ListConnectors_def Let_def)
  then show ?thesis by (auto intro!: cmdr.extends_fold[where h = ctl_commander])
qed

lemma runSolarGate_gate_ok:
  assumes "0 < ctl_solarThreshold c"
  shows "gives (gate_ok (if solar_available now (ctl_staleTimeout c) (ctl_energySource c)
           then [below_threshold c] else []) (counters c)) c (snd (runSolarGate env cr sr now chs c))"
proof (cases "solar_available now (ctl_staleTimeout c) (ctl_energySource c)")
  case False
  then show ?thesis using assms by (simp add: runSolarGate_def)
next
  case True
  define d where "d = gate_forget_offline chs c"
  have d: "ctl_commander d = ctl_commander c" "counters d = counters c"
    unfolding d_def gate_forget_offline_def by (rule fold_frame, simp)+
  have stop: "gives (gate_ok [True] (counters c)) c (fold (gate_stop_charger env cr sr) chs e)"
    if "ctl_commander e = ctl_commander c" "wrap32 (ctl_solarBelowTicks c + 1) = solarGateStopTicks" for e
    using gate_loops_give[of "gate_ok [True] (counters c)" e env cr sr chs] that by (simp add: counters_def)
  have start: "gives (gate_ok [False] (counters c)) c (fold (gate_start_charger env cr) chs e)"
    if "ctl_commander e = ctl_commander c" "wrap32 (ctl_solarAboveTicks c + 1) = solarGateStartTicks" for e
    using gate_loops_give_start[of "gate_ok [False] (counters c)" e env cr chs] that by (simp add: counters_def)
  from d(2) have tk: "ctl_solarBelowTicks d = ctl_solarBelowTicks c" "ctl_solarAboveTicks d = ctl_solarAboveTicks c"
    by (simp_all add: counters_def)
  show ?thesis using assms True d(1) tk stop start
    by (cases "below_threshold c")
      (simp_all add: runSolarGate_def Let_def d_def[symmetric] below_threshold_def)
qed

lemma tick_gate_ok:
  assumes "0 < ctl_solarThreshold c"
  shows "gives (gate_ok (gate_obs c (env, cr, sr, now, e)) (counters c)) c
           (tick env cr sr now (c\<lparr>ctl_energySource := e\<rparr>))"
proof -
  let ?c = "c\<lparr>ctl_energySource := e\<rparr>" and ?chs = "vals_of (cr_chargers cr)"
  let ?P = "gate_ok (gate_obs c (env, cr, sr, now, e)) (counters c)"
  have prof: "?P (SetChargingProfileReq k n p)" for k n p by simp
  consider (off) "\<not> ctl_enabled c" | (stale) "ctl_enabled c" "is_stale now (ctl_staleTimeout c) e"
    | (run) "ctl_enabled c" "\<not> is_stale now (ctl_staleTimeout c) e" by blast
  then show ?thesis
  proof cases
    case off then show ?thesis by (simp add: tick_def)
  next
    case stale
    then show ?thesis using loops_give_profiles(1)[of ?P ?c env cr sr, OF prof] by (simp add: tick_def)
  next
    case run
    obtain skip d where gate: "runSolarGate env cr sr now ?chs ?c = (skip, d)" by fastforce
    have "below_threshold ?c = (solar_power e < of_int (ctl_solarThreshold c))"
      by (simp add: below_threshold_def)
    then have "gives ?P c d" using runSolarGate_gate_ok[of ?c now env cr sr ?chs] assms gate run
      by (cases "solar_available now (ctl_staleTimeout c) e") (simp_all add: gate_obs_def)
    then show ?thesis using run gate
      loops_give_profiles(2)[of ?P d env cr sr now "fst (collectMeterSample now d)" ?chs, OF prof]
      by (auto simp: tick_def ListChargers_def Let_def split: bool.split intro: cmdr.extends_trans)
  qed
qed

subsection \<open>Reverting to the safe limit\<close>

definition all_accepted :: "env \<Rightarrow> bool" where
  "all_accepted env \<longleftrightarrow> (\<forall>sent cmd. \<exists>t. ev_answer env sent cmd = Confirmed ''Accepted'' t)"

lemma accepted_profile:
  assumes "all_accepted env"
  shows "fst (SetChargingProfile env repo k n a c) = Inr ()"
proof -
  have "fst (sendChargingProfile env k n p d) = Inr ()" for p d
    using assms by (auto simp: sendChargingProfile_def hand_over_def all_accepted_def split: answer.split)
      (metis answer.distinct answer.inject)+
  then obtain c1 where "sendChargingProfile env k n (buildTxDefaultProfile n a) c = (Inr (), c1)"
    by (metis prod.collapse)
  then show ?thesis by (auto simp: SetChargingProfile_def split: option.split sum.split)
qed

lemma apply_limit_accepted:
  assumes "all_accepted env"
  shows "ctl_lastSetAmps (apply_limit env sr k n a c) = (ctl_lastSetAmps c)(connector_key k n \<mapsto> a)"
proof -
  obtain cmd where 1: "SetChargingProfile env (Some sr) k n a (ctl_commander c) = (Inr (), cmd)"
    using accepted_profile[OF assms] by (metis prod.collapse)
  show ?thesis
    by (auto simp: apply_limit_def Let_def ctl_SetChargingProfile_def 1 publish_ctl_def note_ctl_def abs_int_def
        fun_upd_idem split: option.split)
qed

text \<open>The connectors a revert goes through, with their chargers.\<close>

definition revert_targets :: "charger_repo \<Rightarrow> (charger_id \<times> int) set" where
  "revert_targets cr = {(ch_ID ch, cn_ConnectorID conn) | ch conn.
     ch \<in> set (vals_of (cr_chargers cr)) \<and> ch_Online ch \<and> conn \<in> set (conns_of cr (ch_ID ch)) \<and> controlled conn}"

lemma fold_sets_all:
  assumes "\<And>x c. x \<in> set xs \<Longrightarrow> h (f x c) = (\<lambda>k. if k \<in> K x then Some a else h c k)"
  shows "h (fold f xs c) = (\<lambda>k. if \<exists>x \<in> set xs. k \<in> K x then Some a else h c k)"
  using assms by (induction xs arbitrary: c) (auto simp: fun_eq_iff)

lemma revert_sets_all:
  assumes "all_accepted env"
  shows "ctl_lastSetAmps (revertAllToSafe env cr sr c) =
    (\<lambda>key. if key \<in> (\<lambda>(k, n). connector_key k n) ` revert_targets cr then Some (ctl_safeAmps c)
           else ctl_lastSetAmps c key)"
proof -
  let ?K = "\<lambda>ch. if ch_Online ch then {connector_key (ch_ID ch) (cn_ConnectorID conn) | conn.
      conn \<in> set (conns_of cr (ch_ID ch)) \<and> controlled conn} else {}"
  have inner: "ctl_lastSetAmps (fold (\<lambda>conn c. if \<not> controlled conn then c
      else apply_limit env sr k (cn_ConnectorID conn) a c) conns e) =
      (\<lambda>key. if \<exists>conn \<in> set conns. key \<in> (if controlled conn then {connector_key k (cn_ConnectorID conn)} else {})
             then Some a else ctl_lastSetAmps e key)" for k a conns e
    by (rule fold_sets_all) (auto simp: apply_limit_accepted[OF assms] fun_eq_iff)
  have "ctl_lastSetAmps (revertAllToSafe env cr sr c) =
      (\<lambda>key. if \<exists>ch \<in> set (vals_of (cr_chargers cr)). key \<in> ?K ch then Some (ctl_safeAmps c)
             else ctl_lastSetAmps c key)"
    unfolding revertAllToSafe_def ListChargers_def ListConnectors_def Let_def sum.case
    by (rule fold_sets_all) (auto simp: inner fun_eq_iff)
  moreover have "(\<exists>ch \<in> set (vals_of (cr_chargers cr)). key \<in> ?K ch) \<longleftrightarrow>
      key \<in> (\<lambda>(k, n). connector_key k n) ` revert_targets cr" for key
  proof
    assume "\<exists>ch \<in> set (vals_of (cr_chargers cr)). key \<in> ?K ch"
    then obtain ch conn where "ch \<in> set (vals_of (cr_chargers cr))" "ch_Online ch"
      "conn \<in> set (conns_of cr (ch_ID ch))" "controlled conn" "key = connector_key (ch_ID ch) (cn_ConnectorID conn)"
      by (auto split: if_splits)
    then have "(ch_ID ch, cn_ConnectorID conn) \<in> revert_targets cr" unfolding revert_targets_def by blast
    then show "key \<in> (\<lambda>(k, n). connector_key k n) ` revert_targets cr"
      using \<open>key = _\<close> by (auto intro: rev_image_eqI)
  next
    assume "key \<in> (\<lambda>(k, n). connector_key k n) ` revert_targets cr"
    then obtain ch conn where "ch \<in> set (vals_of (cr_chargers cr))" "ch_Online ch"
      "conn \<in> set (conns_of cr (ch_ID ch))" "controlled conn" "key = connector_key (ch_ID ch) (cn_ConnectorID conn)"
      by (auto simp: revert_targets_def simp del: set_map)
    then show "\<exists>ch \<in> set (vals_of (cr_chargers cr)). key \<in> ?K ch" by (intro bexI[of _ ch]) auto
  qed
  ultimately show ?thesis by simp
qed

subsection \<open>Properties\<close>



text \<open>
  Over any run of ticks, with any energy readings, networks and repositories, no connector is
  ever told a limit other than the safe limit or one between the minimum and the maximum.
\<close>

theorem commanded_amps_bounded:
  assumes "minA \<le> maxA"
  shows "list_all (\<lambda>cmd. list_all (\<lambda>a. a = wrap32 safe \<or> minA \<le> a \<and> a \<le> maxA) (profile_amps cmd))
    (co_sent (ctl_commander (run_ticks inputs
       (NewController NewCommander energy pub (NewCalculator minA maxA v) safe timeout))))"
proof -
  let ?c = "NewController NewCommander energy pub (NewCalculator minA maxA v) safe timeout"
  have "gives (\<lambda>cmd. \<forall>a \<in> set (profile_amps cmd). a = wrap32 safe \<or> minA \<le> a \<and> a \<le> maxA) ?c (run_ticks inputs ?c)"
    by (rule run_ticks_amps) (simp_all add: NewController_def NewCalculator_ok[OF assms], simp_all add: NewCalculator_def)
  moreover have "co_sent (ctl_commander ?c) = []" by (simp add: NewController_def NewCommander_def)
  ultimately show ?thesis by (auto simp: cmdr.extends_def list_all_iff)
qed

theorem commanded_amps_bounded_witness:
  "list_all (\<lambda>cmd. list_all (\<lambda>a. a = wrap32 6 \<or> 6 \<le> a \<and> a \<le> 16) (profile_amps cmd))
    (co_sent (ctl_commander (run_ticks
       [(\<lparr>ev_answer = \<lambda>_ _. Confirmed ''Accepted'' 0, ev_now = \<lambda>_. 0\<rparr>, NewInMemoryChargerRepository, [], 0, NoOpEnergySource)]
       (NewController NewCommander NoOpEnergySource True (NewCalculator 6 16 230) 6 (60 * second)))))"
  by (rule commanded_amps_bounded) simp

text \<open>
  C21: the solar gate is debounced, over any run of ticks: a tick gives remote stops only when it is
  exactly the third consecutive observation below the threshold, and remote starts only when it is
  exactly the second consecutive one at or above it. So a stop that fails on the third observation is
  not tried again while the production stays low.
\<close>

theorem solar_gate_debounced:
  assumes "c = SetSolarThreshold watts (NewController cmd energy pub calc safe timeout)"
    and "0 < GetSolarThreshold c" "length (observed c (is @ [i])) < 2147483647"
  shows "\<exists>new. co_sent (ctl_commander (run_ticks (is @ [i]) c)) = co_sent (ctl_commander (run_ticks is c)) @ new \<and>
     list_all (\<lambda>x. case x of
        RemoteStopReq k tx \<Rightarrow> trailing True (observed c (is @ [i])) = 3
      | RemoteStartReq k n tag \<Rightarrow> trailing False (observed c (is @ [i])) = 2
      | _ \<Rightarrow> True) new"
proof -
  obtain env cr sr now e where i: "i = (env, cr, sr, now, e)" by (cases i)
  let ?d = "run_ticks is c" and ?P = "gate_ok (gate_obs c i) (counters (run_ticks is c))"
  have th: "0 < ctl_solarThreshold c" "counters c = (0, 0)"
    using assms(1,2) by (simp_all add: GetSolarThreshold_def SetSolarThreshold_def NewController_def counters_def)
  have short: "length (observed c is) < 2147483647" using assms(3) by (simp add: observed_snoc)
  note cnt = run_ticks_counters[OF th short]
  have "gives ?P ?d (run_ticks (is @ [i]) c)"
    using tick_gate_ok[of ?d env cr sr now e] th(1) run_ticks_frame[of "is" c] by (simp add: i run_ticks_snoc)
  moreover have "case x of
        RemoteStopReq k tx \<Rightarrow> trailing True (observed c (is @ [i])) = 3
      | RemoteStartReq k n tag \<Rightarrow> trailing False (observed c (is @ [i])) = 2
      | _ \<Rightarrow> True" if "?P x" for x
  proof -
    have w: "wrap32 (int (trailing b (observed c is)) + 1) = int (trailing b (observed c is)) + 1" for b
      using trailing_le[of b "observed c is"] short by (intro wrap32_id) auto
    show ?thesis using that
      by (cases x) (auto simp: cnt w observed_snoc solarGateStopTicks_def solarGateStartTicks_def)
  qed
  ultimately have "gives (\<lambda>x. case x of
        RemoteStopReq k tx \<Rightarrow> trailing True (observed c (is @ [i])) = 3
      | RemoteStartReq k n tag \<Rightarrow> trailing False (observed c (is @ [i])) = 2
      | _ \<Rightarrow> True) ?d (run_ticks (is @ [i]) c)" by (rule cmdr.extends_mono)
  then show ?thesis by (simp add: cmdr.extends_def)
qed



theorem solar_gate_debounced_witness:
  "let c = SetSolarThreshold 1000 (NewController NewCommander NoOpEnergySource True (NewCalculator 6 32 230) 6 (60 * second));
       e = HassEnergySource ((NewEnergySource \<lparr>ha_GridEntityID = ''g'', ha_SolarEntityID = ''s'',
             ha_ConsumptionEntityID = '''', ha_Token = ''''\<rparr>)\<lparr>es_gridAt := 1, es_solarAt := 1\<rparr>);
       i = (\<lparr>ev_answer = \<lambda>_ _. NoAnswer, ev_now = \<lambda>_. 0\<rparr>, NewInMemoryChargerRepository, [], 2, e);
       is = [i, i]
   in \<exists>new. co_sent (ctl_commander (run_ticks (is @ [i]) c)) = co_sent (ctl_commander (run_ticks is c)) @ new \<and>
     list_all (\<lambda>x. case x of
        RemoteStopReq k tx \<Rightarrow> trailing True (observed c (is @ [i])) = 3
      | RemoteStartReq k n tag \<Rightarrow> trailing False (observed c (is @ [i])) = 2
      | _ \<Rightarrow> True) new"
  unfolding Let_def
  by (rule solar_gate_debounced, rule refl)
    (simp_all add: GetSolarThreshold_def SetSolarThreshold_def NewController_def wrap32_def observed_def
      gate_obs_def)

text \<open>
  The solar gate resumes chargers without looking at the manual override: when the production
  comes back, a charger the gate had stopped is started on every connector but 0, also one that was
  put under manual control meanwhile or had no transaction.
\<close>

theorem gate_resume_ignores_override:
  assumes "ctl_solarGateStopped c = {k}" "k \<in> set (ctl_manualOverride c)"
    and "cr_chargers cr = [(k, ch)]" "ch_ID ch = k" "ch_Online ch" "conns_of cr k = [conn]" "cn_ConnectorID conn \<noteq> 0"
    and "0 < ctl_solarThreshold c" "solar_available now (ctl_staleTimeout c) (ctl_energySource c)"
    and "\<not> below_threshold c" "ctl_solarAboveTicks c = 1" "co_lastStartStop (ctl_commander c) k = None"
  shows "co_sent (ctl_commander (snd (runSolarGate env cr sr now [ch] c))) =
         co_sent (ctl_commander c) @ [RemoteStartReq k (cn_ConnectorID conn) ''solar'']"
  using assms
  by (simp add: runSolarGate_def gate_forget_offline_def below_threshold_def Let_def solarGateStartTicks_def
      wrap32_def gate_start_charger_def gate_start_conn_def ListConnectors_def start_guarded guarded_def
      enforceCooldown_def markStartStop_def split: answer.split)

theorem gate_resume_ignores_override_witness:
  "let e = HassEnergySource ((NewEnergySource \<lparr>ha_GridEntityID = ''g'', ha_SolarEntityID = ''s'',
             ha_ConsumptionEntityID = '''', ha_Token = ''''\<rparr>)\<lparr>es_solar := 5000, es_gridAt := 1, es_solarAt := 1\<rparr>);
       c = (SetManualOverride ''a'' (SetSolarThreshold 1000 (NewController NewCommander e True
             (NewCalculator 6 32 230) 6 (60 * second))))\<lparr>ctl_solarGateStopped := {''a''}, ctl_solarAboveTicks := 1\<rparr>;
       ch = \<lparr>ch_ID = ''a'', ch_Vendor = '''', ch_Model = '''', ch_FirmwareVersion = '''', ch_SerialNumber = '''', ch_Online = True\<rparr>;
       conn = \<lparr>cn_ChargerID = ''a'', cn_ConnectorID = 1, cn_Status = ''Available'', cn_ErrorCode = '''', cn_Info = ''''\<rparr>;
       cr = \<lparr>cr_chargers = [(''a'', ch)], cr_connectors = Map.empty(''a'' \<mapsto> [conn])\<rparr>
   in co_sent (ctl_commander (snd (runSolarGate \<lparr>ev_answer = \<lambda>_ _. NoAnswer, ev_now = \<lambda>_. 0\<rparr> cr [] 2 [ch] c))) =
      co_sent (ctl_commander c) @ [RemoteStartReq ''a'' (cn_ConnectorID conn) ''solar'']"
  unfolding Let_def
  by (rule gate_resume_ignores_override)
    (simp_all add: SetManualOverride_def SetSolarThreshold_def NewController_def NewCommander_def
      publish_ctl_def note_ctl_def wrap32_def conns_of_def below_threshold_def GetSolarPowerW_def
      NewEnergySource_def IsSolarAvailable_def time_sub_def max_duration_def min_duration_def)

end
