(* ===== verification/ControllerLaws.thy ===== *)
theory ControllerLaws
  imports Controller
begin

section \<open>ControllerLaws: what a tick brings about\<close>

text \<open>
  The other side of \<open>tick_commands_allowed\<close>: not what a tick may do, but what it must have done. The
  view of a charger is the part of the controller that its limit depends on; the work on other
  chargers keeps it, so that the limit is that of the specification \<open>limit_for\<close>, a function of the
  state before the tick.
\<close>

definition view ::
  "charger_id \<Rightarrow> controller \<Rightarrow> charger_stop_state \<times> int option \<times> (int \<times> int \<times> rat \<times> int) \<times>
     (energy \<times> duration \<times> int \<times> bool \<times> charger_id list \<times> int \<times> int \<times> int) \<times> (int \<Rightarrow> int option)" where
  "view k c =
     (let calc = ctl_calc c in
      (stop_state calc k, ca_lastLimit calc k,
       (ca_minAmps calc, ca_maxAmps calc, ca_gridVolt calc, ca_hysteresis calc), settings_of c,
       \<lambda>n. ctl_lastSetAmps c (connector_key k n)))"

lemma Compute_view:
  assumes "stop_state d k = stop_state c k" "ca_lastLimit d k = ca_lastLimit c k" "ca_minAmps d = ca_minAmps c"
    "ca_maxAmps d = ca_maxAmps c" "ca_gridVolt d = ca_gridVolt c" "ca_hysteresis d = ca_hysteresis c"
  shows "snd (Compute k s d) = snd (Compute k s c)"
proof -
  have "idealAmps d s = idealAmps c s" using assms by (simp add: idealAmps_def)
  moreover have "(case ca_stopState x k of None \<Rightarrow> zero_stop_state | Some st \<Rightarrow> st) = stop_state x k" for x
    by (simp add: stop_state_def)
  ultimately show ?thesis
    using assms by (simp add: Compute_def Let_def split: option.split)
qed

lemma view_upd:
  "view k (c\<lparr>ctl_commander := x\<rparr>) = view k c" "view k (c\<lparr>ctl_lastShouldStop := y\<rparr>) = view k c"
  "view k (publish_ctl eff c) = view k c" "view k (emit_ctl ev c) = view k c"
  by (simp_all add: view_def settings_of_def publish_ctl_def emit_ctl_def note_ctl_def Let_def)

lemma apply_limit_view:
  assumes "j \<noteq> k" shows "view k (apply_limit env sr j n a c) = view k c"
proof -
  have "ctl_lastSetAmps (apply_limit env sr j n a c) (connector_key k i) = ctl_lastSetAmps c (connector_key k i)" for i
    using assms
    by (auto simp: apply_limit_def Let_def ctl_SetChargingProfile_def publish_ctl_def note_ctl_def
        split: option.split sum.split prod.split)
  then show ?thesis by (simp add: view_def)
qed

lemma processConnector_view:
  assumes "ch_ID ch \<noteq> k" shows "view k (processConnector env sr now ch s conn c) = view k c"
proof -
  obtain calc result where 1: "Compute (ch_ID ch) s (ctl_calc c) = (calc, result)" by fastforce
  have "view k (c\<lparr>ctl_calc := calc\<rparr>) = view k c"
    using assms Compute_stop_state[of "ch_ID ch" s "ctl_calc c" k] Compute_other[of k "ch_ID ch" s "ctl_calc c"]
      Compute_frame[of "ch_ID ch" s "ctl_calc c"]
    by (simp add: view_def 1 settings_of_def Let_def)
  then show ?thesis
    using apply_limit_view[OF assms] by (simp add: processConnector_def 1 Let_def view_upd)
qed

lemma processCharger_view:
  "ch_ID ch \<noteq> k \<Longrightarrow> view k (processCharger env cr sr now s ch c) = view k c"
  by (auto simp: processCharger_def ListConnectors_def processConnector_view intro!: fold_frame)

text \<open>The limit a tick sets: the one computed, or the safe one.\<close>

definition limit_for :: "charger_id \<Rightarrow> meter_sample \<Rightarrow> controller \<Rightarrow> int" where
  "limit_for k s c =
     (let r = snd (Compute k s (ctl_calc c)) in if pr_ShouldStop r then ctl_safeAmps c else pr_LimitAmps r)"

lemma limit_for_view: "view k d = view k c \<Longrightarrow> limit_for k s d = limit_for k s c"
  using Compute_view[of "ctl_calc d" k "ctl_calc c" s]
  by (auto simp: limit_for_def view_def settings_of_def Let_def)

lemma processConnector_sets:
  assumes "all_accepted env"
  shows "ctl_lastSetAmps (processConnector env sr now ch s conn c) =
    (ctl_lastSetAmps c)(connector_key (ch_ID ch) (cn_ConnectorID conn) \<mapsto> limit_for (ch_ID ch) s c)"
proof -
  have "ctl_lastSetAmps (emit_ctl ev d) = ctl_lastSetAmps d" "ctl_safeAmps (emit_ctl ev d) = ctl_safeAmps d"
    for ev d by (simp_all add: emit_ctl_def note_ctl_def)
  then show ?thesis
    by (simp add: processConnector_def split_beta Let_def limit_for_def apply_limit_accepted[OF assms])
qed

lemma fold_filter: "fold (\<lambda>x c. if \<not> P x then c else f x c) xs c = fold f (filter P xs) c"
  by (induction xs arbitrary: c) auto

lemma processCharger_sets:
  assumes "all_accepted env" "\<not> IsManualOverride (ch_ID ch) c"
    and "filter controlled (conns_of cr (ch_ID ch)) = [conn]"
  shows "ctl_lastSetAmps (processCharger env cr sr now s ch c) =
    (ctl_lastSetAmps c)(connector_key (ch_ID ch) (cn_ConnectorID conn) \<mapsto> limit_for (ch_ID ch) s c)"
  using assms(2,3) processConnector_sets[OF assms(1)]
  by (simp add: processCharger_def ListConnectors_def fold_filter)

lemma chargers_set_limit:
  assumes "all_accepted env" "distinct (map ch_ID chs)" "ch \<in> set chs" "ch_Online ch"
    and "\<not> IsManualOverride (ch_ID ch) c" "filter controlled (conns_of cr (ch_ID ch)) = [conn]"
  shows "LastSetAmps (ch_ID ch) (cn_ConnectorID conn)
      (fold (\<lambda>ch c. if \<not> ch_Online ch then c else processCharger env cr sr now s ch c) chs c) =
    limit_for (ch_ID ch) s c"
proof -
  let ?f = "\<lambda>ch c. if \<not> ch_Online ch then c else processCharger env cr sr now s ch c"
  let ?k = "ch_ID ch" and ?n = "cn_ConnectorID conn"
  obtain xs ys where chs: "chs = xs @ ch # ys" using assms(3) by (meson split_list)
  have other: "view ?k (fold ?f zs d) = view ?k d" if "\<forall>z \<in> set zs. ch_ID z \<noteq> ?k" for zs d
    by (rule fold_frame) (use that processCharger_view in auto)
  have ids: "\<forall>z \<in> set xs. ch_ID z \<noteq> ?k" "\<forall>z \<in> set ys. ch_ID z \<noteq> ?k"
    using assms(2) unfolding chs by (force simp: image_iff)+
  let ?d = "fold ?f xs c"
  have d: "view ?k ?d = view ?k c" using other[OF ids(1)] .
  then have "\<not> IsManualOverride ?k ?d" using assms(5) by (simp add: view_def settings_of_def IsManualOverride_def Let_def)
  then have "ctl_lastSetAmps (?f ch ?d) (connector_key ?k ?n) = Some (limit_for ?k s c)"
    using processCharger_sets[OF assms(1) _ assms(6)] assms(4) limit_for_view[OF d] by simp
  moreover have "view ?k (fold ?f chs c) = view ?k (?f ch ?d)" using other[OF ids(2)] by (simp add: chs)
  then have "ctl_lastSetAmps (fold ?f chs c) (connector_key ?k ?n) = ctl_lastSetAmps (?f ch ?d) (connector_key ?k ?n)"
    unfolding view_def Let_def by (metis (no_types, lifting) prod.inject)
  ultimately show ?thesis by (simp add: LastSetAmps_def)
qed

subsection \<open>What is sent\<close>

definition extended_by :: "(ocpp_command \<Rightarrow> bool) \<Rightarrow> controller \<Rightarrow> controller \<Rightarrow> bool" where
  "extended_by Q c d \<longleftrightarrow>
     (\<exists>new. co_sent (ctl_commander d) = co_sent (ctl_commander c) @ new \<and> (\<exists>x \<in> set new. Q x))"

definition grown :: "controller \<Rightarrow> controller \<Rightarrow> bool" where
  "grown c d \<longleftrightarrow> (\<exists>new. co_sent (ctl_commander d) = co_sent (ctl_commander c) @ new)"

lemma grown_refl [simp]: "grown c c" by (simp add: grown_def)

lemma grown_trans: "grown c d \<Longrightarrow> grown d e \<Longrightarrow> grown c e"
  by (auto simp: grown_def)

lemma grown_fold: "(\<And>x d. grown d (f x d)) \<Longrightarrow> grown c (fold f xs c)"
  by (rule fold_invariant[where P = "grown c"]) (auto intro: grown_trans)

lemma extended_by_grown:
  "grown c d \<Longrightarrow> extended_by Q d e \<Longrightarrow> extended_by Q c e"
  "extended_by Q c d \<Longrightarrow> grown d e \<Longrightarrow> extended_by Q c e"
  by (auto simp: grown_def extended_by_def)

definition profile_for :: "charger_id \<Rightarrow> int \<Rightarrow> int \<Rightarrow> ocpp_command \<Rightarrow> bool" where
  "profile_for k n a cmd \<longleftrightarrow> (\<exists>p. cmd = SetChargingProfileReq k n p \<and> cp_Periods p = [(0, a)])"

lemma apply_limit_sends:
  "ctl_lastSetAmps c (connector_key k n) = Some a \<or> extended_by (profile_for k n a) c (apply_limit env sr k n a c)"
proof -
  obtain ps where ps: "co_sent (snd (SetChargingProfile env (Some sr) k n a (ctl_commander c))) =
      co_sent (ctl_commander c) @ map (SetChargingProfileReq k n) ps" "ps \<noteq> []" "list_all (\<lambda>p. cp_Periods p = [(0, a)]) ps"
    using SetChargingProfile_sent by blast
  then have "\<exists>x \<in> set (map (SetChargingProfileReq k n) ps). profile_for k n a x"
    by (cases ps) (auto simp: profile_for_def)
  then show ?thesis
    using ps(1) by (auto simp: apply_limit_commander extended_by_def abs_int_def split: option.splits if_splits)
qed

lemma apply_limit_grown: "grown c (apply_limit env sr k n a c)"
proof -
  obtain ps where "co_sent (snd (SetChargingProfile env (Some sr) k n a (ctl_commander c))) =
      co_sent (ctl_commander c) @ map (SetChargingProfileReq k n) ps"
    using SetChargingProfile_sent by blast
  then show ?thesis by (auto simp: grown_def apply_limit_commander)
qed

lemma processConnector_apply:
  "\<exists>d. processConnector env sr now ch s conn c =
       apply_limit env sr (ch_ID ch) (cn_ConnectorID conn) (limit_for (ch_ID ch) s c) d \<and>
     ctl_commander d = ctl_commander c \<and> ctl_lastSetAmps d = ctl_lastSetAmps c"
proof -
  have emit: "ctl_lastSetAmps (emit_ctl ev d) = ctl_lastSetAmps d" "ctl_safeAmps (emit_ctl ev d) = ctl_safeAmps d"
    for ev d by (simp_all add: emit_ctl_def note_ctl_def)
  obtain calc result where 1: "Compute (ch_ID ch) s (ctl_calc c) = (calc, result)" by fastforce
  have lim: "limit_for (ch_ID ch) s c = (if pr_ShouldStop result then ctl_safeAmps c else pr_LimitAmps result)"
    by (simp add: limit_for_def 1 Let_def)
  let ?key = "connector_key (ch_ID ch) (cn_ConnectorID conn)" and ?c = "c\<lparr>ctl_calc := calc\<rparr>"
  let ?d = "\<lambda>ev. if ctl_lastShouldStop c ?key \<noteq> Some (pr_ShouldStop result)
    then emit_ctl ev (?c\<lparr>ctl_lastShouldStop := (ctl_lastShouldStop c)(?key \<mapsto> pr_ShouldStop result)\<rparr>) else ?c"
  have d: "ctl_commander (?d ev) = ctl_commander c" "ctl_lastSetAmps (?d ev) = ctl_lastSetAmps c"
    "ctl_safeAmps (?d ev) = ctl_safeAmps c" for ev by (simp_all add: emit)
  have "\<exists>ev. processConnector env sr now ch s conn c =
      apply_limit env sr (ch_ID ch) (cn_ConnectorID conn) (limit_for (ch_ID ch) s c) (?d ev)"
    unfolding lim by (cases "pr_ShouldStop result")
      (auto simp: processConnector_def 1 Let_def emit intro!: exI[of _ "ChargingProfileUpdated now (ch_ID ch) _ _ _"])
  then show ?thesis using d by metis
qed

lemma processConnector_sends:
  "ctl_lastSetAmps c (connector_key (ch_ID ch) (cn_ConnectorID conn)) = Some (limit_for (ch_ID ch) s c) \<or>
   extended_by (profile_for (ch_ID ch) (cn_ConnectorID conn) (limit_for (ch_ID ch) s c)) c
     (processConnector env sr now ch s conn c)"
  "grown c (processConnector env sr now ch s conn c)"
proof -
  obtain d where "processConnector env sr now ch s conn c =
      apply_limit env sr (ch_ID ch) (cn_ConnectorID conn) (limit_for (ch_ID ch) s c) d"
    "ctl_commander d = ctl_commander c" "ctl_lastSetAmps d = ctl_lastSetAmps c"
    using processConnector_apply by blast
  then show "ctl_lastSetAmps c (connector_key (ch_ID ch) (cn_ConnectorID conn)) = Some (limit_for (ch_ID ch) s c) \<or>
   extended_by (profile_for (ch_ID ch) (cn_ConnectorID conn) (limit_for (ch_ID ch) s c)) c
     (processConnector env sr now ch s conn c)"
    "grown c (processConnector env sr now ch s conn c)"
    using apply_limit_sends[of d "ch_ID ch" "cn_ConnectorID conn" "limit_for (ch_ID ch) s c" env sr]
      apply_limit_grown[of d env sr "ch_ID ch" "cn_ConnectorID conn" "limit_for (ch_ID ch) s c"]
    by (auto simp: extended_by_def grown_def)
qed

lemma processCharger_grown: "grown c (processCharger env cr sr now s ch c)"
  by (auto simp: processCharger_def ListConnectors_def processConnector_sends(2) intro!: grown_fold)

lemma chargers_send_limit:
  assumes "distinct (map ch_ID chs)" "ch \<in> set chs" "ch_Online ch"
    and "\<not> IsManualOverride (ch_ID ch) c" "filter controlled (conns_of cr (ch_ID ch)) = [conn]"
  shows "ctl_lastSetAmps c (connector_key (ch_ID ch) (cn_ConnectorID conn)) = Some (limit_for (ch_ID ch) s c) \<or>
    extended_by (profile_for (ch_ID ch) (cn_ConnectorID conn) (limit_for (ch_ID ch) s c)) c
      (fold (\<lambda>ch c. if \<not> ch_Online ch then c else processCharger env cr sr now s ch c) chs c)"
proof -
  let ?f = "\<lambda>ch c. if \<not> ch_Online ch then c else processCharger env cr sr now s ch c"
  let ?k = "ch_ID ch"
  obtain xs ys where chs: "chs = xs @ ch # ys" using assms(2) by (meson split_list)
  have "\<forall>z \<in> set xs. ch_ID z \<noteq> ?k" using assms(1) unfolding chs by (force simp: image_iff)
  then have d: "view ?k (fold ?f xs c) = view ?k c"
    by (intro fold_frame) (auto simp: processCharger_view)
  let ?d = "fold ?f xs c"
  have "\<not> IsManualOverride ?k ?d" using d assms(4) by (simp add: view_def settings_of_def IsManualOverride_def Let_def)
  then have "?f ch ?d = processConnector env sr now ch s conn ?d"
    using assms(3,5) by (simp add: processCharger_def ListConnectors_def fold_filter)
  moreover have "ctl_lastSetAmps ?d (connector_key ?k (cn_ConnectorID conn)) =
      ctl_lastSetAmps c (connector_key ?k (cn_ConnectorID conn))"
    using d unfolding view_def Let_def by (metis (no_types, lifting) prod.inject)
  ultimately have "ctl_lastSetAmps c (connector_key ?k (cn_ConnectorID conn)) = Some (limit_for ?k s c) \<or>
      extended_by (profile_for ?k (cn_ConnectorID conn) (limit_for ?k s c)) ?d (?f ch ?d)"
    using processConnector_sends(1)[of ?d ch conn s env sr now] limit_for_view[OF d] by simp
  moreover have "grown c ?d" "grown (?f ch ?d) (fold ?f chs c)"
    by (auto simp: chs processCharger_grown intro!: grown_fold)
  ultimately show ?thesis by (blast intro: extended_by_grown)
qed

subsection \<open>The tick\<close>

lemma gate_view:
  "view k (snd (runSolarGate env cr sr now chs c)) = view k c"
  "grown c (snd (runSolarGate env cr sr now chs c))"
proof -
  have upd: "view k (d\<lparr>ctl_solarGateStopped := x\<rparr>) = view k d" "view k (d\<lparr>ctl_solarBelowTicks := a\<rparr>) = view k d"
    "view k (d\<lparr>ctl_solarAboveTicks := b\<rparr>) = view k d" for d x a b
    by (simp_all add: view_def settings_of_def Let_def)
  have forget: "view k (gate_forget_offline chs d) = view k d" for d
    unfolding gate_forget_offline_def by (rule fold_frame) (simp add: upd)
  have conns: "view k (fold (gate_stop_conn env sr k') xs d) = view k d" "view k (fold (gate_start_conn env k') xs d) = view k d"
    for k' xs d
    by (rule fold_frame, simp add: gate_stop_conn_def gate_start_conn_def view_upd split: sum.split option.split)+
  have chs: "view k (fold (gate_stop_charger env cr sr) xs d) = view k d" "view k (fold (gate_start_charger env cr) xs d) = view k d"
    for xs d
    by (rule fold_frame, simp add: gate_stop_charger_def gate_start_charger_def Let_def ListConnectors_def conns upd)+
  show "view k (snd (runSolarGate env cr sr now chs c)) = view k c"
    by (simp add: runSolarGate_def Let_def upd forget chs)
  have "grown d (d\<lparr>ctl_commander := guarded env k' cmd (ctl_commander d)\<rparr>)" for d k' cmd
    using guarded_sent[of env k' cmd "ctl_commander d"] by (auto simp: grown_def)
  then have g: "grown d (d\<lparr>ctl_commander := snd (RemoteStopTransaction env k' tx (ctl_commander d))\<rparr>)"
    "grown d (d\<lparr>ctl_commander := snd (RemoteStartTransaction env k' n tag (ctl_commander d))\<rparr>)" for d k' tx n tag
    by (simp_all add: stop_guarded start_guarded)
  have same: "grown d e" if "ctl_commander e = ctl_commander d" for d e using that by (simp add: grown_def)
  have gforget: "grown d (gate_forget_offline chs d)" for d
    unfolding gate_forget_offline_def by (rule grown_fold) (simp add: same)
  have gstop: "grown d (gate_stop_charger env cr sr ch d)" for ch d
  proof -
    have "grown d (fold (gate_stop_conn env sr k') conns (d\<lparr>ctl_solarGateStopped := x\<rparr>))" for k' conns x d
      by (rule grown_trans[OF same grown_fold])
        (auto simp: gate_stop_conn_def g split: sum.split option.split)
    then show ?thesis by (simp add: gate_stop_charger_def Let_def ListConnectors_def)
  qed
  have gstart: "grown d (gate_start_charger env cr ch d)" for ch d
  proof -
    have "grown d (fold (gate_start_conn env k') conns (d\<lparr>ctl_solarGateStopped := x\<rparr>))" for k' conns x d
      by (rule grown_trans[OF same grown_fold]) (auto simp: gate_start_conn_def g)
    then show ?thesis by (simp add: gate_start_charger_def Let_def ListConnectors_def same)
  qed
  have gs: "grown d (fold (gate_stop_charger env cr sr) chs (gate_forget_offline chs d \<lparr>ctl_solarAboveTicks := a, ctl_solarBelowTicks := b\<rparr>))"
    "grown d (fold (gate_start_charger env cr) chs (gate_forget_offline chs d \<lparr>ctl_solarBelowTicks := a, ctl_solarAboveTicks := b\<rparr>))" for d a b
    by (rule grown_trans[OF gforget], rule grown_trans[OF same grown_fold], simp, rule gstop gstart)+
  show "grown c (snd (runSolarGate env cr sr now chs c))"
    by (auto simp: runSolarGate_def Let_def gs intro: same grown_trans[OF gforget same])
qed

subsection \<open>Properties\<close>

text \<open>
  C7: a tick does its work. On fresh data, when the solar gate lets the tick go on and the chargers
  accept, the one controlled connector of an online charger that is not under manual override ends up
  at the limit the calculator computes for that charger from the state before the tick, or at the safe
  limit when it says to stop; and that limit was either the one last set already or is sent in the
  tick. Other chargers and their order make no difference.
\<close>

theorem tick_applies_limits:
  assumes "all_accepted env" "ctl_enabled c" "\<not> is_stale now (ctl_staleTimeout c) (ctl_energySource c)"
    and "\<not> fst (runSolarGate env cr sr now (vals_of (cr_chargers cr)) c)"
    and "distinct (map ch_ID (vals_of (cr_chargers cr)))" "ch \<in> set (vals_of (cr_chargers cr))" "ch_Online ch"
    and "\<not> IsManualOverride (ch_ID ch) c" "filter controlled (conns_of cr (ch_ID ch)) = [conn]"
  shows "let k = ch_ID ch; n = cn_ConnectorID conn; lim = limit_for k (fst (collectMeterSample now c)) c in
    LastSetAmps k n (tick env cr sr now c) = lim \<and>
    (ctl_lastSetAmps c (connector_key k n) = Some lim \<or>
     extended_by (profile_for k n lim) c (tick env cr sr now c))"
proof -
  let ?chs = "vals_of (cr_chargers cr)" and ?k = "ch_ID ch" and ?s = "fst (collectMeterSample now c)"
  obtain d where gate: "runSolarGate env cr sr now ?chs c = (False, d)"
    using assms(4) by (metis (full_types) prod.collapse)
  have v: "view ?k d = view ?k c" and g: "grown c d"
    using gate_view(1)[of ?k env cr sr now ?chs c] gate_view(2)[of c env cr sr now ?chs] gate by simp_all
  have sample: "fst (collectMeterSample now d) = ?s"
    using v by (simp add: collectMeterSample_def view_def settings_of_def Let_def)
  have over: "\<not> IsManualOverride ?k d" using v assms(8) by (simp add: view_def settings_of_def IsManualOverride_def Let_def)
  have last: "ctl_lastSetAmps d (connector_key ?k n) = ctl_lastSetAmps c (connector_key ?k n)" for n
    using v unfolding view_def Let_def by (metis (no_types, lifting) prod.inject)
  have tick: "tick env cr sr now c =
      fold (\<lambda>ch c. if \<not> ch_Online ch then c else processCharger env cr sr now ?s ch c) ?chs d"
    using assms(2,3) unfolding tick_def ListChargers_def sum.case gate prod.case bool.case Let_def sample by simp
  have lim: "limit_for ?k ?s d = limit_for ?k ?s c" using v by (rule limit_for_view)
  show ?thesis
    unfolding Let_def tick
    using chargers_set_limit[OF assms(1,5,6,7) over assms(9), of sr now ?s]
      chargers_send_limit[OF assms(5,6,7) over assms(9), of ?s env sr now] extended_by_grown(1)[OF g]
    unfolding lim last by blast
qed

text \<open>A charger at home, with solar power for ten amperes.\<close>

definition sunny :: energy where
  "sunny = HassEnergySource ((NewEnergySource \<lparr>ha_GridEntityID = ''g'', ha_SolarEntityID = ''s'',
     ha_ConsumptionEntityID = '''', ha_Token = ''''\<rparr>)\<lparr>es_solar := 2300, es_gridAt := 1, es_solarAt := 1\<rparr>)"

definition one_charger :: charger where
  "one_charger = \<lparr>ch_ID = ''a'', ch_Vendor = ''ABB'', ch_Model = '''', ch_FirmwareVersion = '''',
     ch_SerialNumber = '''', ch_Online = True\<rparr>"

definition charging_at :: "int \<Rightarrow> connector" where
  "charging_at n = \<lparr>cn_ChargerID = ''a'', cn_ConnectorID = n, cn_Status = ''Charging'', cn_ErrorCode = '''', cn_Info = ''''\<rparr>"

definition home :: "connector list \<Rightarrow> charger_repo" where
  "home conns = \<lparr>cr_chargers = [(''a'', one_charger)], cr_connectors = Map.empty(''a'' \<mapsto> conns)\<rparr>"

definition willing :: env where
  "willing = \<lparr>ev_answer = \<lambda>_ _. Confirmed ''Accepted'' 0, ev_now = \<lambda>_. 0\<rparr>"

definition sunny_controller :: controller where
  "sunny_controller = NewController NewCommander sunny True (NewCalculator 6 32 230) 6 (60 * second)"

theorem tick_applies_limits_witness:
  "LastSetAmps ''a'' 1 (tick willing (home [charging_at 1]) [] 2 sunny_controller) = 10 \<and>
   extended_by (profile_for ''a'' 1 10) sunny_controller (tick willing (home [charging_at 1]) [] 2 sunny_controller)"
proof -
  have "ctl_enabled sunny_controller \<and> \<not> is_stale 2 (ctl_staleTimeout sunny_controller) (ctl_energySource sunny_controller) \<and>
      \<not> fst (runSolarGate willing (home [charging_at 1]) [] 2 (vals_of (cr_chargers (home [charging_at 1]))) sunny_controller) \<and>
      limit_for ''a'' (fst (collectMeterSample 2 sunny_controller)) sunny_controller = 10 \<and>
      ctl_lastSetAmps sunny_controller (connector_key ''a'' 1) = None \<and>
      \<not> IsManualOverride ''a'' sunny_controller" by code_simp
  moreover have "filter controlled (conns_of (home [charging_at 1]) ''a'') = [charging_at 1]" by code_simp
  moreover have "all_accepted willing" by (simp add: all_accepted_def willing_def)
  ultimately show ?thesis
    using tick_applies_limits[of willing sunny_controller 2 "home [charging_at 1]" "[]" one_charger "charging_at 1"]
    by (simp add: home_def one_charger_def charging_at_def Let_def)
qed

text \<open>The calculator counts the observations of a charger, and a tick makes one for each of its controlled
  connectors: with two of them, the first connector stops in the second tick of low production, whose
  observation is the third, while a charger with one connector stops in the third tick.\<close>

lemma one_observation_per_connector:
  assumes "\<not> IsManualOverride (ch_ID ch) c"
  shows "ctl_calc (processCharger env cr sr now s ch c) =
    compute_run (replicate (length (filter controlled (conns_of cr (ch_ID ch)))) (ch_ID ch, s)) (ctl_calc c)"
proof -
  have conn: "ctl_calc (processConnector env sr now ch s conn d) = fst (Compute (ch_ID ch) s (ctl_calc d))" for conn d
    by (simp add: processConnector_def split_beta Let_def)
  have "ctl_calc (fold (processConnector env sr now ch s) conns d) =
      compute_run (replicate (length conns) (ch_ID ch, s)) (ctl_calc d)" for conns d
    by (induction conns arbitrary: d) (simp_all add: conn)
  then show ?thesis using assms by (simp add: processCharger_def ListConnectors_def fold_filter)
qed

lemma debounce_counts_connectors:
  "let dark = \<lparr>ms_GridPowerW = 500, ms_SolarPowerW = 0, ms_ConsumptionPowerW = 0\<rparr>;
       stops = (\<lambda>n. pr_ShouldStop (snd (Compute ''a'' dark (compute_run (replicate n (''a'', dark)) (NewCalculator 6 32 230)))))
   in \<not> stops 1 \<and> stops 2"
  by code_simp

end
