(* ===== verification/Handler.thy ===== *)
theory Handler
  imports Router Effects
begin

section \<open>Handler: the OCPP requests of the charge points\<close>

text \<open>
  \<open>internal/adapter/outbound/ocpp/handler.go\<close>. One definition per request handler, each with every
  repository update, relay forward, publication and event in the order of the code. What a handler
  takes from outside comes in \<open>reads\<close>: its clock readings, the fresh uuid, the random bytes, and the
  relay's network. Optional collaborators that may be nil are flags of the state. \<open>hd_trace\<close> lists the
  calls on the outbound ports, oldest first. The context timeouts never fire with the in-memory
  stores and are left out, as is logging.
\<close>

subsection \<open>State\<close>

record reads =
  rd_now :: time                    \<comment> \<open>the clock, but for samples without a timestamp\<close>
  rd_sampled :: "nat \<Rightarrow> time"       \<comment> \<open>the clock when the i-th meter value is read\<close>
  rd_uuid :: string
  rd_random :: "nat list"           \<comment> \<open>four bytes\<close>
  rd_net :: relay_net

record handler =
  hd_router :: router
  hd_chargers :: charger_repo
  hd_sessions :: session_repo
  hd_meters :: meter_repo
  hd_proxy :: "proxy_repo option"
  hd_minAmps :: int
  hd_maxAmps :: int
  hd_activeConns :: int
  hd_hasDiscovery :: bool
  hd_hasRelayHook :: bool
  hd_hasBroadcaster :: bool
  hd_hasBroker :: bool
  hd_hasEmitter :: bool
  hd_hasOverrideClearer :: bool
  hd_hasMetrics :: bool
  hd_trace :: "effect list"

definition NewHandler ::
  "router \<Rightarrow> charger_repo \<Rightarrow> session_repo \<Rightarrow> meter_repo \<Rightarrow> proxy_repo option \<Rightarrow> bool \<Rightarrow> bool \<Rightarrow>
     int \<Rightarrow> int \<Rightarrow> bool \<Rightarrow> handler"
where
  "NewHandler router cr sr mr pr discovery relayHook minAmps maxAmps metrics =
     \<lparr>hd_router = router, hd_chargers = cr, hd_sessions = sr, hd_meters = mr, hd_proxy = pr,
      hd_minAmps = minAmps, hd_maxAmps = maxAmps, hd_activeConns = 0, hd_hasDiscovery = discovery,
      hd_hasRelayHook = relayHook, hd_hasBroadcaster = False, hd_hasBroker = False,
      hd_hasEmitter = False, hd_hasOverrideClearer = False, hd_hasMetrics = metrics, hd_trace = []\<rparr>"

definition SetOverrideClearer :: "handler \<Rightarrow> handler" where
  "SetOverrideClearer h = h\<lparr>hd_hasOverrideClearer := True\<rparr>"

definition SetLiveBroadcaster :: "handler \<Rightarrow> handler" where
  "SetLiveBroadcaster h = h\<lparr>hd_hasBroadcaster := True\<rparr>"

definition SetOcppBroker :: "handler \<Rightarrow> handler" where
  "SetOcppBroker h = h\<lparr>hd_hasBroker := True\<rparr>"

definition SetMinMax :: "int \<Rightarrow> int \<Rightarrow> handler \<Rightarrow> handler" where
  "SetMinMax minAmps maxAmps h = h\<lparr>hd_minAmps := minAmps, hd_maxAmps := maxAmps\<rparr>"

definition getAmpBounds :: "handler \<Rightarrow> int \<times> int" where
  "getAmpBounds h = (hd_minAmps h, hd_maxAmps h)"

definition SetHandlerEmitter :: "handler \<Rightarrow> handler" where
  "SetHandlerEmitter h = h\<lparr>hd_hasEmitter := True\<rparr>"

definition note_ev :: "effect \<Rightarrow> handler \<Rightarrow> handler" where
  "note_ev eff h = h\<lparr>hd_trace := hd_trace h @ [eff]\<rparr>"

definition note_if :: "bool \<Rightarrow> effect \<Rightarrow> handler \<Rightarrow> handler" where
  "note_if b eff h = (if b then note_ev eff h else h)"

definition emit :: "csms_event \<Rightarrow> handler \<Rightarrow> handler" where
  "emit ev h = note_if (hd_hasEmitter h) (EmitEvent ev) h"

definition recordInbound :: "string \<Rightarrow> handler \<Rightarrow> handler" where
  "recordInbound msgType h = note_if (hd_hasMetrics h) (RecordInbound msgType) h"

definition publishOcppMessage :: "charger_id \<Rightarrow> string \<Rightarrow> string \<Rightarrow> int \<Rightarrow> handler \<Rightarrow> handler" where
  "publishOcppMessage k direction action connector h =
     note_if (hd_hasBroker h)
       (BrokerAdd k direction action (if connector > 0 then Some connector else None)) h"

definition proxy_of :: "handler \<Rightarrow> proxy_repo" where
  "proxy_of h = (case hd_proxy h of None \<Rightarrow> Map.empty | Some r \<Rightarrow> r)"

definition isProxyEnabled :: "charger_id \<Rightarrow> handler \<Rightarrow> bool" where
  "isProxyEnabled k h =
     (case hd_proxy h of
        None \<Rightarrow> False
      | Some repo \<Rightarrow>
          (case GetProxyConfig k repo of
             Inl e \<Rightarrow> False
           | Inr None \<Rightarrow> False
           | Inr (Some cfg) \<Rightarrow> pc_ProxyEnabled cfg))"

definition publish_discovery :: "charger_id \<Rightarrow> charger \<Rightarrow> handler \<Rightarrow> handler" where
  "publish_discovery k c h =
     (let (mn, mx) = getAmpBounds h
      in note_if (hd_hasDiscovery h) (PublishDiscovery c mn mx (isProxyEnabled k h)) h)"

text \<open>A request first goes through its route and to the message broker.\<close>

definition routed ::
  "(router \<Rightarrow> RouteDecision \<times> router) \<Rightarrow> handler \<Rightarrow> handler" where
  "routed route h = h\<lparr>hd_router := snd (route (hd_router h))\<rparr>"

text \<open>The \<open>UpsertCharger\<close> and \<open>UpsertConnector\<close> calls, whose errors are only logged.\<close>

definition upsert_charger :: "charger \<Rightarrow> handler \<Rightarrow> handler" where
  "upsert_charger c h =
     (case UpsertCharger c (hd_chargers h) of Inl e \<Rightarrow> h | Inr r \<Rightarrow> h\<lparr>hd_chargers := r\<rparr>)"

definition upsert_connector :: "connector \<Rightarrow> handler \<Rightarrow> handler" where
  "upsert_connector c h =
     (case UpsertConnector c (hd_chargers h) of Inl e \<Rightarrow> h | Inr r \<Rightarrow> h\<lparr>hd_chargers := r\<rparr>)"

subsection \<open>Confirmations\<close>

datatype confirmation =
    BootNotificationConfirmation time int string
  | AuthorizeConfirmation string
  | DataTransferConfirmation string
  | HeartbeatConfirmation time
  | StatusNotificationConfirmation
  | MeterValuesConfirmation
  | StartTransactionConfirmation string int
  | StopTransactionConfirmation

subsection \<open>Boot, authorize, data transfer, heartbeat, status\<close>

definition OnBootNotification ::
  "reads \<Rightarrow> charger_id \<Rightarrow> boot_request \<Rightarrow> handler \<Rightarrow> confirmation \<times> handler" where
  "OnBootNotification rd k req h =
     (let h = routed (RouteBootNotification (rd_net rd) (proxy_of h) (rd_now rd) k req) h;
          h = publishOcppMessage k ''inbound'' ''BootNotification'' 0 h;
          c = \<lparr>ch_ID = k, ch_Vendor = bn_ChargePointVendor req, ch_Model = bn_ChargePointModel req,
               ch_FirmwareVersion = bn_FirmwareVersion req,
               ch_SerialNumber = bn_ChargePointSerialNumber req, ch_Online = True\<rparr>;
          h = upsert_charger c h;
          h = publish_discovery k c h;
          h = recordInbound ''BootNotification'' h;
          h = emit (ChargerConnected (rd_now rd) k (bn_ChargePointVendor req) (bn_ChargePointModel req)
                (bn_FirmwareVersion req) (bn_ChargePointSerialNumber req)) h
      in (BootNotificationConfirmation (rd_now rd) 60 ''Accepted'', h))"

definition OnAuthorize ::
  "reads \<Rightarrow> charger_id \<Rightarrow> string \<Rightarrow> handler \<Rightarrow> confirmation \<times> handler" where
  "OnAuthorize rd k idTag h =
     (let h = routed (RouteAuthorize (rd_net rd) (proxy_of h) (rd_now rd) k idTag) h;
          h = publishOcppMessage k ''inbound'' ''Authorize'' 0 h;
          h = recordInbound ''Authorize'' h
      in (AuthorizeConfirmation ''Accepted'', h))"

definition OnDataTransfer ::
  "reads \<Rightarrow> charger_id \<Rightarrow> string \<Rightarrow> handler \<Rightarrow> confirmation \<times> handler" where
  "OnDataTransfer rd k vendor h =
     (let h = routed (RouteDataTransfer (rd_net rd) (proxy_of h) (rd_now rd) k vendor) h;
          h = publishOcppMessage k ''inbound'' ''DataTransfer'' 0 h;
          h = recordInbound ''DataTransfer'' h
      in (DataTransferConfirmation ''Accepted'', h))"

definition OnHeartbeat :: "reads \<Rightarrow> charger_id \<Rightarrow> handler \<Rightarrow> confirmation \<times> handler" where
  "OnHeartbeat rd k h =
     (let h = routed (RouteHeartbeat (rd_net rd) (proxy_of h) (rd_now rd) k) h;
          h = publishOcppMessage k ''inbound'' ''Heartbeat'' 0 h;
          h = recordInbound ''Heartbeat'' h
      in (HeartbeatConfirmation (rd_now rd), h))"

definition OnStatusNotification ::
  "reads \<Rightarrow> charger_id \<Rightarrow> status_request \<Rightarrow> handler \<Rightarrow> confirmation \<times> handler" where
  "OnStatusNotification rd k req h =
     (let h = routed (RouteStatusNotification (rd_net rd) (proxy_of h) (rd_now rd) k req) h;
          h = publishOcppMessage k ''inbound'' ''StatusNotification'' (sn_ConnectorId req) h;
          status = sn_Status req;
          conn = \<lparr>cn_ChargerID = k, cn_ConnectorID = sn_ConnectorId req, cn_Status = status,
                  cn_ErrorCode = sn_ErrorCode req, cn_Info = sn_Info req\<rparr>;
          h = upsert_connector conn h;
          h = note_ev (PublishChargerStatus k status) h;
          h = note_if (hd_hasBroadcaster h) (BroadcastStatus k status) h;
          h = note_ev (PublishChargingState k (status = StatusCharging)) h;
          h = recordInbound ''StatusNotification'' h;
          h = emit (StatusChanged (rd_now rd) k (sn_ConnectorId req) status (sn_ErrorCode req)) h
      in (StatusNotificationConfirmation, h))"

subsection \<open>Meter values\<close>

definition findSessionUUID :: "charger_id \<Rightarrow> int \<Rightarrow> handler \<Rightarrow> string option" where
  "findSessionUUID k txID h =
     (case GetSessionByTransactionID k txID (hd_sessions h) of
        Inl e \<Rightarrow> None
      | Inr None \<Rightarrow> None
      | Inr (Some active) \<Rightarrow> Some (se_ID active))"

definition parseSampledValue ::
  "sampled_value \<Rightarrow> charger_id \<Rightarrow> int \<Rightarrow> string \<Rightarrow> time \<Rightarrow>
     meter_value list \<times> float64 \<times> float64 \<times> float64"
where
  "parseSampledValue sv k connectorID sessionID ts =
     (case ParseFloat (sv_Value sv) of
        None \<Rightarrow> ([], Fin 0, Fin 0, Fin 0)
      | Some val \<Rightarrow>
          (let measurand = (if sv_Measurand sv = '''' then ''Energy.Active.Import.Register'' else sv_Measurand sv);
               mv = \<lparr>mv_ChargerID = k, mv_ConnectorID = connectorID, mv_SessionID = sessionID,
                     mv_Timestamp = ts, mv_Measurand = measurand, mv_Value = val,
                     mv_Unit = sv_Unit sv, mv_Phase = sv_Phase sv\<rparr>;
               powerKW = (if measurand = ''Power.Active.Import'' then
                            if sv_Unit sv = ''W'' \<or> sv_Unit sv = '''' then flt_scale (1 / 1000) val
                            else if sv_Unit sv = ''kW'' then val else Fin 0
                          else Fin 0);
               energyWh = (if measurand = ''Energy.Active.Import.Register'' then
                             if sv_Unit sv = ''Wh'' \<or> sv_Unit sv = '''' then val
                             else if sv_Unit sv = ''kWh'' then flt_scale 1000 val else Fin 0
                           else Fin 0);
               currentA = (if measurand = ''Current.Import'' then val else Fin 0)
           in ([mv], powerKW, energyWh, currentA)))"

text \<open>The accumulators of the two loops over the meter values and their samples.\<close>

record totals =
  to_meterValues :: "meter_value list"
  to_powerKW :: float64
  to_energyWh :: float64
  to_currentA :: float64

definition add_sample ::
  "charger_id \<Rightarrow> int \<Rightarrow> string \<Rightarrow> time \<Rightarrow> sampled_value \<Rightarrow> totals \<Rightarrow> totals" where
  "add_sample k connectorID sessionID ts sv t =
     (let (mvals, pwr, enrg, amps) = parseSampledValue sv k connectorID sessionID ts in
      \<lparr>to_meterValues = to_meterValues t @ mvals,
       to_powerKW = (if flt_pos pwr then pwr else to_powerKW t),
       to_energyWh = (if flt_pos enrg then enrg else to_energyWh t),
       to_currentA = (if flt_pos amps then amps else to_currentA t)\<rparr>)"

definition no_totals :: totals where
  "no_totals = \<lparr>to_meterValues = [], to_powerKW = Fin 0, to_energyWh = Fin 0, to_currentA = Fin 0\<rparr>"

definition read_samples ::
  "reads \<Rightarrow> charger_id \<Rightarrow> string \<Rightarrow> meter_request \<Rightarrow> totals" where
  "read_samples rd k sessionID req =
     fold (\<lambda>(i, mv) t.
         let ts = (case om_Timestamp mv of Some ts \<Rightarrow> ts | None \<Rightarrow> rd_sampled rd i)
         in fold (add_sample k (mr_ConnectorId req) sessionID ts) (om_SampledValue mv) t)
       (enumerate 0 (mr_MeterValue req)) no_totals"

text \<open>The session the values belong to: the one of the transaction, recovered when there is none.\<close>

definition recover_session ::
  "reads \<Rightarrow> charger_id \<Rightarrow> int \<Rightarrow> int \<Rightarrow> handler \<Rightarrow> string \<times> handler" where
  "recover_session rd k connectorID txID h =
     (case GetSessionByTransactionID k txID (hd_sessions h) of
        Inr (Some existing) \<Rightarrow> (se_ID existing, h)
      | _ \<Rightarrow>
          (let recovered = \<lparr>se_ID = rd_uuid rd, se_TransactionID = txID, se_ChargerID = k,
                 se_ConnectorID = connectorID, se_IDTag = ''recovered'', se_MeterStartWh = Fin 0,
                 se_MeterStopWh = None, se_StartedAt = rd_now rd, se_StoppedAt = None, se_StopReason = ''''\<rparr>
           in case CreateSession (rd_now rd) recovered (hd_sessions h) of
                Inl e \<Rightarrow> ('''', h)
              | Inr r \<Rightarrow>
                  (let h = h\<lparr>hd_sessions := r\<rparr>;
                       h = upsert_connector \<lparr>cn_ChargerID = k, cn_ConnectorID = connectorID,
                             cn_Status = StatusCharging, cn_ErrorCode = '''', cn_Info = ''''\<rparr> h;
                       h = note_ev (PublishChargerStatus k StatusCharging) h;
                       h = note_ev (PublishChargingState k True) h;
                       h = emit (TransactionStarted (rd_now rd) txID k ''recovered'' connectorID (Fin 0)) h
                   in (rd_uuid rd, h))))"

definition session_for ::
  "reads \<Rightarrow> charger_id \<Rightarrow> meter_request \<Rightarrow> handler \<Rightarrow> string \<times> handler" where
  "session_for rd k req h =
     (case mr_TransactionId req of
        None \<Rightarrow> ('''', h)
      | Some txID \<Rightarrow>
          (let sessionID = (case findSessionUUID k txID h of Some sid \<Rightarrow> sid | None \<Rightarrow> '''')
           in if sessionID = '''' then recover_session rd k (mr_ConnectorId req) txID h
              else (sessionID, h)))"

text \<open>What the totals are published as.\<close>

definition publish_totals ::
  "charger_id \<Rightarrow> string \<Rightarrow> totals \<Rightarrow> handler \<Rightarrow> handler" where
  "publish_totals k sessionID t h =
     (let power = to_powerKW t; energy = to_energyWh t;
          h = note_if (flt_pos power \<or> flt_pos energy) (PublishChargerPower k power) h;
          h = note_if (flt_pos energy) (PublishSessionEnergy k (flt_scale (1 / 1000) energy)) h;
          h = (if flt_pos energy \<and> sessionID \<noteq> '''' then
                 (case GetSession sessionID (hd_sessions h) of
                    Inl e \<Rightarrow> h
                  | Inr s \<Rightarrow>
                      note_if (flt_less (se_MeterStartWh s) energy)
                        (PublishChargingEnergy k (flt_scale (1 / 1000) (flt_sub energy (se_MeterStartWh s)))) h)
               else h);
          h = note_if (hd_hasMetrics h \<and> flt_pos power) (RecordChargePowerWatts k (flt_scale 1000 power)) h
      in note_if (hd_hasBroadcaster h \<and> (flt_pos power \<or> flt_pos energy \<or> flt_pos (to_currentA t)))
           (BroadcastMeter k (flt_scale 1000 power) (flt_scale (1 / 1000) energy) (to_currentA t)) h)"

definition OnMeterValues ::
  "reads \<Rightarrow> charger_id \<Rightarrow> meter_request \<Rightarrow> handler \<Rightarrow> confirmation \<times> handler" where
  "OnMeterValues rd k req h =
     (let h = routed (RouteMeterValues (rd_net rd) (proxy_of h) (rd_now rd) k req) h;
          h = publishOcppMessage k ''inbound'' ''MeterValues'' (mr_ConnectorId req) h;
          (sessionID, h) = session_for rd k req h;
          t = read_samples rd k sessionID req;
          h = (if to_meterValues t \<noteq> [] then
                 (case StoreMeterValues (to_meterValues t) (hd_meters h) of
                    Inl e \<Rightarrow> h | Inr r \<Rightarrow> h\<lparr>hd_meters := r\<rparr>)
               else h);
          h = publish_totals k sessionID t h;
          h = recordInbound ''MeterValues'' h;
          h = (if flt_pos (to_energyWh t)
               then emit (MeterValueEvent (rd_now rd)
                      (case mr_TransactionId req of Some txID \<Rightarrow> txID | None \<Rightarrow> 0) k
                      (mr_ConnectorId req) (to_energyWh t)) h
               else h)
      in (MeterValuesConfirmation, h))"

subsection \<open>Transactions\<close>

definition generateTxID :: "nat list \<Rightarrow> int" where
  "generateTxID bytes =
     (let v = int (fold (\<lambda>b acc. 256 * acc + b) bytes 0);
          v = (if v < 0 then - v else v);
          v = (if v = 0 then 1 else v);
          v = (if v > 2147483647 then v mod 2147483647 else v)
      in v)"

definition OnStartTransaction ::
  "reads \<Rightarrow> charger_id \<Rightarrow> start_request \<Rightarrow> handler \<Rightarrow> confirmation \<times> handler" where
  "OnStartTransaction rd k req h =
     (let h = routed (RouteStartTransaction (rd_net rd) (proxy_of h) (rd_now rd) k req) h;
          h = publishOcppMessage k ''inbound'' ''StartTransaction'' (st_ConnectorId req) h;
          txID = generateTxID (rd_random rd);
          s = \<lparr>se_ID = rd_uuid rd, se_TransactionID = txID, se_ChargerID = k,
               se_ConnectorID = st_ConnectorId req, se_IDTag = st_IdTag req,
               se_MeterStartWh = Fin (of_int (st_MeterStart req)), se_MeterStopWh = None,
               se_StartedAt = (case st_Timestamp req of Some ts \<Rightarrow> ts | None \<Rightarrow> rd_now rd),
               se_StoppedAt = None, se_StopReason = ''''\<rparr>;
          h = (case CreateSession (rd_now rd) s (hd_sessions h) of
                 Inl e \<Rightarrow> h
               | Inr r \<Rightarrow> note_if (hd_hasMetrics h) RecordSessionStart (h\<lparr>hd_sessions := r\<rparr>));
          h = recordInbound ''StartTransaction'' h;
          h = emit (TransactionStarted (rd_now rd) txID k (st_IdTag req) (st_ConnectorId req)
                (Fin (of_int (st_MeterStart req)))) h
      in (StartTransactionConfirmation ''Accepted'' txID, h))"

definition OnStopTransaction ::
  "reads \<Rightarrow> charger_id \<Rightarrow> stop_request \<Rightarrow> handler \<Rightarrow> confirmation \<times> handler" where
  "OnStopTransaction rd k req h =
     (let h = routed (RouteStopTransaction (rd_net rd) (proxy_of h) (rd_now rd) k req) h;
          h = publishOcppMessage k ''inbound'' ''StopTransaction'' 0 h;
          stopTime = (case sp_Timestamp req of Some ts \<Rightarrow> ts | None \<Rightarrow> rd_now rd);
          h = (case GetSessionByTransactionID k (sp_TransactionId req) (hd_sessions h) of
                 Inl e \<Rightarrow> h
               | Inr None \<Rightarrow> h
               | Inr (Some active) \<Rightarrow>
                   (let active = active\<lparr>se_MeterStopWh := Some (Fin (of_int (sp_MeterStop req))),
                          se_StoppedAt := Some stopTime, se_StopReason := sp_Reason req\<rparr>
                    in case UpdateSession active (hd_sessions h) of
                         Inl e \<Rightarrow> h
                       | Inr r \<Rightarrow> note_if (hd_hasMetrics h) RecordSessionStop (h\<lparr>hd_sessions := r\<rparr>)));
          h = recordInbound ''StopTransaction'' h;
          h = note_if (hd_hasOverrideClearer h) (ClearOverride k) h;
          h = emit (TransactionStopped (rd_now rd) (sp_TransactionId req) k (sp_Reason req)
                (Fin (of_int (sp_MeterStop req)))) h
      in (StopTransactionConfirmation, h))"

subsection \<open>Connection and disconnection\<close>

text \<open>The relay hook is the relay of the router; the no-op relay has no connections.\<close>

definition relay_hook_connect :: "reads \<Rightarrow> charger_id \<Rightarrow> handler \<Rightarrow> handler" where
  "relay_hook_connect rd k h =
     (if \<not> hd_hasRelayHook h then h
      else case ro_relay (hd_router h) of
        NoopRelay \<Rightarrow> h
      | UpstreamRelay r \<Rightarrow>
          h\<lparr>hd_router := (hd_router h)\<lparr>ro_relay :=
              UpstreamRelay (snd (Connect (rd_net rd) (proxy_of h) k r))\<rparr>\<rparr>)"

definition relay_hook_disconnect :: "charger_id \<Rightarrow> handler \<Rightarrow> handler" where
  "relay_hook_disconnect k h =
     (if \<not> hd_hasRelayHook h then h
      else case ro_relay (hd_router h) of
        NoopRelay \<Rightarrow> h
      | UpstreamRelay r \<Rightarrow>
          h\<lparr>hd_router := (hd_router h)\<lparr>ro_relay := UpstreamRelay (Disconnect k r)\<rparr>\<rparr>)"

definition OnConnect :: "reads \<Rightarrow> charger_id \<Rightarrow> handler \<Rightarrow> handler" where
  "OnConnect rd k h =
     (let h = h\<lparr>hd_activeConns := wrap32 (hd_activeConns h + 1)\<rparr>;
          h = note_if (hd_hasMetrics h) RecordChargerConnected h;
          h = (case MarkOnline k True (hd_chargers h) of
                 Inr r \<Rightarrow> h\<lparr>hd_chargers := r\<rparr>
               | Inl e \<Rightarrow>
                   upsert_charger \<lparr>ch_ID = k, ch_Vendor = '''', ch_Model = '''', ch_FirmwareVersion = '''',
                     ch_SerialNumber = '''', ch_Online = True\<rparr> h);
          h = note_ev (PublishChargerOnline k True) h;
          h = relay_hook_connect rd k h;
          h = (if hd_hasDiscovery h then
                 (case GetCharger k (hd_chargers h) of
                    Inl e \<Rightarrow> h
                  | Inr c \<Rightarrow> publish_discovery k c h)
               else h)
      in emit (ChargerConnected (rd_now rd) k '''' '''' '''' '''') h)"

definition OnDisconnect :: "reads \<Rightarrow> charger_id \<Rightarrow> handler \<Rightarrow> handler" where
  "OnDisconnect rd k h =
     (let h = note_if (hd_hasMetrics h) RecordChargerDisconnected h;
          h = note_if (hd_hasOverrideClearer h) (ClearOverride k) h;
          h = relay_hook_disconnect k h;
          h = (case MarkOnline k False (hd_chargers h) of
                 Inl e \<Rightarrow> h | Inr r \<Rightarrow> h\<lparr>hd_chargers := r\<rparr>);
          h = note_ev (PublishChargerOnline k False) h;
          h = emit (ChargerDisconnected (rd_now rd) k) h
      in h\<lparr>hd_activeConns := wrap32 (hd_activeConns h - 1)\<rparr>)"

text \<open>The polling loop of \<open>WaitForIdle\<close>: \<open>clock i\<close> is what the clock reads when the loop tests its
  condition for the i-th time, \<open>conns i\<close> the connection count read after that; \<open>None\<close> is never
  returning.\<close>

partial_function (option) wait_loop :: "time \<Rightarrow> (nat \<Rightarrow> time) \<Rightarrow> (nat \<Rightarrow> int) \<Rightarrow> nat \<Rightarrow> bool option" where
  "wait_loop deadline clock conns i =
     (if clock i < deadline
      then (if conns i = 0 then Some True else wait_loop deadline clock conns (Suc i))
      else Some (conns i = 0))"

definition WaitForIdle :: "duration \<Rightarrow> time \<Rightarrow> (nat \<Rightarrow> time) \<Rightarrow> (nat \<Rightarrow> int) \<Rightarrow> bool option" where
  "WaitForIdle timeout now clock conns = wait_loop (now + timeout) clock conns 0"

subsection \<open>Firmware versions\<close>

definition parseSemver :: "string \<Rightarrow> (int \<times> int \<times> int) option" where
  "parseSemver version =
     (let parts = SplitN (CHR ''.'') 4 version in
      if length parts < 3 then None
      else case Atoi (parts ! 0) of None \<Rightarrow> None | Some major \<Rightarrow>
        (case Atoi (parts ! 1) of None \<Rightarrow> None | Some minor \<Rightarrow>
          (let patchStr = takeWhile (\<lambda>c. \<not> (c < CHR ''0'' \<or> c > CHR ''9'')) (parts ! 2)
           in case Atoi patchStr of None \<Rightarrow> None | Some patch \<Rightarrow> Some (major, minor, patch))))"

definition isFirmwareBelowMin :: "string \<Rightarrow> int \<Rightarrow> int \<Rightarrow> int \<Rightarrow> bool" where
  "isFirmwareBelowMin version minMajor minMinor minPatch =
     (case parseSemver version of
        None \<Rightarrow> False
      | Some (major, minor, patch) \<Rightarrow>
          if major \<noteq> minMajor then major < minMajor
          else if minor \<noteq> minMinor then minor < minMinor
          else patch < minPatch)"

definition warnOldFirmware :: "string \<Rightarrow> bool" where
  "warnOldFirmware firmware = isFirmwareBelowMin firmware 1 8 32"

subsection \<open>The requests as one step\<close>

datatype inbound_event = Request ocpp_payload | Connected | Disconnected

text \<open>The dispatch of the OCPP server (\<open>server.go\<close>): the core profile and the connection callbacks.
  Other requests have no handler.\<close>

fun handle :: "reads \<Rightarrow> charger_id \<Rightarrow> inbound_event \<Rightarrow> handler \<Rightarrow> handler" where
  "handle rd k (Request (BootNotificationRequest req)) h = snd (OnBootNotification rd k req h)"
| "handle rd k (Request HeartbeatRequest) h = snd (OnHeartbeat rd k h)"
| "handle rd k (Request (AuthorizeRequest idTag)) h = snd (OnAuthorize rd k idTag h)"
| "handle rd k (Request (DataTransferRequest vendor)) h = snd (OnDataTransfer rd k vendor h)"
| "handle rd k (Request (StatusNotificationRequest req)) h = snd (OnStatusNotification rd k req h)"
| "handle rd k (Request (MeterValuesRequest req)) h = snd (OnMeterValues rd k req h)"
| "handle rd k (Request (StartTransactionRequest req)) h = snd (OnStartTransaction rd k req h)"
| "handle rd k (Request (StopTransactionRequest req)) h = snd (OnStopTransaction rd k req h)"
| "handle rd k Connected h = OnConnect rd k h"
| "handle rd k Disconnected h = OnDisconnect rd k h"
| "handle rd k (Request _) h = h"

lemmas handler_ops = OnBootNotification_def OnAuthorize_def OnDataTransfer_def OnHeartbeat_def
  OnStatusNotification_def OnMeterValues_def OnStartTransaction_def OnStopTransaction_def
  OnConnect_def OnDisconnect_def

text \<open>What the notes and the routes leave alone.\<close>

definition stores :: "handler \<Rightarrow> charger_repo \<times> session_repo \<times> meter_repo \<times> proxy_repo option" where
  "stores h = (hd_chargers h, hd_sessions h, hd_meters h, hd_proxy h)"

lemma note_frame [simp]:
  "stores (note_ev eff h) = stores h" "stores (note_if b eff h) = stores h"
  "stores (emit ev h) = stores h" "stores (recordInbound m h) = stores h"
  "stores (publishOcppMessage k d a n h) = stores h" "stores (routed rt h) = stores h"
  "stores (relay_hook_connect rd k h) = stores h" "stores (relay_hook_disconnect k h) = stores h"
  "stores (publish_totals k sid t h) = stores h" "stores (publish_discovery k c h) = stores h"
  "stores (h\<lparr>hd_activeConns := n\<rparr>) = stores h"
  by (auto simp: stores_def note_ev_def note_if_def emit_def recordInbound_def publishOcppMessage_def
      routed_def relay_hook_connect_def relay_hook_disconnect_def publish_totals_def Let_def
      publish_discovery_def getAmpBounds_def
      split: relay.splits sum.splits)

lemma stores_eq:
  assumes "stores h' = stores h"
  shows "hd_chargers h' = hd_chargers h" "hd_sessions h' = hd_sessions h" "hd_meters h' = hd_meters h"
    "hd_proxy h' = hd_proxy h"
  using assms by (simp_all add: stores_def)

lemmas note_stores [simp] = note_frame[THEN stores_eq(1)] note_frame[THEN stores_eq(2)]
  note_frame[THEN stores_eq(3)] note_frame[THEN stores_eq(4)]

subsection \<open>The local part\<close>

text \<open>The handler without its router: what local handling sees and changes.\<close>

definition local :: "handler \<Rightarrow> handler" where
  "local h = h\<lparr>hd_router := NewRouter DefaultPolicy NoopRelay\<rparr>"

lemma local_idem [simp]: "local (local h) = local h"
  by (simp add: local_def)

lemma local_fields [simp]:
  "hd_chargers (local h) = hd_chargers h" "hd_sessions (local h) = hd_sessions h"
  "hd_meters (local h) = hd_meters h" "hd_proxy (local h) = hd_proxy h"
  "hd_minAmps (local h) = hd_minAmps h" "hd_maxAmps (local h) = hd_maxAmps h"
  "hd_activeConns (local h) = hd_activeConns h" "hd_trace (local h) = hd_trace h"
  "hd_hasDiscovery (local h) = hd_hasDiscovery h" "hd_hasRelayHook (local h) = hd_hasRelayHook h"
  "hd_hasBroadcaster (local h) = hd_hasBroadcaster h" "hd_hasBroker (local h) = hd_hasBroker h"
  "hd_hasEmitter (local h) = hd_hasEmitter h" "hd_hasOverrideClearer (local h) = hd_hasOverrideClearer h"
  "hd_hasMetrics (local h) = hd_hasMetrics h"
  by (simp_all add: local_def)

lemma local_upd [simp]:
  "local (h\<lparr>hd_chargers := x1\<rparr>) = (local h)\<lparr>hd_chargers := x1\<rparr>"
  "local (h\<lparr>hd_sessions := x2\<rparr>) = (local h)\<lparr>hd_sessions := x2\<rparr>"
  "local (h\<lparr>hd_meters := x3\<rparr>) = (local h)\<lparr>hd_meters := x3\<rparr>"
  "local (h\<lparr>hd_activeConns := x4\<rparr>) = (local h)\<lparr>hd_activeConns := x4\<rparr>"
  "local (h\<lparr>hd_trace := x5\<rparr>) = (local h)\<lparr>hd_trace := x5\<rparr>"
  by (simp_all add: local_def)

lemma local_routed [simp]:
  "local (routed rt h) = local h" "local (relay_hook_connect rd k h) = local h"
  "local (relay_hook_disconnect k h) = local h"
  by (simp_all add: local_def routed_def relay_hook_connect_def relay_hook_disconnect_def split: relay.split)

lemma local_note [simp]:
  "local (note_ev eff h) = note_ev eff (local h)"
  "local (note_if b eff h) = note_if b eff (local h)"
  "local (emit ev h) = emit ev (local h)"
  "local (recordInbound m h) = recordInbound m (local h)"
  "local (publishOcppMessage k d a n h) = publishOcppMessage k d a n (local h)"
  "local (upsert_charger c h) = upsert_charger c (local h)"
  "local (upsert_connector conn h) = upsert_connector conn (local h)"
  "local (publish_discovery k' ch h) = publish_discovery k' ch (local h)"
  by (simp_all add: publish_discovery_def getAmpBounds_def isProxyEnabled_def note_ev_def note_if_def emit_def recordInbound_def publishOcppMessage_def
      upsert_charger_def upsert_connector_def split: sum.split)

text \<open>The flags and settings that notes and routes keep.\<close>

definition wiring :: "handler \<Rightarrow> int \<times> int \<times> bool list" where
  "wiring h = (hd_minAmps h, hd_maxAmps h, [hd_hasDiscovery h, hd_hasRelayHook h, hd_hasBroadcaster h,
     hd_hasBroker h, hd_hasEmitter h, hd_hasOverrideClearer h, hd_hasMetrics h])"

lemma wiring_frame [simp]:
  "wiring (note_ev eff h) = wiring h" "wiring (note_if b eff h) = wiring h"
  "wiring (emit ev h) = wiring h" "wiring (recordInbound m h) = wiring h"
  "wiring (publishOcppMessage k d a n h) = wiring h" "wiring (routed rt h) = wiring h"
  "wiring (upsert_charger c h) = wiring h" "wiring (upsert_connector conn h) = wiring h"
  "wiring (relay_hook_connect rd k h) = wiring h" "wiring (relay_hook_disconnect k h) = wiring h"
  "wiring (publish_discovery k ch h) = wiring h"
  by (auto simp: publish_discovery_def getAmpBounds_def wiring_def note_ev_def note_if_def emit_def recordInbound_def publishOcppMessage_def
      routed_def upsert_charger_def upsert_connector_def relay_hook_connect_def relay_hook_disconnect_def
      split: sum.split relay.split)

lemma wiring_eq:
  assumes "wiring h' = wiring h"
  shows "hd_minAmps h' = hd_minAmps h" "hd_maxAmps h' = hd_maxAmps h"
    "hd_hasDiscovery h' = hd_hasDiscovery h" "hd_hasRelayHook h' = hd_hasRelayHook h"
    "hd_hasBroadcaster h' = hd_hasBroadcaster h" "hd_hasBroker h' = hd_hasBroker h"
    "hd_hasEmitter h' = hd_hasEmitter h" "hd_hasOverrideClearer h' = hd_hasOverrideClearer h"
    "hd_hasMetrics h' = hd_hasMetrics h"
  using assms by (simp_all add: wiring_def)

lemmas note_wiring [simp] = wiring_frame[THEN wiring_eq(1)] wiring_frame[THEN wiring_eq(2)]
  wiring_frame[THEN wiring_eq(3)] wiring_frame[THEN wiring_eq(4)] wiring_frame[THEN wiring_eq(5)]
  wiring_frame[THEN wiring_eq(6)] wiring_frame[THEN wiring_eq(7)] wiring_frame[THEN wiring_eq(8)]
  wiring_frame[THEN wiring_eq(9)]

lemma conns_frame [simp]:
  "hd_activeConns (note_ev eff h) = hd_activeConns h" "hd_activeConns (note_if b eff h) = hd_activeConns h"
  "hd_activeConns (emit ev h) = hd_activeConns h"
  "hd_activeConns (relay_hook_disconnect k h) = hd_activeConns h"
  by (auto simp: note_ev_def note_if_def emit_def relay_hook_disconnect_def split: relay.split)

lemma upsert_chargers [simp]:
  "hd_chargers (upsert_charger c h) = (hd_chargers h)\<lparr>cr_chargers := AList.update (ch_ID c) c (cr_chargers (hd_chargers h))\<rparr>"
  "hd_chargers (upsert_connector conn h) = (hd_chargers h)\<lparr>cr_connectors :=
     (cr_connectors (hd_chargers h))(cn_ChargerID conn \<mapsto> upsert_conn conn (conns_of (hd_chargers h) (cn_ChargerID conn)))\<rparr>"
  by (simp_all add: upsert_charger_def UpsertCharger_def upsert_connector_def UpsertConnector_def)

lemma upsert_proxy [simp]:
  "hd_proxy (upsert_charger c h) = hd_proxy h" "hd_proxy (upsert_connector conn h) = hd_proxy h"
  "hd_sessions (upsert_charger c h) = hd_sessions h" "hd_sessions (upsert_connector conn h) = hd_sessions h"
  "hd_meters (upsert_charger c h) = hd_meters h" "hd_meters (upsert_connector conn h) = hd_meters h"
  by (simp_all add: upsert_charger_def upsert_connector_def split: sum.split)

lemma isProxyEnabled_cong: "hd_proxy h' = hd_proxy h \<Longrightarrow> isProxyEnabled k h' = isProxyEnabled k h"
  by (simp add: isProxyEnabled_def)

lemma findSessionUUID_cong: "hd_sessions h' = hd_sessions h \<Longrightarrow> findSessionUUID k t h' = findSessionUUID k t h"
  by (simp add: findSessionUUID_def)

lemma getAmpBounds_local [simp]: "getAmpBounds (local h) = getAmpBounds h"
  by (simp add: getAmpBounds_def)

lemma isProxyEnabled_local [simp]: "isProxyEnabled k (local h) = isProxyEnabled k h"
  by (simp add: isProxyEnabled_def)

lemma recover_session_local:
  "fst (recover_session rd k n t (local h)) = fst (recover_session rd k n t h) \<and>
   snd (recover_session rd k n t (local h)) = local (snd (recover_session rd k n t h))"
  by (auto simp: recover_session_def Let_def split: sum.split option.split)

lemma session_for_local:
  "fst (session_for rd k req (local h)) = fst (session_for rd k req h) \<and>
   snd (session_for rd k req (local h)) = local (snd (session_for rd k req h))"
  using recover_session_local
  by (auto simp: session_for_def Let_def findSessionUUID_def split: option.split)

lemma publish_totals_local: "publish_totals k sid t (local h) = local (publish_totals k sid t h)"
  by (auto simp: publish_totals_def Let_def split: sum.split)

lemma simple_local:
  "local (snd (OnAuthorize rd k tag (local h))) = local (snd (OnAuthorize rd k tag h))"
  "local (snd (OnDataTransfer rd k v (local h))) = local (snd (OnDataTransfer rd k v h))"
  "local (snd (OnHeartbeat rd k (local h))) = local (snd (OnHeartbeat rd k h))"
  "local (snd (OnStatusNotification rd k req (local h))) = local (snd (OnStatusNotification rd k req h))"
  by (simp_all add: handler_ops Let_def)

lemma boot_local:
  "local (snd (OnBootNotification rd k req (local h))) = local (snd (OnBootNotification rd k req h))"
  by (simp add: OnBootNotification_def Let_def)

lemma start_local:
  "local (snd (OnStartTransaction rd k req (local h))) = local (snd (OnStartTransaction rd k req h))"
  by (simp add: OnStartTransaction_def Let_def split: sum.split)

lemma stop_local:
  "local (snd (OnStopTransaction rd k req (local h))) = local (snd (OnStopTransaction rd k req h))"
  by (simp add: OnStopTransaction_def Let_def GetSessionByTransactionID_def split: sum.split option.split)

lemma connect_local: "local (OnConnect rd k (local h)) = local (OnConnect rd k h)"
  by (simp add: OnConnect_def Let_def split: sum.split)

lemma disconnect_local: "local (OnDisconnect rd k (local h)) = local (OnDisconnect rd k h)"
  by (simp add: OnDisconnect_def Let_def split: sum.split)

lemma meter_local:
  "local (snd (OnMeterValues rd k req (local h))) = local (snd (OnMeterValues rd k req h))"
proof -
  let ?n = "\<lambda>h. publishOcppMessage k ''inbound'' ''MeterValues'' (mr_ConnectorId req)
      (routed (RouteMeterValues (rd_net rd) (proxy_of h) (rd_now rd) k req) h)"
  obtain sid h1 where 1: "session_for rd k req (?n h) = (sid, h1)" by fastforce
  obtain sid' h2 where 2: "session_for rd k req (?n (local h)) = (sid', h2)" by fastforce
  have "sid' = sid" "local h2 = local h1"
    using session_for_local[of rd k req "?n h"] session_for_local[of rd k req "?n (local h)"] 1 2 by simp_all
  moreover have "local (snd (OnMeterValues rd k req g)) =
      local (let t = read_samples rd k s req;
          h = (if to_meterValues t \<noteq> [] then
                 (case StoreMeterValues (to_meterValues t) (hd_meters (local g1)) of
                    Inl e \<Rightarrow> local g1 | Inr r \<Rightarrow> (local g1)\<lparr>hd_meters := r\<rparr>)
               else local g1);
          h = publish_totals k s t h;
          h = recordInbound ''MeterValues'' h
      in (if flt_pos (to_energyWh t)
               then emit (MeterValueEvent (rd_now rd)
                      (case mr_TransactionId req of Some txID \<Rightarrow> txID | None \<Rightarrow> 0) k
                      (mr_ConnectorId req) (to_energyWh t)) h
               else h))"
    if "session_for rd k req (?n g) = (s, g1)" for g s g1
    by (simp add: OnMeterValues_def that Let_def StoreMeterValues_def publish_totals_local[symmetric])
  ultimately show ?thesis using 1 2 by metis
qed

lemma handle_local: "local (handle rd k ev (local h)) = local (handle rd k ev h)"
proof (cases ev)
  case (Request p)
  then show ?thesis by (cases p) (simp_all add: simple_local boot_local start_local stop_local meter_local)
qed (simp_all add: connect_local disconnect_local)

type_synonym handler_history = "(reads \<times> charger_id \<times> inbound_event) list"

definition run_handler :: "handler_history \<Rightarrow> handler \<Rightarrow> handler" where
  "run_handler evs h = fold (\<lambda>(rd, k, ev). handle rd k ev) evs h"

lemma run_handler_local: "local h = local h' \<Longrightarrow> local (run_handler evs h) = local (run_handler evs h')"
proof (induction evs arbitrary: h h')
  case (Cons e evs)
  obtain rd k ev where e: "e = (rd, k, ev)" by (cases e)
  have "local (handle rd k ev h) = local (handle rd k ev h')"
    using handle_local[of rd k ev h] handle_local[of rd k ev h'] Cons.prems by simp
  from Cons.IH[OF this] show ?case by (simp add: run_handler_def e)
qed (simp add: run_handler_def)

end
