(* ===== verification/HandlerLaws.thy ===== *)
theory HandlerLaws
  imports Handler
begin

section \<open>Handler: what the request handlers guarantee\<close>

text \<open>
  The handler's operations on its stores, one lemma per request; the invariant of the stores and its
  preservation; the life of a transaction from start to stop; session recovery; transaction ids and
  firmware versions; and that local handling does not depend on the routing policy or the relay.
\<close>

subsection \<open>The stores after each request\<close>

lemma stores_upsert [simp]:
  "stores (upsert_charger c h) =
     ((hd_chargers h)\<lparr>cr_chargers := AList.update (ch_ID c) c (cr_chargers (hd_chargers h))\<rparr>,
      hd_sessions h, hd_meters h, hd_proxy h)"
  "stores (upsert_connector conn h) =
     ((hd_chargers h)\<lparr>cr_connectors := (cr_connectors (hd_chargers h))(cn_ChargerID conn \<mapsto>
        upsert_conn conn (conns_of (hd_chargers h) (cn_ChargerID conn)))\<rparr>,
      hd_sessions h, hd_meters h, hd_proxy h)"
  by (simp_all add: stores_def)

lemma quiet_stores [simp]:
  "stores (snd (OnAuthorize rd k tag h)) = stores h"
  "stores (snd (OnDataTransfer rd k v h)) = stores h"
  "stores (snd (OnHeartbeat rd k h)) = stores h"
  by (simp_all add: handler_ops Let_def)

lemma boot_stores:
  "stores (snd (OnBootNotification rd k req h)) =
     ((hd_chargers h)\<lparr>cr_chargers := AList.update k
        \<lparr>ch_ID = k, ch_Vendor = bn_ChargePointVendor req, ch_Model = bn_ChargePointModel req,
         ch_FirmwareVersion = bn_FirmwareVersion req, ch_SerialNumber = bn_ChargePointSerialNumber req,
         ch_Online = True\<rparr> (cr_chargers (hd_chargers h))\<rparr>,
      hd_sessions h, hd_meters h, hd_proxy h)"
  by (simp add: OnBootNotification_def Let_def)

lemma status_stores:
  "stores (snd (OnStatusNotification rd k req h)) =
     ((hd_chargers h)\<lparr>cr_connectors := (cr_connectors (hd_chargers h))(k \<mapsto>
        upsert_conn \<lparr>cn_ChargerID = k, cn_ConnectorID = sn_ConnectorId req, cn_Status = sn_Status req,
          cn_ErrorCode = sn_ErrorCode req, cn_Info = sn_Info req\<rparr> (conns_of (hd_chargers h) k))\<rparr>,
      hd_sessions h, hd_meters h, hd_proxy h)"
  by (simp add: OnStatusNotification_def Let_def)

definition started_session :: "reads \<Rightarrow> charger_id \<Rightarrow> start_request \<Rightarrow> session" where
  "started_session rd k req =
     \<lparr>se_ID = rd_uuid rd, se_TransactionID = generateTxID (rd_random rd), se_ChargerID = k,
      se_ConnectorID = st_ConnectorId req, se_IDTag = st_IdTag req,
      se_MeterStartWh = Fin (of_int (st_MeterStart req)), se_MeterStopWh = None,
      se_StartedAt = (case st_Timestamp req of Some ts \<Rightarrow> ts | None \<Rightarrow> rd_now rd),
      se_StoppedAt = None, se_StopReason = ''''\<rparr>"

lemma start_sessions:
  assumes "rd_uuid rd \<noteq> ''''"
  shows "stores (snd (OnStartTransaction rd k req h)) =
     (hd_chargers h, AList.update (rd_uuid rd) (started_session rd k req) (hd_sessions h),
      hd_meters h, hd_proxy h)"
  using assms by (simp add: OnStartTransaction_def Let_def CreateSession_def started_session_def)
    (simp add: stores_def)

definition stopped_session :: "reads \<Rightarrow> stop_request \<Rightarrow> session \<Rightarrow> session" where
  "stopped_session rd req s = s\<lparr>se_MeterStopWh := Some (Fin (of_int (sp_MeterStop req))),
     se_StoppedAt := Some (case sp_Timestamp req of Some ts \<Rightarrow> ts | None \<Rightarrow> rd_now rd),
     se_StopReason := sp_Reason req\<rparr>"

lemma stop_sessions:
  "stores (snd (OnStopTransaction rd k req h)) =
     (hd_chargers h,
      (case session_by_tx (hd_sessions h) k (sp_TransactionId req) of
         None \<Rightarrow> hd_sessions h
       | Some s \<Rightarrow> (case UpdateSession (stopped_session rd req s) (hd_sessions h) of
                     Inl e \<Rightarrow> hd_sessions h | Inr r \<Rightarrow> r)),
      hd_meters h, hd_proxy h)"
  by (simp add: OnStopTransaction_def Let_def session_by_tx_def GetSessionByTransactionID_def
      stopped_session_def split: option.split sum.split) (simp add: stores_def)

subsection \<open>The invariant of the stores\<close>

definition handler_ok :: "handler \<Rightarrow> bool" where
  "handler_ok h \<longleftrightarrow> charger_repo_ok (hd_chargers h) \<and> session_repo_ok (hd_sessions h)"

lemma handler_ok_stores: "stores h' = stores h \<Longrightarrow> handler_ok h' = handler_ok h"
  by (simp add: handler_ok_def stores_def)

lemma upsert_ok [inv_pres]:
  assumes "charger_repo_ok r"
  shows "ch_ID c = k \<Longrightarrow> charger_repo_ok (r\<lparr>cr_chargers := AList.update k c (cr_chargers r)\<rparr>)"
    "cn_ChargerID conn = k \<Longrightarrow>
       charger_repo_ok (r\<lparr>cr_connectors := (cr_connectors r)(k \<mapsto> upsert_conn conn (conns_of r k))\<rparr>)"
  using UpsertCharger_ok[OF assms, of c] UpsertConnector_ok[OF assms, of conn]
  by (auto simp: UpsertCharger_def UpsertConnector_def)

lemma stores_split: "stores h = (a, b, m, p) \<Longrightarrow> hd_chargers h = a \<and> hd_sessions h = b \<and> hd_meters h = m \<and> hd_proxy h = p"
  by (simp add: stores_def)

lemma CreateSession_total: "\<exists>r'. CreateSession now s r = Inr r'"
  by (simp add: CreateSession_def Let_def)

lemma start_ok: "handler_ok h \<Longrightarrow> handler_ok (snd (OnStartTransaction rd k req h))"
  using CreateSession_ok
  by (fastforce simp: OnStartTransaction_def Let_def handler_ok_def split: sum.split)

lemma stop_ok: "handler_ok h \<Longrightarrow> handler_ok (snd (OnStopTransaction rd k req h))"
  using stores_split[OF stop_sessions[of rd k req h]]
  by (auto simp: handler_ok_def split: option.split sum.split intro: UpdateSession_ok)

lemma recover_ok: "handler_ok h \<Longrightarrow> handler_ok (snd (recover_session rd k n t h))"
  using CreateSession_ok
  by (fastforce simp: recover_session_def Let_def handler_ok_def upsert_ok split: sum.split option.split)

lemma session_for_ok: "handler_ok h \<Longrightarrow> handler_ok (snd (session_for rd k req h))"
  by (auto simp: session_for_def Let_def recover_ok split: option.split)

lemma publish_totals_ok [simp]: "handler_ok (publish_totals k sid t h) = handler_ok h"
  by (rule handler_ok_stores) simp

lemma note_ok [simp]:
  "handler_ok (note_ev eff h) = handler_ok h" "handler_ok (note_if b eff h) = handler_ok h"
  "handler_ok (emit ev h) = handler_ok h" "handler_ok (recordInbound m h) = handler_ok h"
  "handler_ok (publishOcppMessage k d a n h) = handler_ok h" "handler_ok (routed rt h) = handler_ok h"
  "handler_ok (relay_hook_connect rd k h) = handler_ok h" "handler_ok (relay_hook_disconnect k h) = handler_ok h"
  "handler_ok (publish_discovery k c h) = handler_ok h" "handler_ok (h\<lparr>hd_activeConns := n\<rparr>) = handler_ok h"
  "handler_ok (h\<lparr>hd_meters := ms\<rparr>) = handler_ok h"
  by (simp_all add: handler_ok_def)

lemma meter_ok:
  assumes "handler_ok h"
  shows "handler_ok (snd (OnMeterValues rd k req h))"
proof -
  let ?h = "publishOcppMessage k ''inbound'' ''MeterValues'' (mr_ConnectorId req)
      (routed (RouteMeterValues (rd_net rd) (proxy_of h) (rd_now rd) k req) h)"
  obtain sid h1 where 1: "session_for rd k req ?h = (sid, h1)" by fastforce
  then have "handler_ok h1" using session_for_ok[of ?h rd k req] assms by simp
  then show ?thesis by (simp add: OnMeterValues_def 1 Let_def StoreMeterValues_def)
qed

lemma upsert_charger_handler_ok: "handler_ok h \<Longrightarrow> handler_ok (upsert_charger c h)"
  by (simp add: handler_ok_def upsert_ok)

lemma markonline_ok: "handler_ok h \<Longrightarrow> MarkOnline k b (hd_chargers h) = Inr r \<Longrightarrow> handler_ok (h\<lparr>hd_chargers := r\<rparr>)"
  by (auto simp: handler_ok_def intro: MarkOnline_ok)

lemma connect_ok: "handler_ok h \<Longrightarrow> handler_ok (OnConnect rd k h)"
  by (auto simp: OnConnect_def Let_def upsert_charger_handler_ok markonline_ok split: sum.split)

lemma disconnect_ok: "handler_ok h \<Longrightarrow> handler_ok (OnDisconnect rd k h)"
  by (auto simp: OnDisconnect_def Let_def markonline_ok split: sum.split)

lemma boot_ok: "handler_ok h \<Longrightarrow> handler_ok (snd (OnBootNotification rd k req h))"
  using stores_split[OF boot_stores[of rd k req h]] by (simp add: handler_ok_def upsert_ok)

lemma status_ok: "handler_ok h \<Longrightarrow> handler_ok (snd (OnStatusNotification rd k req h))"
  using stores_split[OF status_stores[of rd k req h]] by (simp add: handler_ok_def upsert_ok)

lemma handle_ok [inv_pres]:
  assumes "handler_ok h" shows "handler_ok (handle rd k ev h)"
proof (cases ev)
  case (Request p)
  then show ?thesis using assms
    by (cases p) (simp_all add: start_ok stop_ok meter_ok boot_ok status_ok
        handler_ok_stores[OF quiet_stores(1)] handler_ok_stores[OF quiet_stores(2)]
        handler_ok_stores[OF quiet_stores(3)])
qed (simp_all add: assms connect_ok disconnect_ok)

lemma run_handler_ok: "handler_ok h \<Longrightarrow> handler_ok (run_handler evs h)"
  unfolding run_handler_def by (rule fold_invariant) (auto intro: handle_ok)

subsection \<open>Sessions change by one store at a time\<close>

definition recovered_session :: "reads \<Rightarrow> charger_id \<Rightarrow> int \<Rightarrow> int \<Rightarrow> session" where
  "recovered_session rd k n tx =
     \<lparr>se_ID = rd_uuid rd, se_TransactionID = tx, se_ChargerID = k, se_ConnectorID = n,
      se_IDTag = ''recovered'', se_MeterStartWh = Fin 0, se_MeterStopWh = None, se_StartedAt = rd_now rd,
      se_StoppedAt = None, se_StopReason = ''''\<rparr>"

text \<open>What an event stores, if anything: the started session, the recovered one when the transaction of
  the meter values is unknown, or the stopped version of the transaction's session.\<close>

fun put_by :: "reads \<Rightarrow> charger_id \<Rightarrow> inbound_event \<Rightarrow> session_repo \<Rightarrow> session option" where
  "put_by rd k (Request (StartTransactionRequest req)) r = Some (started_session rd k req)"
| "put_by rd k (Request (StopTransactionRequest req)) r =
     map_option (stopped_session rd req) (session_by_tx r k (sp_TransactionId req))"
| "put_by rd k (Request (MeterValuesRequest req)) r =
     (case mr_TransactionId req of None \<Rightarrow> None | Some tx \<Rightarrow>
        if session_by_tx r k tx = None then Some (recovered_session rd k (mr_ConnectorId req) tx) else None)"
| "put_by rd k ev r = None"

definition store_put :: "session option \<Rightarrow> session_repo \<Rightarrow> session_repo" where
  "store_put v r = (case v of None \<Rightarrow> r | Some v \<Rightarrow> AList.update (se_ID v) v r)"

lemma by_tx_stored:
  assumes "session_repo_ok r" "session_by_tx r k tx = Some s"
  shows "lookup_session r (se_ID s) = Some s" "se_ID s \<noteq> ''''" "se_ChargerID s = k" "se_TransactionID s = tx"
  using sess.by_tx_sound[OF assms] lookup_session_key[OF assms(1)] by auto

lemma session_for_sessions:
  assumes "session_repo_ok (hd_sessions h)" "rd_uuid rd \<noteq> ''''"
  shows "hd_sessions (snd (session_for rd k req h)) = store_put (put_by rd k (Request (MeterValuesRequest req)) (hd_sessions h)) (hd_sessions h)"
proof (cases "mr_TransactionId req")
  case None
  then show ?thesis by (simp add: session_for_def store_put_def)
next
  case (Some tx)
  show ?thesis
  proof (cases "session_by_tx (hd_sessions h) k tx")
    case None
    then show ?thesis using Some assms(2)
      by (simp add: session_for_def findSessionUUID_def session_by_tx_def recover_session_def Let_def
          CreateSession_def recovered_session_def store_put_def split: sum.splits option.splits)
  next
    case (Some s)
    then have "se_ID s \<noteq> ''''" using by_tx_stored[OF assms(1)] by blast
    then show ?thesis using \<open>mr_TransactionId req = Some tx\<close> Some
      by (simp add: session_for_def findSessionUUID_def session_by_tx_def store_put_def split: sum.splits)
  qed
qed

lemma meter_sessions:
  "hd_sessions (snd (OnMeterValues rd k req h)) =
     hd_sessions (snd (session_for rd k req (publishOcppMessage k ''inbound'' ''MeterValues'' (mr_ConnectorId req)
       (routed (RouteMeterValues (rd_net rd) (proxy_of h) (rd_now rd) k req) h))))"
  by (simp add: OnMeterValues_def Let_def split_beta StoreMeterValues_def)

lemma connect_sessions:
  "hd_sessions (OnConnect rd k h) = hd_sessions h" "hd_sessions (OnDisconnect rd k h) = hd_sessions h"
  by (simp_all add: OnConnect_def OnDisconnect_def Let_def split: sum.split)

lemma handle_sessions:
  assumes "handler_ok h" "rd_uuid rd \<noteq> ''''"
  shows "hd_sessions (handle rd k ev h) = store_put (put_by rd k ev (hd_sessions h)) (hd_sessions h)"
proof (cases ev)
  case (Request p)
  have ok: "session_repo_ok (hd_sessions h)" using assms(1) by (simp add: handler_ok_def)
  show ?thesis
  proof (cases p)
    case (StartTransactionRequest req)
    then show ?thesis using Request stores_split[OF start_sessions[OF assms(2)]]
      by (simp add: store_put_def started_session_def)
  next
    case (StopTransactionRequest req)
    show ?thesis
    proof (cases "session_by_tx (hd_sessions h) k (sp_TransactionId req)")
      case None
      then show ?thesis using Request StopTransactionRequest stores_split[OF stop_sessions[of rd k req h]]
        by (simp add: store_put_def)
    next
      case (Some s)
      have "lookup_session (hd_sessions h) (se_ID s) = Some s" using by_tx_stored[OF ok Some] by simp
      then have "UpdateSession (stopped_session rd req s) (hd_sessions h) =
          Inr (AList.update (se_ID s) (stopped_session rd req s) (hd_sessions h))"
        by (simp add: UpdateSession_def stopped_session_def lookup_session_map)
      then show ?thesis using Some Request StopTransactionRequest stores_split[OF stop_sessions[of rd k req h]]
        by (simp add: store_put_def stopped_session_def)
    qed
  next
    case (MeterValuesRequest req)
    let ?h = "publishOcppMessage k ''inbound'' ''MeterValues'' (mr_ConnectorId req)
       (routed (RouteMeterValues (rd_net rd) (proxy_of h) (rd_now rd) k req) h)"
    have eq: "hd_sessions ?h = hd_sessions h" by simp
    from session_for_sessions[of ?h rd k req, unfolded eq, OF ok assms(2)]
    show ?thesis using Request MeterValuesRequest by (simp only: handle.simps meter_sessions)
  qed (use Request stores_split[OF boot_stores] stores_split[OF status_stores]
        stores_eq(2)[OF quiet_stores(1)] stores_eq(2)[OF quiet_stores(2)] stores_eq(2)[OF quiet_stores(3)]
        in \<open>simp_all add: store_put_def\<close>)
qed (simp_all add: connect_sessions store_put_def)

subsection \<open>The life of a transaction\<close>

text \<open>The store has session \<open>s\<close> and no other of its transaction, nor another active one on its
  connector.\<close>

definition sole :: "session \<Rightarrow> session_repo \<Rightarrow> bool" where
  "sole s r \<longleftrightarrow> lookup_session r (se_ID s) = Some s \<and>
     (\<forall>i w. lookup_session r i = Some w \<longrightarrow> se_ChargerID w = se_ChargerID s \<longrightarrow>
        (se_TransactionID w = se_TransactionID s \<or> IsActive w \<and> se_ConnectorID w = se_ConnectorID s) \<longrightarrow> w = s)"

text \<open>An event that is not about \<open>s\<close>: it takes another uuid, and on the charger of \<open>s\<close> it neither
  starts a transaction on the connector or with the id of \<open>s\<close>, nor stops it, nor recovers another
  one on its connector.\<close>

fun spares :: "session \<Rightarrow> reads \<times> charger_id \<times> inbound_event \<Rightarrow> bool" where
  "spares s (rd, k, ev) \<longleftrightarrow> rd_uuid rd \<noteq> '''' \<and> rd_uuid rd \<noteq> se_ID s \<and>
     (k = se_ChargerID s \<longrightarrow>
       (case ev of
          Request (StartTransactionRequest req) \<Rightarrow>
            generateTxID (rd_random rd) \<noteq> se_TransactionID s \<and> st_ConnectorId req \<noteq> se_ConnectorID s
        | Request (StopTransactionRequest req) \<Rightarrow> sp_TransactionId req \<noteq> se_TransactionID s
        | Request (MeterValuesRequest req) \<Rightarrow>
            mr_ConnectorId req = se_ConnectorID s \<longrightarrow>
              mr_TransactionId req = None \<or> mr_TransactionId req = Some (se_TransactionID s)
        | _ \<Rightarrow> True))"

lemma lookup_store_put:
  "lookup_session (store_put v r) i =
     (case v of None \<Rightarrow> lookup_session r i | Some v \<Rightarrow> if i = se_ID v then Some v else lookup_session r i)"
  by (simp add: store_put_def lookup_session_map split: option.split)

lemma sole_put:
  assumes "sole s r" and "\<And>v. pv = Some v \<Longrightarrow> se_ID v \<noteq> se_ID s \<and> (se_ChargerID v = se_ChargerID s \<longrightarrow>
     se_TransactionID v \<noteq> se_TransactionID s \<and> (IsActive v \<longrightarrow> se_ConnectorID v \<noteq> se_ConnectorID s))"
  shows "sole s (store_put pv r)"
  using assms by (auto simp: sole_def lookup_store_put split: option.splits if_splits)

lemma sole_by_tx:
  assumes "sole s r" "session_repo_ok r"
  shows "session_by_tx r (se_ChargerID s) (se_TransactionID s) = Some s"
proof -
  have "lookup_session r (se_ID s) = Some s" using assms(1) by (simp add: sole_def)
  then obtain w where w: "session_by_tx r (se_ChargerID s) (se_TransactionID s) = Some w"
    using sess.by_tx_complete[OF assms(2)] by blast
  then show ?thesis using by_tx_stored[OF assms(2) w] assms(1) by (auto simp: sole_def)
qed

lemma sole_active:
  assumes "sole s r" "session_repo_ok r" "IsActive s"
  shows "active_session r (se_ChargerID s) (se_ConnectorID s) = Some s"
proof -
  have "lookup_session r (se_ID s) = Some s" using assms(1) by (simp add: sole_def)
  then obtain w where w: "active_session r (se_ChargerID s) (se_ConnectorID s) = Some w"
    using sess.active_complete[OF assms(2) _ assms(3)] by blast
  then show ?thesis using sess.active_sound[OF assms(2) w] assms(1) by (auto simp: sole_def)
qed

lemma handle_sole:
  assumes "handler_ok h" "sole s (hd_sessions h)" "spares s (rd, k, ev)"
  shows "sole s (hd_sessions (handle rd k ev h))"
proof -
  let ?r = "hd_sessions h"
  have ok: "session_repo_ok ?r" using assms(1) by (simp add: handler_ok_def)
  have uuid: "rd_uuid rd \<noteq> ''''" "rd_uuid rd \<noteq> se_ID s" using assms(3) by simp_all
  have "sole s (store_put (put_by rd k ev ?r) ?r)"
  proof (rule sole_put[OF assms(2)])
    fix v assume v: "put_by rd k ev ?r = Some v"
    then obtain p where p: "ev = Request p" by (cases ev) auto
    show "se_ID v \<noteq> se_ID s \<and> (se_ChargerID v = se_ChargerID s \<longrightarrow>
        se_TransactionID v \<noteq> se_TransactionID s \<and> (IsActive v \<longrightarrow> se_ConnectorID v \<noteq> se_ConnectorID s))"
    proof (cases p)
      case (StartTransactionRequest req)
      then show ?thesis using v p uuid assms(3) by (auto simp: started_session_def)
    next
      case (MeterValuesRequest req)
      then show ?thesis using v p uuid assms(3) sole_by_tx[OF assms(2) ok]
        by (auto simp: recovered_session_def split: option.splits if_splits)
    next
      case (StopTransactionRequest req)
      then obtain w where w: "session_by_tx ?r k (sp_TransactionId req) = Some w" "v = stopped_session rd req w"
        using v p by auto
      have "se_ID w = se_ID s \<Longrightarrow> w = s" using by_tx_stored(1)[OF ok w(1)] assms(2) by (simp add: sole_def)
      then show ?thesis using w(2) by_tx_stored[OF ok w(1)] assms(3) p StopTransactionRequest
        by (auto simp: stopped_session_def IsActive_def)
    qed (use v p in auto)
  qed
  then show ?thesis using handle_sessions[OF assms(1) uuid(1)] by simp
qed

lemma run_sole:
  assumes "handler_ok h" "sole s (hd_sessions h)" "\<forall>e \<in> set evs. spares s e"
  shows "sole s (hd_sessions (run_handler evs h))"
  using assms
proof (induction evs arbitrary: h)
  case (Cons e evs)
  obtain rd k ev where e: "e = (rd, k, ev)" by (cases e)
  then show ?case
    using Cons.IH[of "handle rd k ev h"] Cons.prems handle_ok handle_sole[of h s rd k ev]
    by (simp add: run_handler_def)
qed (simp add: run_handler_def)

lemma start_sole:
  assumes "handler_ok h" "rd_uuid rd \<noteq> ''''" "lookup_session (hd_sessions h) (rd_uuid rd) = None"
    and "session_by_tx (hd_sessions h) k (generateTxID (rd_random rd)) = None"
    and "active_session (hd_sessions h) k (st_ConnectorId req) = None"
  shows "sole (started_session rd k req) (hd_sessions (snd (OnStartTransaction rd k req h)))"
proof -
  let ?s = "started_session rd k req" and ?r = "hd_sessions h"
  have ok: "session_repo_ok ?r" using assms(1) by (simp add: handler_ok_def)
  have "w = ?s" if "lookup_session (store_put (Some ?s) ?r) i = Some w" "se_ChargerID w = k"
    "se_TransactionID w = generateTxID (rd_random rd) \<or> IsActive w \<and> se_ConnectorID w = st_ConnectorId req" for i w
  proof (rule ccontr)
    assume "w \<noteq> ?s"
    then have l: "lookup_session ?r i = Some w" using that(1) by (simp add: lookup_store_put split: if_splits)
    from sess.by_tx_complete[OF ok l] sess.active_complete[OF ok l] that(2,3) assms(4,5)
    show False by auto
  qed
  then have "sole ?s (store_put (Some ?s) ?r)"
    by (auto simp: sole_def lookup_store_put[of _ _ "se_ID _"]) (auto simp: started_session_def)
  then show ?thesis using handle_sessions[OF assms(1,2), of k "Request (StartTransactionRequest req)"] by simp
qed

subsection \<open>Properties\<close>

text \<open>
  C28: whatever the charge points send, connect and disconnect, over any history from empty stores:
  chargers are stored under their own id, a charger's connectors have distinct ids and belong to it,
  and sessions are stored under their own, non-empty id.
\<close>

theorem stores_well_formed:
  "handler_ok (run_handler evs (NewHandler router NewInMemoryChargerRepository NewInMemorySessionRepository
     NewInMemoryMeterRepository pr discovery hook minAmps maxAmps metrics))"
  by (rule run_handler_ok)
    (simp add: handler_ok_def NewHandler_def NewInMemoryChargerRepository_ok session_repo_ok_def
      NewInMemorySessionRepository_def)

text \<open>
  C4: the life of a transaction. After a start on an idle connector, with a fresh uuid and transaction
  id, and any history of other events of any chargers, the session is the connector's active one; the
  stop with its transaction id leaves the connector idle and the session stored with the meter
  readings of the two requests as its energy.
\<close>

theorem transaction_lifecycle:
  assumes "handler_ok h" "rd_uuid rd \<noteq> ''''" "lookup_session (hd_sessions h) (rd_uuid rd) = None"
    and "session_by_tx (hd_sessions h) k tx = None" "tx = generateTxID (rd_random rd)"
    and "active_session (hd_sessions h) k (st_ConnectorId req) = None"
    and "\<forall>e \<in> set evs. spares (started_session rd k req) e"
    and "sp_TransactionId stop = tx" "rd_uuid rd' \<noteq> ''''"
    and h1: "h1 = run_handler evs (snd (OnStartTransaction rd k req h))"
    and h2: "h2 = snd (OnStopTransaction rd' k stop h1)"
  shows "fst (OnStartTransaction rd k req h) = StartTransactionConfirmation ''Accepted'' tx \<and>
     active_session (hd_sessions h1) k (st_ConnectorId req) = Some (started_session rd k req) \<and>
     active_session (hd_sessions h2) k (st_ConnectorId req) = None \<and>
     (\<exists>s. lookup_session (hd_sessions h2) (rd_uuid rd) = Some s \<and> \<not> IsActive s \<and>
        EnergyKWh s = Some (Fin (1 / 1000 * (of_int (sp_MeterStop stop) - of_int (st_MeterStart req)))))"
proof -
  let ?s = "started_session rd k req"
  let ?t = "stopped_session rd' stop ?s"
  have s: "se_ChargerID ?s = k" "se_TransactionID ?s = tx" "se_ConnectorID ?s = st_ConnectorId req"
    "se_ID ?s = rd_uuid rd" "IsActive ?s"
    using assms(5) by (simp_all add: started_session_def IsActive_def)
  have ok1: "handler_ok h1" using start_ok[OF assms(1)] by (simp add: h1 run_handler_ok)
  then have r1: "session_repo_ok (hd_sessions h1)" by (simp add: handler_ok_def)
  have "sole ?s (hd_sessions (snd (OnStartTransaction rd k req h)))"
    using start_sole[OF assms(1-3)] assms(4-6) by simp
  then have sole: "sole ?s (hd_sessions h1)"
    unfolding h1 using run_sole start_ok[OF assms(1)] assms(7) by blast
  have act: "active_session (hd_sessions h1) k (st_ConnectorId req) = Some ?s"
    using sole_active[OF sole r1 s(5)] s by simp
  have tx: "session_by_tx (hd_sessions h1) k tx = Some ?s" using sole_by_tx[OF sole r1] s by simp
  have put: "hd_sessions h2 = store_put (Some ?t) (hd_sessions h1)"
    using handle_sessions[OF ok1 assms(9), of k "Request (StopTransactionRequest stop)"] tx assms(8)
    by (simp add: h2)
  have t: "se_ID ?t = rd_uuid rd" "\<not> IsActive ?t"
    using s by (simp_all add: stopped_session_def IsActive_def)
  have "active_session (hd_sessions h2) k (st_ConnectorId req) = None"
  proof (rule sess.active_after_put_stopped[OF r1])
    show "se_ID ?t \<noteq> ''''" using t(1) assms(2) by simp
    then show "CreateSession 0 ?t (hd_sessions h1) = Inr (hd_sessions h2)"
      by (simp add: CreateSession_def put store_put_def Let_def)
    fix i w assume "lookup_session (hd_sessions h1) i = Some w" "IsActive w" "se_ChargerID w = k"
      "se_ConnectorID w = st_ConnectorId req"
    then show "i = se_ID ?t"
      using sole s t(1) lookup_session_key[OF r1, of i w] by (auto simp: sole_def)
  qed (rule t(2))
  moreover have "EnergyKWh ?t = Some (Fin (1 / 1000 * (of_int (sp_MeterStop stop) - of_int (st_MeterStart req))))"
    by (simp add: EnergyKWh_def stopped_session_def started_session_def flt_sub_def)
  moreover have "fst (OnStartTransaction rd k req h) = StartTransactionConfirmation ''Accepted'' tx"
    using assms(5) by (simp add: OnStartTransaction_def Let_def)
  ultimately show ?thesis using act t by (auto simp: put lookup_store_put)
qed

theorem transaction_lifecycle_witness:
  "let rd = \<lparr>rd_now = 5, rd_sampled = (\<lambda>_. 5), rd_uuid = ''u1'', rd_random = [0, 0, 1, 0],
         rd_net = \<lparr>rn_create = \<lambda>_ _. None, rn_start = \<lambda>_ _. None, rn_call = \<lambda>_ _ _. None, rn_connected = \<lambda>_ _. True\<rparr>\<rparr>;
       h = NewHandler (NewRouter DefaultPolicy NoopRelay) NewInMemoryChargerRepository
         NewInMemorySessionRepository NewInMemoryMeterRepository None True False 6 32 False;
       req = \<lparr>st_ConnectorId = 1, st_IdTag = ''tag'', st_MeterStart = 100, st_Timestamp = None\<rparr>;
       stop = \<lparr>sp_MeterStop = 5100, sp_Timestamp = None, sp_TransactionId = 256, sp_Reason = ''Local''\<rparr>;
       evs = [(rd\<lparr>rd_uuid := ''u2''\<rparr>, ''b'', Request HeartbeatRequest)];
       h1 = run_handler evs (snd (OnStartTransaction rd ''a'' req h));
       h2 = snd (OnStopTransaction rd ''a'' stop h1)
   in fst (OnStartTransaction rd ''a'' req h) = StartTransactionConfirmation ''Accepted'' 256 \<and>
     active_session (hd_sessions h1) ''a'' (st_ConnectorId req) = Some (started_session rd ''a'' req) \<and>
     active_session (hd_sessions h2) ''a'' (st_ConnectorId req) = None \<and>
     (\<exists>s. lookup_session (hd_sessions h2) (rd_uuid rd) = Some s \<and> \<not> IsActive s \<and>
        EnergyKWh s = Some (Fin (1 / 1000 * (of_int (sp_MeterStop stop) - of_int (st_MeterStart req)))))"
  unfolding Let_def
  by (rule transaction_lifecycle)
    (simp_all add: handler_ok_def NewHandler_def NewInMemoryChargerRepository_ok session_repo_ok_def
      NewInMemorySessionRepository_def lookup_session_map session_by_tx_None active_session_None
      generateTxID_def started_session_def)

text \<open>
  C20: recovery after a restart. Meter values of a transaction the system does not know create one
  active session for it; further meter values with that transaction leave the sessions as they are.
\<close>

theorem session_recovered_once:
  assumes "handler_ok h" "mr_TransactionId req = Some tx" "session_by_tx (hd_sessions h) k tx = None"
    and "rd_uuid rd \<noteq> ''''" "lookup_session (hd_sessions h) (rd_uuid rd) = None"
    and "mr_TransactionId req' = Some tx" "rd_uuid rd' \<noteq> ''''"
    and h1: "h1 = snd (OnMeterValues rd k req h)"
  shows "session_by_tx (hd_sessions h1) k tx = Some (recovered_session rd k (mr_ConnectorId req) tx) \<and>
     active_session (hd_sessions h1) k (mr_ConnectorId req) \<noteq> None \<and>
     hd_sessions (snd (OnMeterValues rd' k req' h1)) = hd_sessions h1"
proof -
  let ?v = "recovered_session rd k (mr_ConnectorId req) tx"
  have ok: "session_repo_ok (hd_sessions h)" "handler_ok h1"
    using assms(1) meter_ok by (simp_all add: handler_ok_def h1)
  have v: "se_ChargerID ?v = k" "se_TransactionID ?v = tx" "se_ID ?v = rd_uuid rd"
    "se_ConnectorID ?v = mr_ConnectorId req" "IsActive ?v" by (simp_all add: recovered_session_def IsActive_def)
  have put: "CreateSession 0 ?v (hd_sessions h) = Inr (hd_sessions h1)"
    using handle_sessions[OF assms(1,4), of k "Request (MeterValuesRequest req)"] assms(2-4) v(3)
    by (simp add: h1 store_put_def CreateSession_def Let_def)
  have id: "se_ID ?v \<noteq> ''''" using v(3) assms(4) by simp
  have tx: "session_by_tx (hd_sessions h1) k tx = Some ?v"
    using sess.by_tx_after_put[OF ok(1) id put] v assms(3) by simp
  moreover have "active_session (hd_sessions h1) k (mr_ConnectorId req) \<noteq> None"
    using sess.active_after_put_active[OF ok(1) id put v(5)] v by simp
  moreover have "hd_sessions (snd (OnMeterValues rd' k req' h1)) = hd_sessions h1"
    using handle_sessions[OF ok(2) assms(7), of k "Request (MeterValuesRequest req')"] tx assms(6)
    by (simp add: store_put_def)
  ultimately show ?thesis by simp
qed

theorem session_recovered_once_witness:
  "let rd = \<lparr>rd_now = 5, rd_sampled = (\<lambda>_. 5), rd_uuid = ''u1'', rd_random = [0, 0, 1, 0],
         rd_net = \<lparr>rn_create = \<lambda>_ _. None, rn_start = \<lambda>_ _. None, rn_call = \<lambda>_ _ _. None, rn_connected = \<lambda>_ _. True\<rparr>\<rparr>;
       h = NewHandler (NewRouter DefaultPolicy NoopRelay) NewInMemoryChargerRepository
         NewInMemorySessionRepository NewInMemoryMeterRepository None True False 6 32 False;
       req = \<lparr>mr_ConnectorId = 1, mr_TransactionId = Some 7, mr_MeterValue = []\<rparr>;
       h1 = snd (OnMeterValues rd ''a'' req h)
   in session_by_tx (hd_sessions h1) ''a'' 7 = Some (recovered_session rd ''a'' (mr_ConnectorId req) 7) \<and>
     active_session (hd_sessions h1) ''a'' (mr_ConnectorId req) \<noteq> None \<and>
     hd_sessions (snd (OnMeterValues (rd\<lparr>rd_uuid := ''u2''\<rparr>) ''a'' req h1)) = hd_sessions h1"
  unfolding Let_def
  by (rule session_recovered_once[where rd' = "_\<lparr>rd_uuid := ''u2''\<rparr>"])
    (simp_all add: handler_ok_def NewHandler_def NewInMemoryChargerRepository_ok session_repo_ok_def
      NewInMemorySessionRepository_def lookup_session_map session_by_tx_None)

lemma digit_step:
  assumes "256 * (x :: int) + d = 256 * y + e" "0 \<le> d" "d \<le> 255" "0 \<le> e" "e \<le> 255"
  shows "x = y \<and> d = e"
proof -
  have "\<not> x < y" "\<not> y < x" using assms by linarith+
  then show ?thesis using assms(1) by simp
qed

text \<open>
  The transaction ids given out are never negative and fit in 31 bits; and there is one random
  value, 0xFFFFFFFE, for which the id is 0, the value that means "no transaction" elsewhere.
\<close>

theorem transaction_id_range:
  assumes "length bytes = 4" "\<forall>b \<in> set bytes. b < 256"
  shows "0 \<le> generateTxID bytes \<and> generateTxID bytes \<le> 2147483647 \<and>
     (generateTxID bytes = 0 \<longleftrightarrow> bytes = [255, 255, 255, 254])"
proof -
  obtain a b c d where bytes: "bytes = [a, b, c, d]"
    using assms(1) by (auto simp: length_Suc_conv numeral_eq_Suc)
  then have lt: "a < 256" "b < 256" "c < 256" "d < 256" using assms(2) by simp_all
  define v where "v = 256 * (256 * (256 * int a + int b) + int c) + int d"
  have v: "0 \<le> v" "v < 4294967296" using lt by (auto simp: v_def)
  have gen: "generateTxID bytes = (let w = (if v = 0 then 1 else v) in if 2147483647 < w then w mod 2147483647 else w)"
    by (simp add: generateTxID_def bytes v_def Let_def)
  have zero: "generateTxID bytes = 0 \<longleftrightarrow> v = 4294967294"
  proof
    assume "generateTxID bytes = 0"
    then have "2147483647 < v" "v mod 2147483647 = 0" using v by (auto simp: gen Let_def split: if_splits)
    then obtain q where q: "v = 2147483647 * q" by (metis mod_0_imp_dvd dvdE)
    then have "q = 2" using v \<open>2147483647 < v\<close> by linarith
    then show "v = 4294967294" using q by simp
  qed (simp add: gen)
  have "a = 255 \<and> b = 255 \<and> c = 255 \<and> d = 254" if veq: "v = 4294967294"
  proof -
    have le: "int b \<le> 255" "int c \<le> 255" "int d \<le> 255" using lt by auto
    have 3: "256 * (256 * int a + int b) + int c = 16777215" "int d = 254"
      using veq le digit_step[of "256 * (256 * int a + int b) + int c" "int d" 16777215 254]
      unfolding v_def by simp_all
    then have 2: "256 * int a + int b = 65535" "int c = 255"
      using le digit_step[of "256 * int a + int b" "int c" 65535 255] by simp_all
    then have "int a = 255" "int b = 255" using le digit_step[of "int a" "int b" 255 255] by simp_all
    then show ?thesis using 2 3 by simp
  qed
  then have "v = 4294967294 \<longleftrightarrow> bytes = [255, 255, 255, 254]"
    by (auto simp: v_def bytes)
  moreover have "0 \<le> generateTxID bytes \<and> generateTxID bytes \<le> 2147483647"
    using v pos_mod_bound[of 2147483647 v] pos_mod_sign[of 2147483647 v] by (auto simp: gen Let_def)
  ultimately show ?thesis using zero by blast
qed

theorem transaction_id_range_witness:
  "0 \<le> generateTxID [255, 255, 255, 254] \<and> generateTxID [255, 255, 255, 254] \<le> 2147483647 \<and>
   (generateTxID [255, 255, 255, 254] = 0 \<longleftrightarrow> [255, 255, 255, 254] = [255, 255, 255, 254 :: nat])"
  by (rule transaction_id_range) simp_all

text \<open>
  Local handling does not depend on the routing policy or the upstream: two systems that differ
  only in their router, run on the same history, end with the same stores, wiring and trace of
  publications, also for the requests whose decision says they are for the upstream only.
\<close>

theorem local_handling_independent_of_routing:
  "local (run_handler evs (h\<lparr>hd_router := r\<rparr>)) = local (run_handler evs (h\<lparr>hd_router := r'\<rparr>))"
  by (rule run_handler_local) (simp add: local_def)

subsection \<open>Recovered energy, firmware versions, waiting for idle\<close>

lemma take_to_sep:
  assumes "c \<notin> set s"
  shows "takeWhile (\<lambda>x. x \<noteq> c) (s @ c # t) = s" "dropWhile (\<lambda>x. x \<noteq> c) (s @ c # t) = c # t"
    "takeWhile (\<lambda>x. x \<noteq> c) s = s"
  using assms by (induction s) auto

lemma SplitN_step:
  "c \<notin> set s \<Longrightarrow> SplitN c (Suc (Suc n)) (s @ c # t) = s # SplitN c (Suc n) t"
  by (simp add: take_to_sep)

lemma Itoa_no_dot: "CHR ''.'' \<notin> set (Itoa n)"
  using Itoa_chars[of "CHR ''.''" n] by (auto simp: is_digit_iff)

lemma SplitN_hd:
  "\<exists>ps. SplitN c (Suc (Suc n)) s = takeWhile (\<lambda>x. x \<noteq> c) s # ps"
  by (simp add: take_to_sep)

lemma parseSemver_version:
  assumes "int64_ok a" "int64_ok b" "int64_ok c" "0 \<le> c" "rest = [] \<or> \<not> is_digit (hd rest)"
  shows "parseSemver (Itoa a @ ''.'' @ Itoa b @ ''.'' @ Itoa c @ rest) = Some (a, b, c)"
proof -
  let ?v = "Itoa a @ CHR ''.'' # Itoa b @ CHR ''.'' # Itoa c @ rest"
  obtain ps where "SplitN (CHR ''.'') (Suc (Suc 0)) (Itoa c @ rest) =
      takeWhile (\<lambda>x. x \<noteq> CHR ''.'') (Itoa c @ rest) # ps"
    using SplitN_hd by blast
  then have split: "SplitN (CHR ''.'') 4 ?v =
      Itoa a # Itoa b # takeWhile (\<lambda>x. x \<noteq> CHR ''.'') (Itoa c @ rest) # ps"
    by (simp del: SplitN.simps add: numeral_eq_Suc SplitN_step Itoa_no_dot)
  have digits: "\<forall>x \<in> set (Itoa c). is_digit x"
    using nat_str_digits assms(4) by (auto simp: Itoa_def list_all_iff)
  have "\<forall>x \<in> set (Itoa c). x \<noteq> CHR ''.''" using Itoa_no_dot[of c] by auto
  then have "takeWhile is_digit (takeWhile (\<lambda>x. x \<noteq> CHR ''.'') (Itoa c @ rest)) = Itoa c"
    using digits assms(5) by (cases rest) (auto simp: takeWhile_append2 takeWhile_eq_all_conv[THEN iffD2])
  moreover have "(\<lambda>x. \<not> (x < CHR ''0'' \<or> x > CHR ''9'')) = is_digit"
    by (auto simp: is_digit_def fun_eq_iff not_less)
  ultimately show ?thesis
    using assms(1-3) split by (simp add: parseSemver_def Let_def Atoi_Itoa)
qed

text \<open>
  C40: the firmware check is the lexicographic order on versions: for a version printed from three
  64-bit numbers with a patch of zero or more, followed by any suffix that does not start with a
  digit, it says below exactly when the version comes before the minimum.
\<close>

theorem firmware_check_is_version_order:
  assumes "int64_ok a" "int64_ok b" "int64_ok c" "0 \<le> c" "rest = [] \<or> \<not> is_digit (hd rest)"
  shows "isFirmwareBelowMin (Itoa a @ ''.'' @ Itoa b @ ''.'' @ Itoa c @ rest) x y z \<longleftrightarrow>
    a < x \<or> a = x \<and> (b < y \<or> b = y \<and> c < z)"
  unfolding isFirmwareBelowMin_def parseSemver_version[OF assms] by auto

theorem firmware_check_is_version_order_witness:
  "isFirmwareBelowMin (Itoa 1 @ ''.'' @ Itoa 8 @ ''.'' @ Itoa 9 @ ''-rc1'') 1 8 32 \<longleftrightarrow>
     (1 :: int) < 1 \<or> (1 :: int) = 1 \<and> ((8 :: int) < 8 \<or> (8 :: int) = 8 \<and> (9 :: int) < 32)"
  by (rule firmware_check_is_version_order) (simp_all add: int64_ok_def is_digit_def less_eq_char_def)

text \<open>The polls of \<open>wait_loop\<close> up to the first reading that is past the deadline.\<close>

lemma wait_loop_until:
  assumes "\<forall>j < n. clock (i + j) < deadline" "deadline \<le> clock (i + n)"
  shows "wait_loop deadline clock conns i = Some (\<exists>j \<le> n. conns (i + j) = 0)"
  using assms
proof (induction n arbitrary: i)
  case 0
  then show ?case by (simp add: wait_loop.simps)
next
  case (Suc n)
  have "clock i < deadline" using Suc.prems(1) by (metis add.right_neutral zero_less_Suc)
  moreover have "wait_loop deadline clock conns (Suc i) = Some (\<exists>j \<le> n. conns (Suc i + j) = 0)"
    using Suc.prems by (intro Suc.IH) auto
  moreover have "(\<exists>j \<le> Suc n. conns (i + j) = 0) \<longleftrightarrow> conns i = 0 \<or> (\<exists>j \<le> n. conns (Suc i + j) = 0)"
    by (metis Suc_le_mono add.right_neutral add_Suc add_Suc_right le0 not0_implies_Suc)
  ultimately show ?case by (subst wait_loop.simps) auto
qed

lemma clock_advances:
  assumes "\<And>i. (clock i :: int) + d \<le> clock (Suc i)"
  shows "clock 0 + int n * d \<le> clock n"
proof (induction n)
  case (Suc n)
  then show ?case using assms[of n] by (simp add: algebra_simps)
qed simp

text \<open>
  C35: waiting for idle returns. If every round sleeps its 10 milliseconds at least, it returns after at
  most one poll more than the timeout has such rounds, and it answers whether one of its readings of
  the connection count, up to the first at or after the deadline, was zero.
\<close>

theorem wait_for_idle_returns:
  assumes "\<And>i. clock i + 10000000 \<le> clock (Suc i)" "now \<le> clock 0" "0 \<le> timeout"
  shows "\<exists>n. n \<le> nat (timeout div 10000000) + 1 \<and> now + timeout \<le> clock n \<and>
    WaitForIdle timeout now clock conns = Some (\<exists>j \<le> n. conns j = 0)"
proof -
  let ?k = "nat (timeout div 10000000) + 1"
  have "now + timeout \<le> clock ?k"
  proof -
    have "0 \<le> timeout div 10000000" using assms(3) by (simp add: pos_imp_zdiv_nonneg_iff)
    moreover have "timeout < (timeout div 10000000 + 1) * 10000000"
      using mult_div_mod_eq[of 10000000 timeout] pos_mod_bound[of 10000000 timeout]
      by (simp add: algebra_simps)
    ultimately have "timeout \<le> int ?k * 10000000" by simp
    then show ?thesis using clock_advances[of clock 10000000 ?k, OF assms(1)] assms(2) by linarith
  qed
  define n where "n = (LEAST n. now + timeout \<le> clock n)"
  have "n \<le> ?k" unfolding n_def by (rule Least_le) fact
  moreover have n: "now + timeout \<le> clock n" unfolding n_def by (rule LeastI) fact
  moreover have "\<forall>j < n. clock j < now + timeout" unfolding n_def using not_less_Least not_le by blast
  ultimately show ?thesis
    using wait_loop_until[of n clock 0 "now + timeout" conns] by (auto simp: WaitForIdle_def)
qed

theorem wait_for_idle_returns_witness:
  "\<exists>n. n \<le> nat (25000000 div 10000000) + 1 \<and> 5 + 25000000 \<le> 5 + 10000000 * int n \<and>
    WaitForIdle 25000000 5 (\<lambda>i. 5 + 10000000 * int i) (\<lambda>i. if i = 2 then 0 else 1) =
      Some (\<exists>j \<le> n. (if j = 2 then 0 else 1) = (0 :: int))"
  by (rule wait_for_idle_returns) simp_all

text \<open>The energy published for a session without a start reading, as a recovered one, is the meter's
  whole register, the value published next to it as the session energy.\<close>

lemma recovered_energy_is_register:
  assumes "GetSession sid (hd_sessions h) = Inr s" "se_MeterStartWh s = Fin 0" "sid \<noteq> ''''"
    and "flt_pos (to_energyWh t)"
  shows "{PublishSessionEnergy k (flt_scale (1 / 1000) (to_energyWh t)),
      PublishChargingEnergy k (flt_scale (1 / 1000) (to_energyWh t))} \<subseteq> set (hd_trace (publish_totals k sid t h))"
proof -
  have "flt_sub (to_energyWh t) (Fin 0) = to_energyWh t"
    by (cases "to_energyWh t") (simp_all add: flt_sub_def)
  then show ?thesis using assms
    by (auto simp: publish_totals_def Let_def note_if_def note_ev_def)
qed

end
