(* ===== verification/Config.thy ===== *)
theory Config
  imports GoLib "HOL-Library.Multiset"
begin

section \<open>Config: loading, validating and comparing the configuration\<close>

text \<open>
  \<open>internal/config\<close>: \<open>config.go\<close> (defaults, environment overrides, validation),
  \<open>effective.go\<close> (the masked view shown to the user) and \<open>reload.go\<close> (what a change needs to take
  effect). The YAML library and the environment are parameters: \<open>unmarshal data cfg\<close> is the
  configuration after decoding \<open>data\<close> over \<open>cfg\<close>, \<open>getenv\<close> gives \<open>''\<close> for an unset variable. A map
  that may be nil is an option; writing to a nil map panics.
\<close>

subsection \<open>The configuration\<close>

record server_config =
  srv_OCPPPort :: int
  srv_OCPPPath :: string
  srv_LogLevel :: string
  srv_LogFormat :: string

record webui_config =
  web_Enabled :: bool
  web_StatusEnabled :: bool
  web_Listen :: string
  web_Token :: string

record mqtt_config =
  mqc_Broker :: string
  mqc_ClientID :: string
  mqc_Username :: string
  mqc_Password :: string
  mqc_BaseTopic :: string
  mqc_Topics :: "(string \<times> string) list option"
  mqc_DisconnectThresholdSec :: int

record charging_config =
  chg_MinAmps :: int
  chg_MaxAmps :: int
  chg_ContactorCooldownSec :: int
  chg_DefaultAmps :: int
  chg_SolarThresholdW :: int

record energy_config =
  enc_GridEntityID :: string
  enc_SolarEntityID :: string
  enc_ConsumptionEntityID :: string
  enc_Token :: string

record config =
  cf_Server :: server_config
  cf_MQTT :: mqtt_config
  cf_Charging :: charging_config
  cf_WebUI :: webui_config
  cf_Energy :: energy_config

text \<open>Reading a topic: the empty string when the map is nil or has no such key.\<close>

definition topic_of :: "(string \<times> string) list option \<Rightarrow> string \<Rightarrow> string" where
  "topic_of topics k =
     (case topics of None \<Rightarrow> '''' | Some m \<Rightarrow> (case map_of m k of None \<Rightarrow> '''' | Some t \<Rightarrow> t))"

definition defaultConfig :: config where
  "defaultConfig =
     \<lparr>cf_Server = \<lparr>srv_OCPPPort = 8887, srv_OCPPPath = ''/{ws}'', srv_LogLevel = ''info'',
        srv_LogFormat = ''text''\<rparr>,
      cf_MQTT = \<lparr>mqc_Broker = ''tcp://localhost:1883'', mqc_ClientID = ''panya-charge'',
        mqc_Username = '''', mqc_Password = '''', mqc_BaseTopic = ''panya'',
        mqc_Topics = Some [(''charge_status'', ''charge/status''), (''charge_power'', ''charge/power''),
          (''charge_energy'', ''charge/energy''), (''grid_power'', ''grid/power''),
          (''solar_power'', ''''), (''consumption_power'', ''''),
          (''command_set_amps'', ''charge/command/set_amps''),
          (''command_state'', ''charge/command/state''),
          (''smart_charging_command'', ''smart_charging/command'')],
        mqc_DisconnectThresholdSec = 60\<rparr>,
      cf_Charging = \<lparr>chg_MinAmps = 6, chg_MaxAmps = 32, chg_ContactorCooldownSec = 180,
        chg_DefaultAmps = 6, chg_SolarThresholdW = 0\<rparr>,
      cf_WebUI = \<lparr>web_Enabled = False, web_StatusEnabled = True, web_Listen = ''127.0.0.1:8888'',
        web_Token = ''''\<rparr>,
      cf_Energy = \<lparr>enc_GridEntityID = '''', enc_SolarEntityID = '''', enc_ConsumptionEntityID = '''',
        enc_Token = ''''\<rparr>\<rparr>"

subsection \<open>Environment overrides\<close>

abbreviation on_server :: "(server_config \<Rightarrow> server_config) \<Rightarrow> config \<Rightarrow> config" where
  "on_server f c \<equiv> c\<lparr>cf_Server := f (cf_Server c)\<rparr>"
abbreviation on_mqtt :: "(mqtt_config \<Rightarrow> mqtt_config) \<Rightarrow> config \<Rightarrow> config" where
  "on_mqtt f c \<equiv> c\<lparr>cf_MQTT := f (cf_MQTT c)\<rparr>"
abbreviation on_charging :: "(charging_config \<Rightarrow> charging_config) \<Rightarrow> config \<Rightarrow> config" where
  "on_charging f c \<equiv> c\<lparr>cf_Charging := f (cf_Charging c)\<rparr>"
abbreviation on_webui :: "(webui_config \<Rightarrow> webui_config) \<Rightarrow> config \<Rightarrow> config" where
  "on_webui f c \<equiv> c\<lparr>cf_WebUI := f (cf_WebUI c)\<rparr>"
abbreviation on_energy :: "(energy_config \<Rightarrow> energy_config) \<Rightarrow> config \<Rightarrow> config" where
  "on_energy f c \<equiv> c\<lparr>cf_Energy := f (cf_Energy c)\<rparr>"

text \<open>The four tables of variables; each entry writes a field of its own.\<close>

definition strOverrides :: "(string \<times> (string \<Rightarrow> config \<Rightarrow> config)) list" where
  "strOverrides =
     [(''PANYA_MQTT_BROKER'', \<lambda>v. on_mqtt (mqc_Broker_update (\<lambda>_. v))),
      (''PANYA_MQTT_CLIENT_ID'', \<lambda>v. on_mqtt (mqc_ClientID_update (\<lambda>_. v))),
      (''PANYA_MQTT_USERNAME'', \<lambda>v. on_mqtt (mqc_Username_update (\<lambda>_. v))),
      (''PANYA_MQTT_PASSWORD'', \<lambda>v. on_mqtt (mqc_Password_update (\<lambda>_. v))),
      (''PANYA_MQTT_BASE_TOPIC'', \<lambda>v. on_mqtt (mqc_BaseTopic_update (\<lambda>_. v))),
      (''PANYA_SERVER_LOG_LEVEL'', \<lambda>v. on_server (srv_LogLevel_update (\<lambda>_. v))),
      (''PANYA_SERVER_LOG_FORMAT'', \<lambda>v. on_server (srv_LogFormat_update (\<lambda>_. v))),
      (''PANYA_WEBUI_LISTEN'', \<lambda>v. on_webui (web_Listen_update (\<lambda>_. v))),
      (''PANYA_WEBUI_TOKEN'', \<lambda>v. on_webui (web_Token_update (\<lambda>_. v))),
      (''PANYA_ENERGY_HASS_GRID_ENTITY_ID'', \<lambda>v. on_energy (enc_GridEntityID_update (\<lambda>_. v))),
      (''PANYA_ENERGY_HASS_SOLAR_ENTITY_ID'', \<lambda>v. on_energy (enc_SolarEntityID_update (\<lambda>_. v))),
      (''PANYA_ENERGY_HASS_CONSUMPTION_ENTITY_ID'', \<lambda>v. on_energy (enc_ConsumptionEntityID_update (\<lambda>_. v))),
      (''PANYA_HASS_TOKEN'', \<lambda>v. on_energy (enc_Token_update (\<lambda>_. v)))]"

definition intOverrides :: "(string \<times> (int \<Rightarrow> config \<Rightarrow> config)) list" where
  "intOverrides =
     [(''PANYA_SERVER_OCPP_PORT'', \<lambda>n. on_server (srv_OCPPPort_update (\<lambda>_. n))),
      (''PANYA_CHARGING_MIN_AMPS'', \<lambda>n. on_charging (chg_MinAmps_update (\<lambda>_. n))),
      (''PANYA_CHARGING_MAX_AMPS'', \<lambda>n. on_charging (chg_MaxAmps_update (\<lambda>_. n))),
      (''PANYA_CHARGING_DEFAULT_AMPS'', \<lambda>n. on_charging (chg_DefaultAmps_update (\<lambda>_. n))),
      (''PANYA_CHARGING_CONTACTOR_COOLDOWN_SEC'', \<lambda>n. on_charging (chg_ContactorCooldownSec_update (\<lambda>_. n))),
      (''PANYA_CHARGING_SOLAR_THRESHOLD_W'', \<lambda>n. on_charging (chg_SolarThresholdW_update (\<lambda>_. n))),
      (''PANYA_MQTT_DISCONNECT_THRESHOLD_SEC'', \<lambda>n. on_mqtt (mqc_DisconnectThresholdSec_update (\<lambda>_. n)))]"

definition boolOverrides :: "(string \<times> (bool \<Rightarrow> config \<Rightarrow> config)) list" where
  "boolOverrides =
     [(''PANYA_WEBUI_ENABLED'', \<lambda>b. on_webui (web_Enabled_update (\<lambda>_. b))),
      (''PANYA_WEBUI_STATUS_ENABLED'', \<lambda>b. on_webui (web_StatusEnabled_update (\<lambda>_. b)))]"

definition topicOverrides :: "(string \<times> string) list" where
  "topicOverrides =
     [(''PANYA_MQTT_TOPIC_GRID_POWER'', ''grid_power''),
      (''PANYA_MQTT_TOPIC_SOLAR_POWER'', ''solar_power''),
      (''PANYA_MQTT_TOPIC_CONSUMPTION_POWER'', ''consumption_power'')]"

datatype config_error =
    ReadError string
  | ParseError string
  | NilMapWrite
  | InvalidPort int
  | MinAmpsTooLow int
  | MaxAmpsTooHigh int
  | InvalidLogFormat string
  | MinAboveMax int int
  | ListenRequired
  | TokenRequired string

definition set_topic :: "string \<Rightarrow> string \<Rightarrow> config \<Rightarrow> config_error + config" where
  "set_topic k v c =
     (case mqc_Topics (cf_MQTT c) of
        None \<Rightarrow> Inl NilMapWrite
      | Some m \<Rightarrow> Inr (on_mqtt (mqc_Topics_update (\<lambda>_. Some (AList.update k v m))) c))"

text \<open>The loops over the tables; \<open>override parse\<close> is one table's loop.\<close>

definition override ::
  "(string \<Rightarrow> 'a option) \<Rightarrow> (string \<Rightarrow> string) \<Rightarrow> (string \<times> ('a \<Rightarrow> config \<Rightarrow> config)) list \<Rightarrow> config \<Rightarrow> config" where
  "override parse getenv table c =
     fold (\<lambda>(env, set) c. let val = getenv env in
             if val \<noteq> '''' then (case parse val of Some x \<Rightarrow> set x c | None \<Rightarrow> c) else c) table c"

definition applyEnvOverrides :: "(string \<Rightarrow> string) \<Rightarrow> config \<Rightarrow> config_error + config" where
  "applyEnvOverrides getenv c =
     (let c = override Some getenv strOverrides c;
          c = override Atoi getenv intOverrides c;
          c = override ParseBool getenv boolOverrides c
      in fold (\<lambda>(env, topicKey) r.
             case r of Inl e \<Rightarrow> Inl e
             | Inr c \<Rightarrow> (let val = getenv env in if val \<noteq> '''' then set_topic topicKey val c else Inr c))
           topicOverrides (Inr c))"

subsection \<open>Validation\<close>

text \<open>\<open>net.SplitHostPort\<close>: host and port, or \<open>None\<close> for its error.\<close>

definition after_last_colon :: "string \<Rightarrow> string" where
  "after_last_colon s = rev (takeWhile (\<lambda>c. c \<noteq> CHR '':'') (rev s))"

definition SplitHostPort :: "string \<Rightarrow> (string \<times> string) option" where
  "SplitHostPort s =
     (if CHR '':'' \<notin> set s then None
      else if hd s = CHR ''['' then
        (if CHR '']'' \<notin> set s then None
         else let host = takeWhile (\<lambda>c. c \<noteq> CHR '']'') (tl s);
                  rest = tl (dropWhile (\<lambda>c. c \<noteq> CHR '']'') s)
         in if rest = [] \<or> hd rest \<noteq> CHR '':'' \<or> CHR '':'' \<in> set (tl rest) then None
            else if CHR ''['' \<in> set (tl s) \<or> CHR '']'' \<in> set rest then None
            else Some (host, tl rest))
      else let port = after_last_colon s; host = take (length s - length port - 1) s
         in if CHR '':'' \<in> set host \<or> CHR ''['' \<in> set s \<or> CHR '']'' \<in> set s then None
            else Some (host, port))"

definition HasPrefix :: "string \<Rightarrow> string \<Rightarrow> bool" where
  "HasPrefix s p \<longleftrightarrow> take (length p) s = p"

definition isLoopback :: "string \<Rightarrow> bool" where
  "isLoopback addr =
     (if addr \<in> {''localhost'', ''localhost:8888'', ''127.0.0.1'', ''127.0.0.1:8888'', ''::1'', ''::1:8888''}
      then True
      else if addr = '''' then False
      else let host = (case SplitHostPort addr of None \<Rightarrow> '''' | Some (h, p) \<Rightarrow> h)
        in if host = '''' then False
           else host = ''127.0.0.1'' \<or> host = ''::1'' \<or> HasPrefix host ''[::'')"

definition validate :: "config \<Rightarrow> config_error option" where
  "validate c =
     (if srv_OCPPPort (cf_Server c) \<le> 0 \<or> srv_OCPPPort (cf_Server c) > 65535
        then Some (InvalidPort (srv_OCPPPort (cf_Server c)))
      else if chg_MinAmps (cf_Charging c) < 6 then Some (MinAmpsTooLow (chg_MinAmps (cf_Charging c)))
      else if chg_MaxAmps (cf_Charging c) > 32 then Some (MaxAmpsTooHigh (chg_MaxAmps (cf_Charging c)))
      else if srv_LogFormat (cf_Server c) \<noteq> '''' \<and> srv_LogFormat (cf_Server c) \<noteq> ''json'' \<and>
              srv_LogFormat (cf_Server c) \<noteq> ''text''
        then Some (InvalidLogFormat (srv_LogFormat (cf_Server c)))
      else if chg_MinAmps (cf_Charging c) > chg_MaxAmps (cf_Charging c)
        then Some (MinAboveMax (chg_MinAmps (cf_Charging c)) (chg_MaxAmps (cf_Charging c)))
      else if web_Enabled (cf_WebUI c) then
        (if web_Listen (cf_WebUI c) = '''' then Some ListenRequired
         else if \<not> isLoopback (web_Listen (cf_WebUI c)) \<and> web_Token (cf_WebUI c) = ''''
           then Some (TokenRequired (web_Listen (cf_WebUI c)))
         else None)
      else None)"

definition LogLevelUpper :: "config \<Rightarrow> string" where
  "LogLevelUpper c = ToUpper (srv_LogLevel (cf_Server c))"

definition Validate :: "config \<Rightarrow> config_error option" where
  "Validate c = validate c"

subsection \<open>Loading\<close>

datatype file_read = FileMissing | FileError string | FileData string

type_synonym yaml_decoder = "string \<Rightarrow> config \<Rightarrow> string + config"

definition read_config :: "yaml_decoder \<Rightarrow> string \<Rightarrow> file_read \<Rightarrow> config_error + config" where
  "read_config unmarshal path file =
     (if path = '''' then Inr defaultConfig
      else case file of
        FileMissing \<Rightarrow> Inr defaultConfig
      | FileError e \<Rightarrow> Inl (ReadError e)
      | FileData data \<Rightarrow> (case unmarshal data defaultConfig of Inl e \<Rightarrow> Inl (ParseError e) | Inr c \<Rightarrow> Inr c))"

definition Load ::
  "yaml_decoder \<Rightarrow> (string \<Rightarrow> string) \<Rightarrow> string \<Rightarrow> file_read \<Rightarrow> config_error + config" where
  "Load unmarshal getenv path file =
     (case read_config unmarshal path file of
        Inl e \<Rightarrow> Inl e
      | Inr c \<Rightarrow> (case applyEnvOverrides getenv c of
          Inl e \<Rightarrow> Inl e
        | Inr c \<Rightarrow> (case validate c of Some e \<Rightarrow> Inl e | None \<Rightarrow> Inr c)))"

definition LoadFileOnly :: "yaml_decoder \<Rightarrow> string \<Rightarrow> file_read \<Rightarrow> config_error + config" where
  "LoadFileOnly unmarshal path file = read_config unmarshal path file"

text \<open>Whether the deprecation warning is given.\<close>

definition CheckDeprecatedEnergyTopics :: "config \<Rightarrow> bool" where
  "CheckDeprecatedEnergyTopics c \<longleftrightarrow>
     (let gridTopic = topic_of (mqc_Topics (cf_MQTT c)) ''grid_power''
      in gridTopic \<noteq> '''' \<and> enc_GridEntityID (cf_Energy c) = '''' \<and>
         enc_SolarEntityID (cf_Energy c) = '''' \<and> enc_ConsumptionEntityID (cf_Energy c) = '''')"

subsection \<open>The effective configuration\<close>

text \<open>The map \<open>OverriddenByEnv\<close> has only true entries: it is the list of its keys.\<close>

record effective_config =
  ef_ServerOCPPPort :: int
  ef_ServerOCPPPath :: string
  ef_ServerLogLevel :: string
  ef_ServerLogFormat :: string
  ef_MQTTBroker :: string
  ef_MQTTClientID :: string
  ef_MQTTUsername :: string
  ef_MQTTPasswordSet :: bool
  ef_MQTTBaseTopic :: string
  ef_MQTTTopics :: "(string \<times> string) list option"
  ef_MQTTDisconnectSec :: int
  ef_ChargingMinAmps :: int
  ef_ChargingMaxAmps :: int
  ef_ChargingContactorsSec :: int
  ef_ChargingDefaultAmps :: int
  ef_WebUIEnabled :: bool
  ef_WebUIListen :: string
  ef_WebUITokenSet :: bool
  ef_OverriddenByEnv :: "string list"

definition flatten :: "config \<Rightarrow> effective_config" where
  "flatten c =
     \<lparr>ef_ServerOCPPPort = srv_OCPPPort (cf_Server c), ef_ServerOCPPPath = srv_OCPPPath (cf_Server c),
      ef_ServerLogLevel = srv_LogLevel (cf_Server c), ef_ServerLogFormat = srv_LogFormat (cf_Server c),
      ef_MQTTBroker = mqc_Broker (cf_MQTT c), ef_MQTTClientID = mqc_ClientID (cf_MQTT c),
      ef_MQTTUsername = mqc_Username (cf_MQTT c), ef_MQTTPasswordSet = (mqc_Password (cf_MQTT c) \<noteq> ''''),
      ef_MQTTBaseTopic = mqc_BaseTopic (cf_MQTT c), ef_MQTTTopics = mqc_Topics (cf_MQTT c),
      ef_MQTTDisconnectSec = mqc_DisconnectThresholdSec (cf_MQTT c),
      ef_ChargingMinAmps = chg_MinAmps (cf_Charging c), ef_ChargingMaxAmps = chg_MaxAmps (cf_Charging c),
      ef_ChargingContactorsSec = chg_ContactorCooldownSec (cf_Charging c),
      ef_ChargingDefaultAmps = chg_DefaultAmps (cf_Charging c),
      ef_WebUIEnabled = web_Enabled (cf_WebUI c), ef_WebUIListen = web_Listen (cf_WebUI c),
      ef_WebUITokenSet = (web_Token (cf_WebUI c) \<noteq> ''''), ef_OverriddenByEnv = []\<rparr>"

definition addIfDifferent :: "'a \<Rightarrow> 'a \<Rightarrow> string \<Rightarrow> string list \<Rightarrow> string list" where
  "addIfDifferent fileVal fullVal key m = (if fileVal \<noteq> fullVal then m @ [key] else m)"

definition diffKeys :: "config \<Rightarrow> config \<Rightarrow> string list" where
  "diffKeys file full =
     (let m = [];
          m = addIfDifferent (srv_OCPPPort (cf_Server file)) (srv_OCPPPort (cf_Server full)) ''server.ocpp_port'' m;
          m = addIfDifferent (srv_OCPPPath (cf_Server file)) (srv_OCPPPath (cf_Server full)) ''server.ocpp_path'' m;
          m = addIfDifferent (srv_LogLevel (cf_Server file)) (srv_LogLevel (cf_Server full)) ''server.log_level'' m;
          m = addIfDifferent (srv_LogFormat (cf_Server file)) (srv_LogFormat (cf_Server full)) ''server.log_format'' m;
          m = addIfDifferent (mqc_Broker (cf_MQTT file)) (mqc_Broker (cf_MQTT full)) ''mqtt.broker'' m;
          m = addIfDifferent (mqc_ClientID (cf_MQTT file)) (mqc_ClientID (cf_MQTT full)) ''mqtt.client_id'' m;
          m = addIfDifferent (mqc_Username (cf_MQTT file)) (mqc_Username (cf_MQTT full)) ''mqtt.username'' m;
          m = addIfDifferent (mqc_Password (cf_MQTT file)) (mqc_Password (cf_MQTT full)) ''mqtt.password'' m;
          m = addIfDifferent (mqc_BaseTopic (cf_MQTT file)) (mqc_BaseTopic (cf_MQTT full)) ''mqtt.base_topic'' m;
          m = addIfDifferent (mqc_DisconnectThresholdSec (cf_MQTT file)) (mqc_DisconnectThresholdSec (cf_MQTT full))
                ''mqtt.disconnect_threshold_sec'' m;
          m = addIfDifferent (chg_MinAmps (cf_Charging file)) (chg_MinAmps (cf_Charging full)) ''charging.min_amps'' m;
          m = addIfDifferent (chg_MaxAmps (cf_Charging file)) (chg_MaxAmps (cf_Charging full)) ''charging.max_amps'' m;
          m = addIfDifferent (chg_ContactorCooldownSec (cf_Charging file)) (chg_ContactorCooldownSec (cf_Charging full))
                ''charging.contactor_cooldown_sec'' m;
          m = addIfDifferent (chg_DefaultAmps (cf_Charging file)) (chg_DefaultAmps (cf_Charging full))
                ''charging.default_amps'' m;
          m = addIfDifferent (web_Enabled (cf_WebUI file)) (web_Enabled (cf_WebUI full)) ''webui.enabled'' m;
          m = addIfDifferent (web_Listen (cf_WebUI file)) (web_Listen (cf_WebUI full)) ''webui.listen'' m
      in addIfDifferent (web_Token (cf_WebUI file)) (web_Token (cf_WebUI full)) ''webui.token'' m)"

definition Effective ::
  "yaml_decoder \<Rightarrow> (string \<Rightarrow> string) \<Rightarrow> string \<Rightarrow> file_read \<Rightarrow> config_error + effective_config" where
  "Effective unmarshal getenv path file =
     (case LoadFileOnly unmarshal path file of
        Inl e \<Rightarrow> Inl e
      | Inr fileOnly \<Rightarrow>
          (case Load unmarshal getenv path file of
             Inl e \<Rightarrow> Inl e
           | Inr full \<Rightarrow> Inr ((flatten full)\<lparr>ef_OverriddenByEnv := diffKeys fileOnly full\<rparr>)))"

subsection \<open>Classifying changes\<close>

datatype apply_class = ApplyNone | ApplyHot | ApplyRebuild | ApplyProcessRestart

text \<open>The constants are numbered in this order, which is how the code compares them.\<close>

fun class_rank :: "apply_class \<Rightarrow> nat" where
  "class_rank ApplyNone = 0"
| "class_rank ApplyHot = 1"
| "class_rank ApplyRebuild = 2"
| "class_rank ApplyProcessRestart = 3"

lemma class_rank_inj: "class_rank a = class_rank b \<Longrightarrow> a = b"
  by (cases a; cases b) auto

instantiation apply_class :: linorder
begin

definition less_eq_apply_class :: "apply_class \<Rightarrow> apply_class \<Rightarrow> bool" where
  "less_eq_apply_class a b \<longleftrightarrow> class_rank a \<le> class_rank b"

definition less_apply_class :: "apply_class \<Rightarrow> apply_class \<Rightarrow> bool" where
  "less_apply_class a b \<longleftrightarrow> class_rank a < class_rank b"

instance
  by standard (auto simp: less_eq_apply_class_def less_apply_class_def intro: class_rank_inj)

end

lemma apply_class_bot [simp]: "ApplyNone \<le> a" "max ApplyNone a = a" "max a ApplyNone = a"
  by (cases a; simp add: less_eq_apply_class_def max_def)+

record change_report =
  chr_Class :: apply_class
  chr_Fields :: "string list"
  chr_ChargerReconfigureRequired :: bool

definition report_if :: "bool \<Rightarrow> string \<Rightarrow> apply_class \<Rightarrow> bool \<Rightarrow> change_report \<Rightarrow> change_report" where
  "report_if differs field cls reconfigure r =
     (if differs then
        \<lparr>chr_Class = max (chr_Class r) cls, chr_Fields = chr_Fields r @ [field],
         chr_ChargerReconfigureRequired = (reconfigure \<or> chr_ChargerReconfigureRequired r)\<rparr>
      else r)"

definition mapsEqual :: "(string \<times> string) list option \<Rightarrow> (string \<times> string) list option \<Rightarrow> bool" where
  "mapsEqual a b \<longleftrightarrow>
     (let a = (case a of None \<Rightarrow> [] | Some m \<Rightarrow> m); b = (case b of None \<Rightarrow> [] | Some m \<Rightarrow> m)
      in length a = length b \<and>
         list_all (\<lambda>(k, v). case map_of b k of None \<Rightarrow> False | Some bb \<Rightarrow> bb = v) a)"

definition ClassifyChanges :: "config \<Rightarrow> config \<Rightarrow> change_report" where
  "ClassifyChanges old new =
     (let r = \<lparr>chr_Class = ApplyNone, chr_Fields = [], chr_ChargerReconfigureRequired = False\<rparr>;
          s = cf_Server old; s' = cf_Server new; m = cf_MQTT old; m' = cf_MQTT new;
          g = cf_Charging old; g' = cf_Charging new; w = cf_WebUI old; w' = cf_WebUI new;
          r = report_if (srv_OCPPPort s \<noteq> srv_OCPPPort s') ''server.ocpp_port'' ApplyRebuild False r;
          r = report_if (srv_OCPPPath s \<noteq> srv_OCPPPath s') ''server.ocpp_path'' ApplyRebuild True r;
          r = report_if (srv_LogLevel s \<noteq> srv_LogLevel s') ''server.log_level'' ApplyHot False r;
          r = report_if (srv_LogFormat s \<noteq> srv_LogFormat s') ''server.log_format'' ApplyRebuild False r;
          r = report_if (mqc_Broker m \<noteq> mqc_Broker m') ''mqtt.broker'' ApplyRebuild False r;
          r = report_if (mqc_ClientID m \<noteq> mqc_ClientID m') ''mqtt.client_id'' ApplyRebuild False r;
          r = report_if (mqc_Username m \<noteq> mqc_Username m') ''mqtt.username'' ApplyRebuild False r;
          r = report_if (mqc_Password m \<noteq> mqc_Password m') ''mqtt.password'' ApplyRebuild False r;
          r = report_if (mqc_BaseTopic m \<noteq> mqc_BaseTopic m') ''mqtt.base_topic'' ApplyRebuild False r;
          r = report_if (\<not> mapsEqual (mqc_Topics m) (mqc_Topics m')) ''mqtt.topics.*'' ApplyRebuild False r;
          r = report_if (mqc_DisconnectThresholdSec m \<noteq> mqc_DisconnectThresholdSec m')
                ''mqtt.disconnect_threshold_sec'' ApplyRebuild False r;
          r = report_if (chg_MinAmps g \<noteq> chg_MinAmps g') ''charging.min_amps'' ApplyHot False r;
          r = report_if (chg_MaxAmps g \<noteq> chg_MaxAmps g') ''charging.max_amps'' ApplyHot False r;
          r = report_if (chg_ContactorCooldownSec g \<noteq> chg_ContactorCooldownSec g')
                ''charging.contactor_cooldown_sec'' ApplyHot False r;
          r = report_if (chg_DefaultAmps g \<noteq> chg_DefaultAmps g') ''charging.default_amps'' ApplyHot False r;
          r = report_if (web_Enabled w \<noteq> web_Enabled w') ''webui.enabled'' ApplyProcessRestart False r;
          r = report_if (web_Listen w \<noteq> web_Listen w') ''webui.listen'' ApplyProcessRestart False r
      in report_if (web_Token w \<noteq> web_Token w') ''webui.token'' ApplyHot False r)"

subsection \<open>The fields by name\<close>

text \<open>The value of the field a dotted name stands for; the names are those of the form and of the
  effective configuration.\<close>

datatype field_value = IntV int | StrV string | BoolV bool

definition field_table :: "config \<Rightarrow> (string \<times> field_value) list" where
  "field_table c =
     [(''server.ocpp_port'', IntV (srv_OCPPPort (cf_Server c))),
      (''server.ocpp_path'', StrV (srv_OCPPPath (cf_Server c))),
      (''server.log_level'', StrV (srv_LogLevel (cf_Server c))),
      (''server.log_format'', StrV (srv_LogFormat (cf_Server c))),
      (''mqtt.broker'', StrV (mqc_Broker (cf_MQTT c))),
      (''mqtt.client_id'', StrV (mqc_ClientID (cf_MQTT c))),
      (''mqtt.username'', StrV (mqc_Username (cf_MQTT c))),
      (''mqtt.password'', StrV (mqc_Password (cf_MQTT c))),
      (''mqtt.base_topic'', StrV (mqc_BaseTopic (cf_MQTT c))),
      (''mqtt.disconnect_threshold_sec'', IntV (mqc_DisconnectThresholdSec (cf_MQTT c))),
      (''charging.min_amps'', IntV (chg_MinAmps (cf_Charging c))),
      (''charging.max_amps'', IntV (chg_MaxAmps (cf_Charging c))),
      (''charging.contactor_cooldown_sec'', IntV (chg_ContactorCooldownSec (cf_Charging c))),
      (''charging.default_amps'', IntV (chg_DefaultAmps (cf_Charging c))),
      (''webui.enabled'', BoolV (web_Enabled (cf_WebUI c))),
      (''webui.listen'', StrV (web_Listen (cf_WebUI c))),
      (''webui.token'', StrV (web_Token (cf_WebUI c)))]"

definition config_keys :: "string list" where
  "config_keys = [''server.ocpp_port'', ''server.ocpp_path'', ''server.log_level'', ''server.log_format'',
     ''mqtt.broker'', ''mqtt.client_id'', ''mqtt.username'', ''mqtt.password'', ''mqtt.base_topic'',
     ''mqtt.disconnect_threshold_sec'', ''charging.min_amps'', ''charging.max_amps'',
     ''charging.contactor_cooldown_sec'', ''charging.default_amps'', ''webui.enabled'', ''webui.listen'',
     ''webui.token'']"

definition cfield :: "config \<Rightarrow> string \<Rightarrow> field_value option" where
  "cfield c = map_of (field_table c)"

text \<open>What no field name reaches.\<close>

definition unlisted :: "config \<Rightarrow> (string \<times> string) list option \<times> int \<times> bool \<times> energy_config" where
  "unlisted c = (mqc_Topics (cf_MQTT c), chg_SolarThresholdW (cf_Charging c),
     web_StatusEnabled (cf_WebUI c), cf_Energy c)"

lemma keys_field_table: "map fst (field_table c) = config_keys"
  by (simp add: field_table_def config_keys_def)

lemma config_eqI:
  assumes "cfield c = cfield d" "unlisted c = unlisted d"
  shows "c = d"
proof -
  have "map (cfield c) config_keys = map (cfield d) config_keys" using assms(1) by simp
  then have eqs: "srv_OCPPPort (cf_Server c) = srv_OCPPPort (cf_Server d) \<and> srv_OCPPPath (cf_Server c) = srv_OCPPPath (cf_Server d) \<and>
      srv_LogLevel (cf_Server c) = srv_LogLevel (cf_Server d) \<and> srv_LogFormat (cf_Server c) = srv_LogFormat (cf_Server d) \<and>
      mqc_Broker (cf_MQTT c) = mqc_Broker (cf_MQTT d) \<and> mqc_ClientID (cf_MQTT c) = mqc_ClientID (cf_MQTT d) \<and>
      mqc_Username (cf_MQTT c) = mqc_Username (cf_MQTT d) \<and> mqc_Password (cf_MQTT c) = mqc_Password (cf_MQTT d) \<and>
      mqc_BaseTopic (cf_MQTT c) = mqc_BaseTopic (cf_MQTT d) \<and>
      mqc_DisconnectThresholdSec (cf_MQTT c) = mqc_DisconnectThresholdSec (cf_MQTT d) \<and>
      chg_MinAmps (cf_Charging c) = chg_MinAmps (cf_Charging d) \<and> chg_MaxAmps (cf_Charging c) = chg_MaxAmps (cf_Charging d) \<and>
      chg_ContactorCooldownSec (cf_Charging c) = chg_ContactorCooldownSec (cf_Charging d) \<and>
      chg_DefaultAmps (cf_Charging c) = chg_DefaultAmps (cf_Charging d) \<and>
      web_Enabled (cf_WebUI c) = web_Enabled (cf_WebUI d) \<and> web_Listen (cf_WebUI c) = web_Listen (cf_WebUI d) \<and>
      web_Token (cf_WebUI c) = web_Token (cf_WebUI d)"
    by (simp add: cfield_def field_table_def config_keys_def)
  have "cf_Server c = cf_Server d" using eqs by (intro server_config.equality) simp_all
  moreover have "cf_MQTT c = cf_MQTT d" using eqs assms(2)
    by (intro mqtt_config.equality) (simp_all add: unlisted_def)
  moreover have "cf_Charging c = cf_Charging d" using eqs assms(2)
    by (intro charging_config.equality) (simp_all add: unlisted_def)
  moreover have "cf_WebUI c = cf_WebUI d" using eqs assms(2)
    by (intro webui_config.equality) (simp_all add: unlisted_def)
  ultimately show ?thesis using assms(2) by (intro config.equality) (simp_all add: unlisted_def)
qed

lemma filter_Cons_append: "filter P (x # xs) = (if P x then [x] else []) @ filter P xs"
  by simp

lemma addIfDifferent_append: "addIfDifferent a b k m = m @ (if a \<noteq> b then [k] else [])"
  by (simp add: addIfDifferent_def)

lemma diffKeys_filter:
  "diffKeys file full = filter (\<lambda>k. cfield file k \<noteq> cfield full k) config_keys"
  unfolding diffKeys_def config_keys_def filter_Cons_append addIfDifferent_append Let_def
  by (simp add: cfield_def field_table_def split del: if_split)

text \<open>The class of a change by field name, and whether the field differs; the topics are a field of
  their own here.\<close>

definition class_keys :: "string list" where
  "class_keys = [''server.ocpp_port'', ''server.ocpp_path'', ''server.log_level'', ''server.log_format'',
     ''mqtt.broker'', ''mqtt.client_id'', ''mqtt.username'', ''mqtt.password'', ''mqtt.base_topic'',
     ''mqtt.topics.*'', ''mqtt.disconnect_threshold_sec'', ''charging.min_amps'', ''charging.max_amps'',
     ''charging.contactor_cooldown_sec'', ''charging.default_amps'', ''webui.enabled'', ''webui.listen'',
     ''webui.token'']"

definition differs :: "config \<Rightarrow> config \<Rightarrow> string \<Rightarrow> bool" where
  "differs old new k =
     (if k = ''mqtt.topics.*'' then \<not> mapsEqual (mqc_Topics (cf_MQTT old)) (mqc_Topics (cf_MQTT new))
      else cfield old k \<noteq> cfield new k)"

lemma report_if_append:
  "chr_Fields (report_if b k cls rc r) = chr_Fields r @ (if b then [k] else [])"
  "chr_Class (report_if b k cls rc r) = max (chr_Class r) (if b then cls else ApplyNone)"
  "chr_ChargerReconfigureRequired (report_if b k cls rc r) = (b \<and> rc \<or> chr_ChargerReconfigureRequired r)"
  by (simp_all add: report_if_def)

lemma classify_fields:
  "chr_Fields (ClassifyChanges old new) = filter (differs old new) class_keys"
  unfolding ClassifyChanges_def class_keys_def filter_Cons_append Let_def report_if_append
  by (simp add: differs_def cfield_def field_table_def split del: if_split)

lemma classify_reconfigure:
  "chr_ChargerReconfigureRequired (ClassifyChanges old new) \<longleftrightarrow> differs old new ''server.ocpp_path''"
  unfolding ClassifyChanges_def Let_def report_if_append
  by (simp add: differs_def cfield_def field_table_def split del: if_split)

end
