(* ===== verification/Writer.thy ===== *)
theory Writer
  imports Config
begin

section \<open>Writer: saving the configuration\<close>

text \<open>
  \<open>internal/config/writer.go\<close>. The file system is the list of the states it has gone through, newest
  first, so that a theorem can speak of a crash at any point. What the operating system answers is in
  the record \<open>os\<close>: each call's error, the name of the temporary file, and what a failed write leaves
  behind. A rename replaces the target in one step, as POSIX promises.
\<close>

type_synonym files = "string \<Rightarrow> string option"
type_synonym disk = "files list"

definition cur :: "disk \<Rightarrow> files" where "cur d = hd d"

definition set_file :: "string \<Rightarrow> string option \<Rightarrow> disk \<Rightarrow> disk" where
  "set_file name x d = (cur d)(name := x) # d"

definition rename_file :: "string \<Rightarrow> string \<Rightarrow> disk \<Rightarrow> disk" where
  "rename_file old new d = (cur d)(new := cur d old, old := None) # d"

record os =
  os_StatError :: "string option"
  os_CreateTemp :: "string + string"
  os_WriteError :: "string option"
  os_SyncError :: "string option"
  os_CloseError :: "string option"
  os_ReadError :: "string option"
  os_BackupError :: "string option"
  os_RenameError :: "string option"
  os_RemoveError :: "string option"
  os_Partial :: "string option"    \<comment> \<open>what a failed write leaves in its file\<close>

datatype write_error =
    StatFailed string
  | MarshalFailed string
  | CreateTempFailed string
  | WriteTempFailed string
  | SyncFailed string
  | CloseFailed string
  | ReadExistingFailed string
  | BackupFailed string
  | RenameFailed string

definition bak_of :: "string \<Rightarrow> string" where "bak_of path = path @ ''.bak''"

text \<open>The deferred clean-up removes the temporary file; its error is ignored.\<close>

definition cleanup :: "os \<Rightarrow> string \<Rightarrow> disk \<Rightarrow> disk" where
  "cleanup os tmp d = (case os_RemoveError os of Some _ \<Rightarrow> d | None \<Rightarrow> set_file tmp None d)"

text \<open>The copy of the previous contents to the \<open>.bak\<close> file.\<close>

definition write_backup :: "os \<Rightarrow> string \<Rightarrow> disk \<Rightarrow> write_error option \<times> disk" where
  "write_backup os path d =
     (case (os_ReadError os, cur d path) of
        (Some e, _) \<Rightarrow> (Some (ReadExistingFailed e), d)
      | (None, None) \<Rightarrow> (Some (ReadExistingFailed ''no such file''), d)
      | (None, Some data) \<Rightarrow>
          (case os_BackupError os of
             Some e \<Rightarrow> (Some (BackupFailed e), set_file (bak_of path) (os_Partial os) d)
           | None \<Rightarrow> (None, set_file (bak_of path) (Some data) d)))"

text \<open>What follows once the temporary file holds the data.\<close>

definition replace_target ::
  "os \<Rightarrow> string \<Rightarrow> string \<Rightarrow> bool \<Rightarrow> disk \<Rightarrow> write_error option \<times> disk" where
  "replace_target os tmp path existed d =
     (case (if existed then write_backup os path d else (None, d)) of
        (Some e, d) \<Rightarrow> (Some e, cleanup os tmp d)
      | (None, d) \<Rightarrow>
          (case os_RenameError os of
             Some e \<Rightarrow> (Some (RenameFailed e), cleanup os tmp d)
           | None \<Rightarrow> (None, rename_file tmp path d)))"

definition WriteAtomic ::
  "(config \<Rightarrow> string + string) \<Rightarrow> os \<Rightarrow> string \<Rightarrow> config \<Rightarrow> disk \<Rightarrow> write_error option \<times> disk" where
  "WriteAtomic marshal os path c d =
     (case os_StatError os of
        Some e \<Rightarrow> (Some (StatFailed e), d)
      | None \<Rightarrow>
          (let existed = (cur d path \<noteq> None) in
           case marshal c of
             Inl e \<Rightarrow> (Some (MarshalFailed e), d)
           | Inr data \<Rightarrow>
               (case os_CreateTemp os of
                  Inl e \<Rightarrow> (Some (CreateTempFailed e), d)
                | Inr tmp \<Rightarrow>
                    (let d = set_file tmp (Some '''') d in
                     case os_WriteError os of
                       Some e \<Rightarrow> (Some (WriteTempFailed e), cleanup os tmp (set_file tmp (os_Partial os) d))
                     | None \<Rightarrow>
                         (let d = set_file tmp (Some data) d in
                          case os_SyncError os of
                            Some e \<Rightarrow> (Some (SyncFailed e), cleanup os tmp d)
                          | None \<Rightarrow>
                              (case os_CloseError os of
                                 Some e \<Rightarrow> (Some (CloseFailed e), cleanup os tmp d)
                               | None \<Rightarrow> replace_target os tmp path existed d))))))"

subsection \<open>What a save may do to the disk\<close>

text \<open>\<open>reaches d d' P\<close>: \<open>d'\<close> continues \<open>d\<close> and every state added satisfies \<open>P\<close>.\<close>

definition reaches :: "disk \<Rightarrow> (files \<Rightarrow> bool) \<Rightarrow> disk \<Rightarrow> bool" where
  "reaches d P d' \<longleftrightarrow> (\<exists>new. d' = new @ d \<and> list_all P new)"

lemma reaches_refl [simp]: "reaches d P d"
  by (simp add: reaches_def)

lemma reaches_push:
  "reaches d P d' \<Longrightarrow> P ((cur d')(name := x)) \<Longrightarrow> reaches d P (set_file name x d')"
  "reaches d P d' \<Longrightarrow> P ((cur d')(new := cur d' old, old := None)) \<Longrightarrow> reaches d P (rename_file old new d')"
  unfolding reaches_def set_file_def rename_file_def by (metis append_Cons list.pred_inject(2))+

lemma cur_push [simp]:
  "cur (set_file name x d) = (cur d)(name := x)"
  "cur (rename_file old new d) = (cur d)(new := cur d old, old := None)"
  by (simp_all add: cur_def set_file_def rename_file_def)

text \<open>The target is as before or holds the data, and nothing but the target, its backup and the
  temporary file has changed.\<close>

definition save_state :: "files \<Rightarrow> string \<Rightarrow> string \<Rightarrow> string \<Rightarrow> bool \<Rightarrow> files \<Rightarrow> bool" where
  "save_state f0 tmp path data replaced f \<longleftrightarrow>
     f path = (if replaced then Some data else f0 path) \<and>
     (\<forall>q. q \<noteq> path \<longrightarrow> q \<noteq> bak_of path \<longrightarrow> q \<noteq> tmp \<longrightarrow> f q = f0 q)"

definition any_state :: "files \<Rightarrow> string \<Rightarrow> string \<Rightarrow> string \<Rightarrow> files \<Rightarrow> bool" where
  "any_state f0 tmp path data f \<longleftrightarrow> save_state f0 tmp path data True f \<or> save_state f0 tmp path data False f"

lemma bak_of_neq [simp]: "bak_of path \<noteq> path" "path \<noteq> bak_of path"
  by (auto simp: bak_of_def)

lemma cleanup_ok:
  assumes "reaches d (any_state f0 tmp path data) d'" "save_state f0 tmp path data False (cur d')" "tmp \<noteq> path"
  shows "reaches d (any_state f0 tmp path data) (cleanup os tmp d')"
    "save_state f0 tmp path data False (cur (cleanup os tmp d'))"
  using assms by (auto simp: cleanup_def save_state_def any_state_def split: option.split intro!: reaches_push)

lemma backup_ok:
  assumes "reaches d (any_state f0 tmp path data) d'" "save_state f0 tmp path data False (cur d')"
    and "write_backup os path d' = (e, d'')"
  shows "reaches d (any_state f0 tmp path data) d''" "save_state f0 tmp path data False (cur d'')"
    "e = None \<Longrightarrow> cur d'' (bak_of path) = f0 path"
  using assms
  by (auto simp: write_backup_def save_state_def any_state_def split: option.splits intro!: reaches_push)

lemma replace_ok:
  assumes "reaches d (any_state f0 tmp path data) d'" "save_state f0 tmp path data False (cur d')"
    and "tmp \<noteq> path" "tmp \<noteq> bak_of path" "cur d' (bak_of path) = f0 (bak_of path)" "cur d' tmp = Some data"
    and "replace_target os tmp path existed d' = (e, d'')"
  shows "reaches d (any_state f0 tmp path data) d'' \<and> save_state f0 tmp path data (e = None) (cur d'') \<and>
     (e = None \<longrightarrow> cur d'' tmp = None \<and>
        cur d'' (bak_of path) = (if existed then f0 path else f0 (bak_of path)))"
proof (cases "if existed then write_backup os path d' else (None, d')")
  case (Pair e1 d1)
  then have d1: "reaches d (any_state f0 tmp path data) d1" "save_state f0 tmp path data False (cur d1)"
    "e1 = None \<longrightarrow> cur d1 (bak_of path) = (if existed then f0 path else f0 (bak_of path))"
    using assms(1,2,5) backup_ok[OF assms(1,2)] by (auto split: if_splits)
  have tmp: "cur d1 tmp = Some data"
    using Pair assms(4,6) by (auto simp: write_backup_def split: if_splits option.splits)
  have final: "save_state f0 tmp path data True (cur (rename_file tmp path d1))"
    using d1(2) assms(3) tmp by (simp add: save_state_def)
  then have "reaches d (any_state f0 tmp path data) (rename_file tmp path d1)"
    using tmp by (intro reaches_push d1) (simp add: any_state_def)
  moreover have "cur (rename_file tmp path d1) tmp = None"
    "cur (rename_file tmp path d1) (bak_of path) = cur d1 (bak_of path)" using assms(3,4) by simp_all
  ultimately show ?thesis
    using Pair assms(7) d1 final cleanup_ok[OF d1(1,2) assms(3), of os]
    by (auto simp: replace_target_def simp del: cur_push split: option.splits)
qed

lemma save_atomic:
  assumes "marshal c = Inr data" "os_CreateTemp os = Inr tmp"
    and "tmp \<noteq> path" "tmp \<noteq> bak_of path"
    and "WriteAtomic marshal os path c d = (e, d')"
  shows "reaches d (any_state (cur d) tmp path data) d' \<and>
     save_state (cur d) tmp path data (e = None) (cur d') \<and>
     (e = None \<longrightarrow> cur d' tmp = None \<and>
        cur d' (bak_of path) = (if cur d path \<noteq> None then cur d path else cur d (bak_of path)))"
proof -
  let ?P = "any_state (cur d) tmp path data" and ?S = "save_state (cur d) tmp path data False"
  let ?d1 = "set_file tmp (Some '''') d"
  have put: "reaches d ?P (set_file tmp x d') \<and> ?S (cur (set_file tmp x d'))"
    if "reaches d ?P d' \<and> ?S (cur d')" for x d'
    using that assms(3) by (auto simp: save_state_def any_state_def intro!: reaches_push)
  have S0: "reaches d ?P d \<and> ?S (cur d)" by (simp add: save_state_def)
  then have "reaches d ?P ?d1 \<and> ?S (cur ?d1)" by (rule put)
  then have S: "reaches d ?P (set_file tmp x ?d1)" "?S (cur (set_file tmp x ?d1))" for x
    using put[of ?d1 x] by blast+
  have bak: "cur (set_file tmp x ?d1) (bak_of path) = cur d (bak_of path)" for x using assms(4) by simp
  have "cur (set_file tmp (Some data) ?d1) tmp = Some data" by simp
  note replace = replace_ok[OF S assms(3,4) bak this, of os "cur d path \<noteq> None" e d']
  note clean = cleanup_ok[OF S assms(3), of os]
  show ?thesis
  proof (cases "os_StatError os = None \<and> os_WriteError os = None \<and> os_SyncError os = None \<and> os_CloseError os = None")
    case True
    then show ?thesis using assms(5) replace by (simp add: WriteAtomic_def assms(1,2) Let_def)
  next
    case False
    then show ?thesis
      using assms(5) S0 clean by (auto simp: WriteAtomic_def assms(1,2) Let_def simp del: cur_push split: option.splits)
  qed
qed

text \<open>
  C14: saving is atomic. Whatever the operating system answers and wherever the process stops, the
  configuration file holds its old contents or the new ones, and nothing else is touched but the
  backup and the temporary file; an error leaves the old contents, and success leaves the new ones,
  the old ones in the backup if there were any, and no temporary file.
\<close>

theorem save_is_atomic:
  assumes "marshal c = Inr data" "os_CreateTemp os = Inr tmp"
    and "tmp \<noteq> path" "tmp \<noteq> bak_of path"
    and "WriteAtomic marshal os path c d = (e, d')"
  shows "reaches d (any_state (cur d) tmp path data) d' \<and>
     save_state (cur d) tmp path data (e = None) (cur d') \<and>
     (e = None \<longrightarrow> cur d' tmp = None \<and>
        cur d' (bak_of path) = (if cur d path \<noteq> None then cur d path else cur d (bak_of path)))"
  by (rule save_atomic[OF assms])

theorem save_is_atomic_witness:
  "let os = \<lparr>os_StatError = None, os_CreateTemp = Inr ''t'', os_WriteError = None, os_SyncError = None,
         os_CloseError = None, os_ReadError = None, os_BackupError = None, os_RenameError = Some ''EIO'',
         os_RemoveError = None, os_Partial = None\<rparr>;
       d = [(\<lambda>_. None)(''config.yaml'' := Some ''old'')];
       r = WriteAtomic (\<lambda>_. Inr ''new'') os ''config.yaml'' defaultConfig d
   in reaches d (any_state (cur d) ''t'' ''config.yaml'' ''new'') (snd r) \<and>
     save_state (cur d) ''t'' ''config.yaml'' ''new'' (fst r = None) (cur (snd r)) \<and>
     (fst r = None \<longrightarrow> cur (snd r) ''t'' = None \<and>
        cur (snd r) (bak_of ''config.yaml'') =
          (if cur d ''config.yaml'' \<noteq> None then cur d ''config.yaml'' else cur d (bak_of ''config.yaml'')))"
  unfolding Let_def by (rule save_is_atomic) (simp_all add: bak_of_def)

text \<open>With no fault on the way the save succeeds.\<close>

lemma save_without_faults:
  assumes "os_StatError os = None" "os_CreateTemp os = Inr tmp" "os_WriteError os = None"
    "os_SyncError os = None" "os_CloseError os = None" "os_ReadError os = None"
    "os_BackupError os = None" "os_RenameError os = None" "marshal c = Inr data" "tmp \<noteq> path"
  shows "fst (WriteAtomic marshal os path c d) = None"
  using assms
  by (auto simp: WriteAtomic_def replace_target_def write_backup_def Let_def split: option.split)

end
