(* ===== verification/Facade.thy ===== *)
theory Facade
  imports HandlerLaws Controller Config
begin

section \<open>Facade: the assembled system and its commands\<close>

text \<open>
  \<open>internal/csms/csms.go\<close> (construction, life cycle, queries, the command bridge that MQTT drives),
  \<open>pkg/csmsfactory/factory.go\<close> and \<open>cmd/panya-charge-oss/applier.go\<close>. The state holds the handler
  with the repositories and the controller with the commander, the calculator and the energy source.
  What a step adds to the handler's or the controller's trace is carried out here: an event goes to
  the emitter, a cleared override to the controller, a publication to \<open>ms_trace\<close>. The publisher and
  the controller of the command bridge are never nil in this construction. The MQTT and OCPP
  libraries are outside: \<open>ms_mqttConnected\<close> is what the client last reported.
\<close>

subsection \<open>State\<close>

datatype log_level = LevelDebug | LevelInfo | LevelWarn | LevelError

text \<open>A forwarding goroutine of \<open>Subscribe\<close>: the emitter's channel it reads, the event it holds, its
  output channel with the capacity, and whether its context is alive.\<close>

record forwarder =
  fw_src :: nat
  fw_held :: "csms_event option"
  fw_out :: "csms_event list"
  fw_taken :: "csms_event list"     \<comment> \<open>what the consumer has received from the output\<close>
  fw_buffer :: int
  fw_live :: bool

text \<open>\<open>ocpp/server.go\<close>: the adapter around the OCPP library's central system.\<close>

record ocpp_server =
  osv_port :: int
  osv_path :: string
  osv_running :: bool

text \<open>\<open>ms_stopping\<close>: a call of \<open>Stop\<close> waits for the forwarding goroutines. \<open>ms_emitted\<close> is the history
  of the events given to the emitter.\<close>

record csms =
  ms_emitter :: emitter
  ms_emitted :: "csms_event list"
  ms_server :: ocpp_server
  ms_handler :: handler
  ms_controller :: controller
  ms_broker :: string
  ms_mqttConnected :: bool
  ms_mqttOpen :: bool
  ms_levelVar :: log_level
  ms_started :: bool
  ms_running :: bool
  ms_stopping :: bool
  ms_forwarders :: "forwarder list"
  ms_trace :: "effect list"

definition publish :: "effect \<Rightarrow> csms \<Rightarrow> csms" where
  "publish eff m = m\<lparr>ms_trace := ms_trace m @ [eff]\<rparr>"

definition route_controller :: "effect \<Rightarrow> csms \<Rightarrow> csms" where
  "route_controller eff m =
     (case eff of
        EmitEvent ev \<Rightarrow> m\<lparr>ms_emitter := Emit ev (ms_emitter m), ms_emitted := ms_emitted m @ [ev]\<rparr>
      | _ \<Rightarrow> publish eff m)"

text \<open>A call on the controller, and what it publishes and emits.\<close>

definition on_controller :: "(controller \<Rightarrow> controller) \<Rightarrow> csms \<Rightarrow> csms" where
  "on_controller f m =
     (let c = ms_controller m; c' = f c
      in fold route_controller (drop (length (ctl_trace c)) (ctl_trace c')) (m\<lparr>ms_controller := c'\<rparr>))"

definition route_handler :: "effect \<Rightarrow> csms \<Rightarrow> csms" where
  "route_handler eff m =
     (case eff of ClearOverride k \<Rightarrow> on_controller (ClearManualOverride k) m | _ \<Rightarrow> route_controller eff m)"

definition on_handler :: "(handler \<Rightarrow> handler) \<Rightarrow> csms \<Rightarrow> csms" where
  "on_handler f m =
     (let h = ms_handler m; h' = f h
      in fold route_handler (drop (length (hd_trace h)) (hd_trace h')) (m\<lparr>ms_handler := h'\<rparr>))"

definition on_commander :: "(commander \<Rightarrow> 'r \<times> commander) \<Rightarrow> csms \<Rightarrow> 'r \<times> csms" where
  "on_commander f m =
     (let (r, cmd) = f (ctl_commander (ms_controller m))
      in (r, m\<lparr>ms_controller := (ms_controller m)\<lparr>ctl_commander := cmd\<rparr>\<rparr>))"

abbreviation chargers_of :: "csms \<Rightarrow> charger_repo" where "chargers_of m \<equiv> hd_chargers (ms_handler m)"
abbreviation sessions_of :: "csms \<Rightarrow> session_repo" where "sessions_of m \<equiv> hd_sessions (ms_handler m)"

subsection \<open>Construction\<close>

definition parseLogLevel :: "string \<Rightarrow> log_level" where
  "parseLogLevel level =
     (let u = ToUpper level in
      if u = ''DEBUG'' then LevelDebug else if u = ''WARN'' then LevelWarn
      else if u = ''ERROR'' then LevelError else LevelInfo)"

text \<open>\<open>time.Duration(n) * time.Second\<close> wraps at 64 bits.\<close>

definition seconds :: "int \<Rightarrow> duration" where
  "seconds n = wrap64 (n * second)"

definition gridVoltage :: rat where "gridVoltage = 230"

definition energy_configured :: "energy_config \<Rightarrow> bool" where
  "energy_configured e \<longleftrightarrow>
     enc_GridEntityID e \<noteq> '''' \<or> enc_SolarEntityID e \<noteq> '''' \<or> enc_ConsumptionEntityID e \<noteq> ''''"

definition new_energy :: "energy_config \<Rightarrow> energy" where
  "new_energy e =
     (if energy_configured e then
        HassEnergySource (NewEnergySource \<lparr>ha_GridEntityID = enc_GridEntityID e,
          ha_SolarEntityID = enc_SolarEntityID e, ha_ConsumptionEntityID = enc_ConsumptionEntityID e,
          ha_Token = enc_Token e\<rparr>)
      else NoOpEnergySource)"

definition new_controller :: "config \<Rightarrow> controller" where
  "new_controller cfg =
     (let calc = NewCalculator (chg_MinAmps (cf_Charging cfg)) (chg_MaxAmps (cf_Charging cfg)) gridVoltage;
          staleTimeout = seconds (mqc_DisconnectThresholdSec (cf_MQTT cfg));
          staleTimeout = (if staleTimeout \<le> 0 then 60 * second else staleTimeout);
          c = NewController NewCommander (new_energy (cf_Energy cfg)) True calc
                (chg_MinAmps (cf_Charging cfg)) staleTimeout;
          c = SetSolarThreshold (chg_SolarThresholdW (cf_Charging cfg)) c;
          c = SetEmitter c
      in if \<not> energy_configured (cf_Energy cfg) then SetEnabled False c else c)"

definition new_handler :: "config \<Rightarrow> handler" where
  "new_handler cfg =
     SetOverrideClearer (SetHandlerEmitter
       (NewHandler (NewRouter DefaultPolicy NoopRelay) NewInMemoryChargerRepository
         NewInMemorySessionRepository NewInMemoryMeterRepository (Some Map.empty) True False
         (chg_MinAmps (cf_Charging cfg)) (chg_MaxAmps (cf_Charging cfg)) False))"

text \<open>The adapter: \<open>server\<close> is the OCPP library's answer to creating the central system.\<close>

definition ocpp_NewServer :: "(string + unit) \<Rightarrow> int \<Rightarrow> string \<Rightarrow> string + ocpp_server" where
  "ocpp_NewServer server port path =
     (case server of
        Inl e \<Rightarrow> Inl e
      | Inr _ \<Rightarrow> Inr \<lparr>osv_port = port, osv_path = path, osv_running = False\<rparr>)"

definition ocpp_Start :: "ocpp_server \<Rightarrow> ocpp_server" where
  "ocpp_Start s = s\<lparr>osv_running := True\<rparr>"

definition ocpp_Stop :: "ocpp_server \<Rightarrow> ocpp_server" where
  "ocpp_Stop s = s\<lparr>osv_running := False\<rparr>"

definition IsRunning :: "ocpp_server \<Rightarrow> bool" where
  "IsRunning s = osv_running s"

definition New :: "(string + unit) \<Rightarrow> config \<Rightarrow> string + csms" where
  "New server cfg =
     (case ocpp_NewServer server (srv_OCPPPort (cf_Server cfg)) (srv_OCPPPath (cf_Server cfg)) of
        Inl e \<Rightarrow> Inl e
      | Inr srv \<Rightarrow> Inr
          \<lparr>ms_emitter = NewEmitter 0, ms_emitted = [], ms_server = srv, ms_handler = new_handler cfg,
           ms_controller = new_controller cfg,
           ms_broker = mqc_Broker (cf_MQTT cfg), ms_mqttConnected = False, ms_mqttOpen = True,
           ms_levelVar = parseLogLevel (srv_LogLevel (cf_Server cfg)),
           ms_started = False, ms_running = False, ms_stopping = False, ms_forwarders = [], ms_trace = []\<rparr>)"

subsection \<open>Life cycle\<close>

definition announce :: "csms \<Rightarrow> csms" where
  "announce m =
     publish (PublishSmartChargingEnabled (IsEnabled (ms_controller m))) (publish PublishGlobalDiscovery m)"

text \<open>The MQTT client's connection changes; the reconnect callback announces the global entities.\<close>

definition mqtt_connected :: "bool \<Rightarrow> csms \<Rightarrow> csms" where
  "mqtt_connected b m =
     (let m = m\<lparr>ms_mqttConnected := b\<rparr> in if b then announce m else m)"

text \<open>\<open>Start\<close> up to the point where it blocks: the second start is refused.\<close>

definition Start :: "csms \<Rightarrow> bool \<times> csms" where
  "Start m =
     (if ms_started m then (False, m)
      else (True, (let m = announce (m\<lparr>ms_started := True\<rparr>)
                   in m\<lparr>ms_server := ocpp_Start (ms_server m), ms_running := True\<rparr>)))"

text \<open>\<open>Stop\<close> cancels the control loop and the polling, closes the server and the clients, and waits
  for the goroutines; those of \<open>Subscribe\<close> end with the context of their subscriber only. Until then
  the call does not return and the system counts as started.\<close>

definition finish_stop :: "csms \<Rightarrow> csms" where
  "finish_stop m =
     (if ms_stopping m \<and> \<not> list_ex fw_live (ms_forwarders m)
      then m\<lparr>ms_started := False, ms_stopping := False\<rparr> else m)"

definition Stop :: "csms \<Rightarrow> csms" where
  "Stop m =
     finish_stop (m\<lparr>ms_running := False, ms_server := ocpp_Stop (ms_server m), ms_mqttOpen := False,
       ms_stopping := True\<rparr>)"

text \<open>The context of subscriber \<open>i\<close> is done: its goroutine returns.\<close>

definition cancel_subscriber :: "nat \<Rightarrow> csms \<Rightarrow> csms" where
  "cancel_subscriber i m =
     (if i < length (ms_forwarders m)
      then finish_stop (m\<lparr>ms_forwarders := (ms_forwarders m)[i := (ms_forwarders m ! i)\<lparr>fw_live := False\<rparr>]\<rparr>)
      else m)"

definition facade_Subscribe :: "int \<Rightarrow> csms \<Rightarrow> nat option \<times> csms" where
  "facade_Subscribe buffer m =
     (if \<not> ms_started m then (None, m)
      else let buffer = (if buffer \<le> 0 then DefaultEventBufferSize else buffer);
               (src, em) = Subscribe (ms_emitter m)
        in (Some (length (ms_forwarders m)),
            m\<lparr>ms_emitter := em,
              ms_forwarders := ms_forwarders m @
                [\<lparr>fw_src = src, fw_held = None, fw_out = [], fw_taken = [], fw_buffer = buffer,
                  fw_live = True\<rparr>]\<rparr>))"

text \<open>One round of the forwarding loop: receive an event, or put the held one to the output.\<close>

definition forward_step :: "nat \<Rightarrow> csms \<Rightarrow> csms" where
  "forward_step i m =
     (let fw = ms_forwarders m ! i in
      if \<not> (i < length (ms_forwarders m) \<and> fw_live fw) then m
      else case fw_held fw of
        None \<Rightarrow> (let (ev, em) = receive (fw_src fw) (ms_emitter m) in
          m\<lparr>ms_emitter := em, ms_forwarders := (ms_forwarders m)[i := fw\<lparr>fw_held := ev\<rparr>]\<rparr>)
      | Some ev \<Rightarrow>
          if int (length (fw_out fw)) < fw_buffer fw
          then m\<lparr>ms_forwarders := (ms_forwarders m)[i := fw\<lparr>fw_held := None, fw_out := fw_out fw @ [ev]\<rparr>]\<rparr>
          else m)"

text \<open>The consumer receives from its channel.\<close>

definition take_event :: "nat \<Rightarrow> csms \<Rightarrow> csms" where
  "take_event i m =
     (let fw = ms_forwarders m ! i in
      if i < length (ms_forwarders m) \<and> fw_out fw \<noteq> []
      then m\<lparr>ms_forwarders := (ms_forwarders m)
               [i := fw\<lparr>fw_out := tl (fw_out fw), fw_taken := fw_taken fw @ [hd (fw_out fw)]\<rparr>]\<rparr>
      else m)"

subsection \<open>Queries\<close>

definition charger_info_of :: "time \<Rightarrow> csms \<Rightarrow> charger \<Rightarrow> charger_info" where
  "charger_info_of now m ch =
     (let info = \<lparr>ci_ID = ch_ID ch, ci_Vendor = ch_Vendor ch, ci_Model = ch_Model ch,
            ci_Firmware = ch_FirmwareVersion ch, ci_SerialNumber = ch_SerialNumber ch, ci_Status = '''',
            ci_ConnectorID = 0, ci_TxID = 0, ci_LimitAmps = 0, ci_ChargingPower = Fin 0\<rparr>;
          info = (if \<not> ch_Online ch then info\<lparr>ci_Status := ''Unavailable''\<rparr> else info);
          info = (case ListConnectors (ch_ID ch) (chargers_of m) of
                    Inr (c # cs) \<Rightarrow> info\<lparr>ci_ConnectorID := cn_ConnectorID c, ci_Status := cn_Status c\<rparr>
                  | _ \<Rightarrow> info);
          info = (case GetActiveSession (ch_ID ch) (ci_ConnectorID info) (sessions_of m) of
                    Inr (Some active) \<Rightarrow> info\<lparr>ci_TxID := se_TransactionID active\<rparr>
                  | _ \<Rightarrow> info);
          info = info\<lparr>ci_LimitAmps := LastSetAmps (ch_ID ch) (ci_ConnectorID info) (ms_controller m)\<rparr>
      in case GetMeterValues (ch_ID ch) (now - 120 * second) now (hd_meters (ms_handler m)) of
           Inl e \<Rightarrow> info
         | Inr recent \<Rightarrow>
             (case List.find (\<lambda>mv. mv_Measurand mv = ''Power.Active.Import'') (rev recent) of
                None \<Rightarrow> info
              | Some mv \<Rightarrow> info\<lparr>ci_ChargingPower := mv_Value mv\<rparr>))"

definition Chargers :: "time \<Rightarrow> csms \<Rightarrow> charger_info list" where
  "Chargers now m =
     (case ListChargers (chargers_of m) of Inl e \<Rightarrow> [] | Inr chargers \<Rightarrow> map (charger_info_of now m) chargers)"

definition has_active :: "csms \<Rightarrow> charger_id \<Rightarrow> bool" where
  "has_active m k =
     (case ListConnectors k (chargers_of m) of
        Inl e \<Rightarrow> False
      | Inr conns \<Rightarrow>
          list_ex (\<lambda>conn. case GetActiveSession k (cn_ConnectorID conn) (sessions_of m) of
                            Inr (Some active) \<Rightarrow> True | _ \<Rightarrow> False) conns)"

definition HasActiveSession :: "csms \<Rightarrow> charger_id list \<times> bool" where
  "HasActiveSession m =
     (case ListChargers (chargers_of m) of
        Inl e \<Rightarrow> ([], False)
      | Inr chargers \<Rightarrow> (let ids = filter (has_active m) (map ch_ID chargers) in (ids, ids \<noteq> [])))"

definition MQTTStatus :: "csms \<Rightarrow> bool \<times> string" where
  "MQTTStatus m = (ms_mqttConnected m, ms_broker m)"

definition ChargingState :: "time \<Rightarrow> csms \<Rightarrow> charging_state" where
  "ChargingState now m = State now (ms_controller m)"

subsection \<open>Settings\<close>

record charging_params =
  cp_MinAmps :: int
  cp_MaxAmps :: int
  cp_ContactorCooldownSec :: int
  cp_DefaultAmps :: int

datatype update_error = MinAmpsBelow6 int | MaxAmpsAbove32 int | MinAmpsAboveMax int int

definition UpdateCharging :: "charging_params \<Rightarrow> csms \<Rightarrow> (update_error + unit) \<times> csms" where
  "UpdateCharging p m =
     (if cp_MinAmps p \<ge> 6 \<and> cp_MaxAmps p \<le> 32 \<and> cp_MinAmps p \<le> cp_MaxAmps p then
        (let c = ms_controller m;
             c = c\<lparr>ctl_calc := SetLimits (cp_MinAmps p) (cp_MaxAmps p) (ctl_calc c)\<rparr>;
             c = SetSafeAmps (cp_DefaultAmps p) c;
             c = c\<lparr>ctl_commander := SetCooldown (seconds (cp_ContactorCooldownSec p)) (ctl_commander c)\<rparr>
         in (Inr (), m\<lparr>ms_controller := c,
               ms_handler := SetMinMax (cp_MinAmps p) (cp_MaxAmps p) (ms_handler m)\<rparr>))
      else if cp_MinAmps p < 6 then (Inl (MinAmpsBelow6 (cp_MinAmps p)), m)
      else if cp_MaxAmps p > 32 then (Inl (MaxAmpsAbove32 (cp_MaxAmps p)), m)
      else (Inl (MinAmpsAboveMax (cp_MinAmps p) (cp_MaxAmps p)), m))"

definition SetLogLevel :: "string \<Rightarrow> csms \<Rightarrow> bool \<times> csms" where
  "SetLogLevel level m =
     (let lv = parseLogLevel level; u = ToUpper level in
      if u \<noteq> ''DEBUG'' \<and> u \<noteq> ''INFO'' \<and> u \<noteq> ''WARN'' \<and> u \<noteq> ''ERROR'' then (False, m)
      else (True, m\<lparr>ms_levelVar := lv\<rparr>))"

subsection \<open>The command bridge\<close>

definition bridge_SetChargingProfile ::
  "env \<Rightarrow> charger_id \<Rightarrow> int \<Rightarrow> int \<Rightarrow> csms \<Rightarrow> (command_error + unit) \<times> csms" where
  "bridge_SetChargingProfile env k n amps m =
     on_commander (SetChargingProfile env (Some (sessions_of m)) k n amps) m"

definition applyAmps :: "env \<Rightarrow> charger_id \<Rightarrow> int \<Rightarrow> csms \<Rightarrow> csms" where
  "applyAmps env k amps m =
     (case ListConnectors k (chargers_of m) of
        Inl e \<Rightarrow> m
      | Inr conns \<Rightarrow>
          (let (sent, m) = fold (\<lambda>conn (sent, m).
                 if cn_ConnectorID conn = 0 then (sent, m)
                 else case bridge_SetChargingProfile env k (cn_ConnectorID conn) amps m of
                        (Inl e, m) \<Rightarrow> (sent, m)
                      | (Inr _, m) \<Rightarrow> (True, m)) conns (False, m);
               m = (if sent then on_controller (SetManualOverride k) m else m)
           in if sent then publish (PublishChargerCurrent k amps) m else m))"

definition OnSetAmps :: "env \<Rightarrow> charger_id \<Rightarrow> int \<Rightarrow> csms \<Rightarrow> csms" where
  "OnSetAmps env k amps m =
     (if k = '''' then
        (case ListChargers (chargers_of m) of
           Inl e \<Rightarrow> m
         | Inr chargers \<Rightarrow> fold (\<lambda>ch. applyAmps env (ch_ID ch) amps) chargers m)
      else applyAmps env k amps m)"

definition start_conn :: "env \<Rightarrow> charger_id \<Rightarrow> connector \<Rightarrow> csms \<Rightarrow> csms" where
  "start_conn env k conn m =
     (if cn_ConnectorID conn = 0 then m
      else if (case GetActiveSession k (cn_ConnectorID conn) (sessions_of m) of
                 Inr (Some active) \<Rightarrow> se_TransactionID active \<noteq> 0 | _ \<Rightarrow> False)
      then publish (PublishChargingState k True) m
      else snd (on_commander (RemoteStartTransaction env k (cn_ConnectorID conn) ''default'') m))"

definition startCharging :: "env \<Rightarrow> charger_id \<Rightarrow> csms \<Rightarrow> csms" where
  "startCharging env k m =
     (case ListConnectors k (chargers_of m) of
        Inl e \<Rightarrow> m | Inr conns \<Rightarrow> fold (start_conn env k) conns m)"

definition stop_conn :: "env \<Rightarrow> charger_id \<Rightarrow> connector \<Rightarrow> csms \<Rightarrow> csms" where
  "stop_conn env k conn m =
     (case GetActiveSession k (cn_ConnectorID conn) (sessions_of m) of
        Inl e \<Rightarrow> m
      | Inr None \<Rightarrow> m
      | Inr (Some active) \<Rightarrow>
          if se_TransactionID active = 0 then m
          else snd (on_commander (RemoteStopTransaction env k (se_TransactionID active)) m))"

definition stopCharging :: "env \<Rightarrow> charger_id \<Rightarrow> csms \<Rightarrow> csms" where
  "stopCharging env k m =
     (case ListConnectors k (chargers_of m) of
        Inl e \<Rightarrow> m | Inr conns \<Rightarrow> fold (stop_conn env k) conns m)"

definition OnSetState :: "env \<Rightarrow> charger_id \<Rightarrow> bool \<Rightarrow> csms \<Rightarrow> csms" where
  "OnSetState env k charging m =
     (let each = fold (\<lambda>i. if charging then startCharging env i else stopCharging env i) in
      if k = '''' then
        (case ListChargers (chargers_of m) of
           Inl e \<Rightarrow> m | Inr chargers \<Rightarrow> each (map ch_ID chargers) m)
      else each [k] m)"

definition OnSetSmartCharging :: "bool \<Rightarrow> csms \<Rightarrow> csms" where
  "OnSetSmartCharging enabled m =
     (let m = on_controller (SetEnabled enabled) m;
          m = (if enabled then on_controller ClearAllManualOverrides m else m)
      in publish (PublishSmartChargingEnabled enabled) m)"

definition OnSetChargingMode :: "charger_id \<Rightarrow> bool \<Rightarrow> csms \<Rightarrow> csms" where
  "OnSetChargingMode k manual m =
     on_controller (if manual then SetManualOverride k else ClearManualOverride k) m"

definition OnSetSolarThreshold :: "charger_id \<Rightarrow> int \<Rightarrow> csms \<Rightarrow> csms" where
  "OnSetSolarThreshold k watts m =
     publish (PublishSolarThreshold k watts) (on_controller (SetSolarThreshold watts) m)"

subsection \<open>The system's steps\<close>

definition inbound :: "reads \<Rightarrow> charger_id \<Rightarrow> inbound_event \<Rightarrow> csms \<Rightarrow> csms" where
  "inbound rd k ev m = on_handler (handle rd k ev) m"

definition control_tick :: "env \<Rightarrow> time \<Rightarrow> csms \<Rightarrow> csms" where
  "control_tick env now m =
     (if ms_running m then on_controller (tick env (chargers_of m) (sessions_of m) now) m else m)"

definition energy_poll ::
  "(float64 \<Rightarrow> int) \<Rightarrow> (string \<Rightarrow> time \<times> ha_reply) \<Rightarrow> string list \<Rightarrow> csms \<Rightarrow> csms" where
  "energy_poll plat net order m =
     (case ctl_energySource (ms_controller m) of
        NoOpEnergySource \<Rightarrow> m
      | HassEnergySource e \<Rightarrow>
          m\<lparr>ms_controller := (ms_controller m)\<lparr>ctl_energySource := HassEnergySource (pollOnce plat net order e)\<rparr>\<rparr>)"

subsection \<open>The factory\<close>

record factory_charging =
  fch_MinAmps :: int
  fch_MaxAmps :: int
  fch_ContactorCooldownSec :: int
  fch_DefaultAmps :: int

record factory_config =
  fcf_Server :: server_config
  fcf_MQTT :: mqtt_config
  fcf_Charging :: factory_charging
  fcf_Energy :: energy_config

datatype factory_error = FactoryMinAmps int | FactoryMaxAmps int | InitFailed string

definition or_default :: "'a \<Rightarrow> 'a \<Rightarrow> 'a \<Rightarrow> 'a" where
  "or_default zero d x = (if x = zero then d else x)"

definition internal_config :: "factory_config \<Rightarrow> config" where
  "internal_config cfg =
     (let s = fcf_Server cfg; q = fcf_MQTT cfg; g = fcf_Charging cfg in
      \<lparr>cf_Server = \<lparr>srv_OCPPPort = or_default 0 8887 (srv_OCPPPort s),
         srv_OCPPPath = or_default '''' ''/{ws}'' (srv_OCPPPath s),
         srv_LogLevel = or_default '''' ''info'' (srv_LogLevel s), srv_LogFormat = srv_LogFormat s\<rparr>,
       cf_MQTT = \<lparr>mqc_Broker = or_default '''' ''tcp://localhost:1883'' (mqc_Broker q),
         mqc_ClientID = mqc_ClientID q, mqc_Username = mqc_Username q, mqc_Password = mqc_Password q,
         mqc_BaseTopic = or_default '''' ''panya'' (mqc_BaseTopic q), mqc_Topics = mqc_Topics q,
         mqc_DisconnectThresholdSec = or_default 0 60 (mqc_DisconnectThresholdSec q)\<rparr>,
       cf_Charging = \<lparr>chg_MinAmps = or_default 0 6 (fch_MinAmps g), chg_MaxAmps = or_default 0 32 (fch_MaxAmps g),
         chg_ContactorCooldownSec = fch_ContactorCooldownSec g, chg_DefaultAmps = fch_DefaultAmps g,
         chg_SolarThresholdW = 0\<rparr>,
       cf_WebUI = \<lparr>web_Enabled = False, web_StatusEnabled = False, web_Listen = '''', web_Token = ''''\<rparr>,
       cf_Energy = fcf_Energy cfg\<rparr>)"

definition factory_New :: "(string + unit) \<Rightarrow> factory_config \<Rightarrow> factory_error + csms" where
  "factory_New server cfg =
     (if fch_MinAmps (fcf_Charging cfg) \<noteq> 0 \<and> fch_MinAmps (fcf_Charging cfg) < 6
        then Inl (FactoryMinAmps (fch_MinAmps (fcf_Charging cfg)))
      else if fch_MaxAmps (fcf_Charging cfg) > 32 then Inl (FactoryMaxAmps (fch_MaxAmps (fcf_Charging cfg)))
      else (case New server (internal_config cfg) of Inl e \<Rightarrow> Inl (InitFailed e) | Inr m \<Rightarrow> Inr m))"

definition buildFacade :: "(string + unit) \<Rightarrow> config \<Rightarrow> factory_error + csms" where
  "buildFacade server cfg =
     factory_New server
       \<lparr>fcf_Server = cf_Server cfg, fcf_MQTT = cf_MQTT cfg,
        fcf_Charging = \<lparr>fch_MinAmps = chg_MinAmps (cf_Charging cfg), fch_MaxAmps = chg_MaxAmps (cf_Charging cfg),
          fch_ContactorCooldownSec = chg_ContactorCooldownSec (cf_Charging cfg),
          fch_DefaultAmps = chg_DefaultAmps (cf_Charging cfg)\<rparr>,
        fcf_Energy = cf_Energy cfg\<rparr>"

subsection \<open>The applier of the web UI\<close>

text \<open>It holds the current facade; \<open>runFacade\<close> starts it in a goroutine.\<close>

definition runFacade :: "csms \<Rightarrow> csms" where
  "runFacade m = snd (Start m)"

definition applier_UpdateCharging :: "charging_params \<Rightarrow> csms \<Rightarrow> (update_error + unit) \<times> csms" where
  "applier_UpdateCharging p m = UpdateCharging p m"

definition applier_SetLogLevel :: "string \<Rightarrow> csms \<Rightarrow> bool \<times> csms" where
  "applier_SetLogLevel level m = SetLogLevel level m"

definition applier_HasActiveSession :: "csms \<Rightarrow> charger_id list \<times> bool" where
  "applier_HasActiveSession m = HasActiveSession m"

text \<open>\<open>Rebuild\<close> returns only when \<open>Stop\<close> has returned; \<open>None\<close> says that it is waiting.\<close>

definition Rebuild :: "(string + unit) \<Rightarrow> config \<Rightarrow> csms \<Rightarrow> (factory_error + unit) option \<times> csms" where
  "Rebuild server cfg m =
     (let m = Stop m in
      if ms_stopping m then (None, m)
      else case buildFacade server cfg of
        Inl e \<Rightarrow> (Some (Inl e), m)
      | Inr m' \<Rightarrow> (Some (Inr ()), runFacade m'))"

definition Shutdown :: "csms \<Rightarrow> csms" where
  "Shutdown m = Stop m"

end
