(* ===== verification/System.thy ===== *)
theory System
  imports Facade
begin

section \<open>System: runs of the assembled program\<close>

text \<open>
  The assembled system of theory \<open>Facade\<close> as a state machine: an event is a message of a charger, a
  tick of the control loop, a poll of the energy source, a command from MQTT, a call of the web UI's
  applier or a change of the life cycle. The environment of the commander (what the chargers answer,
  and the clock) is fixed for a run, as a function of the commands handed over so far.

  The locale \<open>tick_contract\<close> says what a property of the commander, the calculator and the safe limit
  must satisfy to survive a tick; \<open>sys_contract\<close> adds the commands from outside. Its two
  interpretations are the contactor protection and the range of the commanded current.
\<close>

subsection \<open>What a tick does to the commander\<close>

lemma apply_limit_safe [simp]: "ctl_safeAmps (apply_limit env sr k n a c) = ctl_safeAmps c"
  using apply_limit_settings[of env sr k n a c] by (simp add: settings_of_def)

lemma note_safe [simp]:
  "ctl_safeAmps (note_ctl eff c) = ctl_safeAmps c"
  "ctl_safeAmps (publish_ctl eff c) = ctl_safeAmps c"
  "ctl_safeAmps (emit_ctl ev c) = ctl_safeAmps c"
  by (simp_all add: note_ctl_def publish_ctl_def emit_ctl_def)

locale tick_contract =
  fixes env :: env and J :: "commander \<Rightarrow> calculator \<Rightarrow> int \<Rightarrow> bool"
  assumes observe: "J cmd calc safe \<Longrightarrow> J cmd (fst (Compute i s calc)) safe"
    and limit: "J cmd calc safe \<Longrightarrow>
      J (snd (SetChargingProfile env repo k n (pr_LimitAmps (snd (Compute i s calc))) cmd))
        (fst (Compute i s calc)) safe"
    and revert: "J cmd calc safe \<Longrightarrow> J (snd (SetChargingProfile env repo k n safe cmd)) calc safe"
    and start: "J cmd calc safe \<Longrightarrow> J (snd (RemoteStartTransaction env k n tag cmd)) calc safe"
    and stop: "J cmd calc safe \<Longrightarrow> J (snd (RemoteStopTransaction env k tx cmd)) calc safe"
begin

definition holds :: "controller \<Rightarrow> bool" where
  "holds c \<longleftrightarrow> J (ctl_commander c) (ctl_calc c) (ctl_safeAmps c)"

lemma holds_note [simp]:
  "holds (note_ctl eff c) = holds c" "holds (publish_ctl eff c) = holds c" "holds (emit_ctl ev c) = holds c"
  by (simp_all add: holds_def)

lemma holds_upd [simp]:
  "holds (c\<lparr>ctl_lastSetAmps := x1\<rparr>) = holds c" "holds (c\<lparr>ctl_lastShouldStop := x2\<rparr>) = holds c"
  "holds (c\<lparr>ctl_enabled := x3\<rparr>) = holds c" "holds (c\<lparr>ctl_manualOverride := x4\<rparr>) = holds c"
  "holds (c\<lparr>ctl_solarThreshold := x5\<rparr>) = holds c" "holds (c\<lparr>ctl_solarGateStopped := x6\<rparr>) = holds c"
  "holds (c\<lparr>ctl_solarBelowTicks := x7\<rparr>) = holds c" "holds (c\<lparr>ctl_solarAboveTicks := x8\<rparr>) = holds c"
  "holds (c\<lparr>ctl_energySource := x9\<rparr>) = holds c"
  by (simp_all add: holds_def)

lemma apply_limit_holds:
  assumes "holds c" "J (snd (SetChargingProfile env (Some sr) k n a (ctl_commander c))) (ctl_calc c) (ctl_safeAmps c)"
  shows "holds (apply_limit env sr k n a c)"
  using assms by (simp add: holds_def apply_limit_commander)

lemma processConnector_holds:
  assumes "holds c" shows "holds (processConnector env sr now ch s conn c)"
proof -
  obtain calc result where 1: "Compute (ch_ID ch) s (ctl_calc c) = (calc, result)" by fastforce
  have obs: "J (ctl_commander c) calc (ctl_safeAmps c)"
    using observe[OF assms[unfolded holds_def], of "ch_ID ch" s] by (simp add: 1)
  have lim: "J (snd (SetChargingProfile env (Some sr) k n (pr_LimitAmps result) (ctl_commander c))) calc (ctl_safeAmps c)"
    for k n using limit[OF assms[unfolded holds_def], of "Some sr" k n "ch_ID ch" s] by (simp add: 1)
  have g: "holds (apply_limit env sr (ch_ID ch) (cn_ConnectorID conn) a d)"
    if "ctl_commander d = ctl_commander c" "ctl_calc d = calc" "ctl_safeAmps d = ctl_safeAmps c"
      "a = ctl_safeAmps c \<or> a = pr_LimitAmps result" for a d
    using that obs lim revert[OF obs] by (auto simp: holds_def apply_limit_commander)
  show ?thesis
    unfolding processConnector_def 1 Let_def prod.case by (auto intro!: g)
qed

lemma processCharger_holds: "holds c \<Longrightarrow> holds (processCharger env cr sr now s ch c)"
  by (auto simp: processCharger_def ListConnectors_def intro!: fold_invariant[where P = holds] processConnector_holds)

lemma revert_holds:
  assumes "holds c" shows "holds (revertAllToSafe env cr sr c)"
proof -
  let ?I = "\<lambda>d. holds d \<and> ctl_safeAmps d = ctl_safeAmps c"
  have conn: "?I (if \<not> controlled conn then d else apply_limit env sr k (cn_ConnectorID conn) (ctl_safeAmps c) d)"
    if "?I d" for conn k d
    using that revert[of "ctl_commander d" "ctl_calc d" "ctl_safeAmps d" "Some sr"]
    by (auto simp: holds_def apply_limit_commander)
  have "?I (revertAllToSafe env cr sr c)"
    unfolding revertAllToSafe_def Let_def ListChargers_def ListConnectors_def sum.case
    by (intro fold_invariant[where P = ?I]) (use assms conn in \<open>auto intro!: fold_invariant[where P = ?I]\<close>)
  then show ?thesis ..
qed

lemma gate_stop_holds: "holds c \<Longrightarrow> holds (gate_stop_charger env cr sr ch c)"
proof -
  have "holds (gate_stop_conn env sr k conn d)" if "holds d" for k conn d
    using that stop by (auto simp: gate_stop_conn_def holds_def split: sum.split option.split)
  then show "holds c \<Longrightarrow> holds (gate_stop_charger env cr sr ch c)"
    by (auto simp: gate_stop_charger_def Let_def ListConnectors_def intro!: fold_invariant[where P = holds])
qed

lemma gate_start_holds: "holds c \<Longrightarrow> holds (gate_start_charger env cr ch c)"
proof -
  have "holds (gate_start_conn env k conn d)" if "holds d" for k conn d
    using that start by (auto simp: gate_start_conn_def holds_def)
  then show "holds c \<Longrightarrow> holds (gate_start_charger env cr ch c)"
    by (auto simp: gate_start_charger_def Let_def ListConnectors_def intro!: fold_invariant[where P = holds])
qed

lemma gate_holds:
  assumes "holds c" shows "holds (snd (runSolarGate env cr sr now chs c))"
proof -
  have "holds (gate_forget_offline chs c)"
    unfolding gate_forget_offline_def using assms by (rule fold_invariant) simp
  then show ?thesis using assms
    by (auto simp: runSolarGate_def Let_def
        intro!: fold_invariant[where P = holds] gate_stop_holds gate_start_holds)
qed

lemma tick_holds:
  assumes "holds c" shows "holds (tick env cr sr now c)"
proof -
  obtain skip d where gate: "runSolarGate env cr sr now (vals_of (cr_chargers cr)) c = (skip, d)" by fastforce
  then have d: "holds d" using gate_holds[OF assms] by (metis snd_conv)
  have "holds (fold (\<lambda>ch c. if \<not> ch_Online ch then c else processCharger env cr sr now s ch c) chs d)" for s chs
    using d by (rule fold_invariant) (auto intro: processCharger_holds)
  then show ?thesis using assms d gate
    by (auto simp: tick_def ListChargers_def Let_def revert_holds split: bool.split)
qed

end

subsection \<open>Events and runs\<close>

datatype sys_event =
    Inbound reads charger_id inbound_event
  | Tick time
  | Poll "float64 \<Rightarrow> int" "string \<Rightarrow> time \<times> ha_reply" "string list"
  | SetAmpsCmd charger_id int
  | SetStateCmd charger_id bool
  | SetSmartChargingCmd bool
  | SetModeCmd charger_id bool
  | SetThresholdCmd charger_id int
  | UpdateChargingCall charging_params
  | SetLogLevelCall string
  | StartCall
  | StopCall
  | MqttConnection bool
  | SubscribeCall int
  | ForwardCall nat
  | CancelCall nat
  | TakeCall nat

fun sys_do :: "env \<Rightarrow> sys_event \<Rightarrow> csms \<Rightarrow> csms" where
  "sys_do env (Inbound rd k ev) m = inbound rd k ev m"
| "sys_do env (Tick now) m = control_tick env now m"
| "sys_do env (Poll plat net order) m = energy_poll plat net order m"
| "sys_do env (SetAmpsCmd k amps) m = OnSetAmps env k amps m"
| "sys_do env (SetStateCmd k charging) m = OnSetState env k charging m"
| "sys_do env (SetSmartChargingCmd enabled) m = OnSetSmartCharging enabled m"
| "sys_do env (SetModeCmd k manual) m = OnSetChargingMode k manual m"
| "sys_do env (SetThresholdCmd k watts) m = OnSetSolarThreshold k watts m"
| "sys_do env (UpdateChargingCall p) m = snd (UpdateCharging p m)"
| "sys_do env (SetLogLevelCall level) m = snd (SetLogLevel level m)"
| "sys_do env StartCall m = snd (Start m)"
| "sys_do env StopCall m = Stop m"
| "sys_do env (MqttConnection b) m = mqtt_connected b m"
| "sys_do env (SubscribeCall buffer) m = snd (facade_Subscribe buffer m)"
| "sys_do env (ForwardCall i) m = forward_step i m"
| "sys_do env (CancelCall i) m = cancel_subscriber i m"
| "sys_do env (TakeCall i) m = take_event i m"

inductive reachable :: "env \<Rightarrow> (sys_event \<Rightarrow> bool) \<Rightarrow> csms \<Rightarrow> csms \<Rightarrow> bool"
  for env :: env and ok :: "sys_event \<Rightarrow> bool" and m0 :: csms
where
  init: "reachable env ok m0 m0"
| step: "reachable env ok m0 m \<Longrightarrow> ok ev \<Longrightarrow> reachable env ok m0 (sys_do env ev m)"

text \<open>The part of the state the contract is about, and the handler.\<close>

definition core :: "csms \<Rightarrow> commander \<times> calculator \<times> int" where
  "core m = (ctl_commander (ms_controller m), ctl_calc (ms_controller m), ctl_safeAmps (ms_controller m))"

lemma publish_frame [simp]:
  "ms_controller (publish eff m) = ms_controller m" "ms_handler (publish eff m) = ms_handler m"
  "ms_running (publish eff m) = ms_running m"
  by (simp_all add: publish_def)

lemma finish_stop_frame [simp]:
  "ms_controller (finish_stop m) = ms_controller m" "ms_handler (finish_stop m) = ms_handler m"
  by (simp_all add: finish_stop_def)

lemma route_controller_frame [simp]:
  "ms_controller (route_controller eff m) = ms_controller m"
  "ms_handler (route_controller eff m) = ms_handler m"
  by (simp_all add: route_controller_def split: effect.split)

lemma on_controller_frame [simp]:
  "ms_controller (on_controller f m) = f (ms_controller m)"
  "ms_handler (on_controller f m) = ms_handler m"
  unfolding on_controller_def Let_def by (subst fold_frame; simp)+

lemma override_frame [simp]:
  "ctl_commander (SetManualOverride k c) = ctl_commander c" "ctl_calc (SetManualOverride k c) = ctl_calc c"
  "ctl_safeAmps (SetManualOverride k c) = ctl_safeAmps c"
  "ctl_commander (ClearManualOverride k c) = ctl_commander c" "ctl_calc (ClearManualOverride k c) = ctl_calc c"
  "ctl_safeAmps (ClearManualOverride k c) = ctl_safeAmps c"
  by (simp_all add: SetManualOverride_def ClearManualOverride_def)

lemma clear_all_frame [simp]:
  "ctl_commander (ClearAllManualOverrides c) = ctl_commander c" "ctl_calc (ClearAllManualOverrides c) = ctl_calc c"
  "ctl_safeAmps (ClearAllManualOverrides c) = ctl_safeAmps c"
  by (simp_all add: ClearAllManualOverrides_def fold_frame)

lemma route_handler_frame [simp]:
  "core (route_handler eff m) = core m" "ms_handler (route_handler eff m) = ms_handler m"
  by (cases eff; simp add: route_handler_def core_def)+

lemma on_handler_frame [simp]:
  "core (on_handler f m) = core m" "ms_handler (on_handler f m) = f (ms_handler m)"
proof -
  have "core (fold route_handler es d) = core d" "ms_handler (fold route_handler es d) = ms_handler d" for es d
    by (rule fold_frame, simp)+
  then show "core (on_handler f m) = core m" "ms_handler (on_handler f m) = f (ms_handler m)"
    by (simp_all add: on_handler_def Let_def core_def)
qed

lemma core_core [simp]: "core (publish eff m) = core m"
  by (simp add: core_def)

lemma on_commander_frame [simp]:
  "core (snd (on_commander f m)) = (snd (f (ctl_commander (ms_controller m))), ctl_calc (ms_controller m),
     ctl_safeAmps (ms_controller m))"
  "ms_handler (snd (on_commander f m)) = ms_handler m"
  by (simp_all add: on_commander_def core_def split_beta)

lemma applyAmps_inv:
  assumes "P m" "\<And>n d. P d \<Longrightarrow> P (snd (bridge_SetChargingProfile env k n a d))"
    and "\<And>d. P d \<Longrightarrow> P (on_controller (SetManualOverride k) d)" "\<And>d. P d \<Longrightarrow> P (publish (PublishChargerCurrent k a) d)"
  shows "P (applyAmps env k a m)"
proof -
  let ?f = "\<lambda>conn (sent, m). if cn_ConnectorID conn = 0 then (sent, m)
      else case bridge_SetChargingProfile env k (cn_ConnectorID conn) a m of
             (Inl e, m) \<Rightarrow> (sent, m) | (Inr _, m) \<Rightarrow> (True, m)"
  have all: "P (snd (fold ?f conns (False, m)))" for conns
  proof (rule fold_invariant[where P = "\<lambda>s. P (snd s)"])
    fix conn and s :: "bool \<times> csms" assume "P (snd s)"
    then show "P (snd (?f conn s))"
      using assms(2)[of "snd s" "cn_ConnectorID conn"]
      by (cases "bridge_SetChargingProfile env k (cn_ConnectorID conn) a (snd s)")
        (auto simp: split_beta split: sum.split)
  qed (simp add: assms(1))
  obtain b d where f: "fold ?f (conns_of (chargers_of m) k) (False, m) = (b, d)" by fastforce
  have "P d" using all[of "conns_of (chargers_of m) k"] unfolding f by simp
  then show ?thesis
    unfolding applyAmps_def ListConnectors_def sum.case f Let_def prod.case using assms(3,4) by simp
qed

locale sys_contract = tick_contract +
  fixes ok :: "sys_event \<Rightarrow> bool"
  assumes amps: "ok (SetAmpsCmd k' a) \<Longrightarrow> J cmd calc safe \<Longrightarrow>
      J (snd (SetChargingProfile env repo k n a cmd)) calc safe"
    and update: "ok (UpdateChargingCall p) \<Longrightarrow> cp_MinAmps p \<ge> 6 \<Longrightarrow> cp_MaxAmps p \<le> 32 \<Longrightarrow>
      cp_MinAmps p \<le> cp_MaxAmps p \<Longrightarrow> J cmd calc safe \<Longrightarrow>
      J (SetCooldown (seconds (cp_ContactorCooldownSec p)) cmd)
        (SetLimits (cp_MinAmps p) (cp_MaxAmps p) calc) (wrap32 (cp_DefaultAmps p))"
begin

definition sound :: "csms \<Rightarrow> bool" where
  "sound m \<longleftrightarrow> holds (ms_controller m)"

lemma sound_core: "core m' = core m \<Longrightarrow> sound m' = sound m"
  by (simp add: sound_def holds_def core_def)

lemma sound_frame [simp]:
  "sound (publish eff m) = sound m" "sound (on_handler f m) = sound m"
  by (rule sound_core, simp)+

lemma applyAmps_sound:
  assumes "ok (SetAmpsCmd k' a)" "sound m" shows "sound (applyAmps env k a m)"
proof (rule applyAmps_inv[where P = sound, OF assms(2)])
  show "sound (snd (bridge_SetChargingProfile env k n a d))" if "sound d" for n d
    using that amps[OF assms(1)] by (simp add: bridge_SetChargingProfile_def on_commander_def sound_def holds_def split_beta)
  show "sound (on_controller (SetManualOverride k) d)" if "sound d" for d
    using that sound_core[of "on_controller (SetManualOverride k) d" d] by (simp add: core_def)
qed simp

lemma state_sound:
  assumes "sound m" shows "sound (startCharging env k m)" "sound (stopCharging env k m)"
proof -
  have "sound (start_conn env k conn d)" if "sound d" for conn d
    using that start by (auto simp: start_conn_def on_commander_def sound_def holds_def split_beta)
  then show "sound (startCharging env k m)"
    by (auto simp: startCharging_def ListConnectors_def intro!: fold_invariant[where P = sound] assms)
  have "sound (stop_conn env k conn d)" if "sound d" for conn d
    using that stop
    by (auto simp: stop_conn_def on_commander_def sound_def holds_def split_beta split: sum.split option.split)
  then show "sound (stopCharging env k m)"
    by (auto simp: stopCharging_def ListConnectors_def intro!: fold_invariant[where P = sound] assms)
qed

lemma update_sound:
  "ok (UpdateChargingCall p) \<Longrightarrow> sound m \<Longrightarrow> sound (snd (UpdateCharging p m))"
  using update[of p "ctl_commander (ms_controller m)" "ctl_calc (ms_controller m)" "ctl_safeAmps (ms_controller m)"]
  by (auto simp: UpdateCharging_def Let_def sound_def holds_def SetSafeAmps_def)

lemma sys_do_sound:
  assumes "ok ev" "sound m" shows "sound (sys_do env ev m)"
proof (cases ev)
  case (Inbound rd k ie)
  then show ?thesis using assms(2) by (simp add: inbound_def)
next
  case (Tick now)
  then show ?thesis using assms(2) tick_holds by (simp add: control_tick_def sound_def)
next
  case (SetAmpsCmd k a)
  then show ?thesis using assms applyAmps_sound[of k a]
    by (auto simp: OnSetAmps_def ListChargers_def intro!: fold_invariant[where P = sound])
next
  case (SetStateCmd k charging)
  then show ?thesis using assms(2)
    by (auto simp: OnSetState_def ListChargers_def Let_def intro!: fold_invariant[where P = sound] state_sound)
next
  case (UpdateChargingCall p)
  then show ?thesis using assms update_sound by simp
qed (use assms(2) in \<open>auto simp: sound_def energy_poll_def OnSetSmartCharging_def OnSetChargingMode_def
      OnSetSolarThreshold_def SetLogLevel_def Start_def Stop_def announce_def mqtt_connected_def
      facade_Subscribe_def forward_step_def cancel_subscriber_def take_event_def Let_def SetEnabled_def SetSolarThreshold_def holds_def
      split: energy.split option.split prod.split\<close>)

lemma reachable_sound: "reachable env ok m0 m \<Longrightarrow> sound m0 \<Longrightarrow> sound m"
  by (induction rule: reachable.induct) (auto intro: sys_do_sound)

end

subsection \<open>Contactor protection across all clients of the commander\<close>

fun cooldown_kept :: "duration \<Rightarrow> sys_event \<Rightarrow> bool" where
  "cooldown_kept d (UpdateChargingCall p) \<longleftrightarrow> d \<le> seconds (cp_ContactorCooldownSec p)"
| "cooldown_kept d _ \<longleftrightarrow> True"

definition protected_by :: "env \<Rightarrow> duration \<Rightarrow> commander \<Rightarrow> bool" where
  "protected_by env d cmd \<longleftrightarrow>
     (answers_after_send env \<and> 0 \<le> d \<longrightarrow> switchings_ok env d cmd \<and> d \<le> co_contactorCooldown cmd)"

lemma protected_run_op:
  "protected_by env d cmd \<Longrightarrow> (\<And>x. op = OpSetCooldown x \<Longrightarrow> d \<le> x) \<Longrightarrow> protected_by env d (run_op env op cmd)"
  using run_op_ok[of env d cmd op] unfolding protected_by_def run_op_cooldown
  by (cases op) simp_all

interpretation protect: sys_contract env "\<lambda>cmd calc safe. protected_by env d cmd" "cooldown_kept d"
  for env :: env and d :: duration
proof
  show "protected_by env d cmd \<Longrightarrow> protected_by env d (snd (SetChargingProfile env repo k n (pr_LimitAmps (snd (Compute i s calc))) cmd))"
    for cmd repo k n i s calc using protected_run_op[of env d cmd "OpSetProfile repo k n _"] by simp
  show "protected_by env d cmd \<Longrightarrow> protected_by env d (snd (SetChargingProfile env repo k n safe cmd))"
    for cmd repo k n safe using protected_run_op[of env d cmd "OpSetProfile repo k n _"] by simp
  show "protected_by env d cmd \<Longrightarrow> protected_by env d (snd (SetChargingProfile env repo k n a cmd))"
    for cmd repo k n a using protected_run_op[of env d cmd "OpSetProfile repo k n _"] by simp
  show "protected_by env d cmd \<Longrightarrow> protected_by env d (snd (RemoteStartTransaction env k n tag cmd))"
    for cmd k n tag using protected_run_op[of env d cmd "OpStart k n tag"] by simp
  show "protected_by env d cmd \<Longrightarrow> protected_by env d (snd (RemoteStopTransaction env k tx cmd))"
    for cmd k tx using protected_run_op[of env d cmd "OpStop k tx"] by simp
  show "cooldown_kept d (UpdateChargingCall p) \<Longrightarrow> protected_by env d cmd \<Longrightarrow>
      protected_by env d (SetCooldown (seconds (cp_ContactorCooldownSec p)) cmd)" for p cmd
    using protected_run_op[of env d cmd "OpSetCooldown _"] by simp
qed

subsection \<open>The range of the commanded current\<close>

fun amps_in_range :: "sys_event \<Rightarrow> bool" where
  "amps_in_range (SetAmpsCmd k a) \<longleftrightarrow> 6 \<le> a \<and> a \<le> 32"
| "amps_in_range (UpdateChargingCall p) \<longleftrightarrow> 6 \<le> cp_DefaultAmps p \<and> cp_DefaultAmps p \<le> 32"
| "amps_in_range _ \<longleftrightarrow> True"

definition current_ok :: "ocpp_command \<Rightarrow> bool" where
  "current_ok cmd \<longleftrightarrow> list_all (\<lambda>a. 6 \<le> a \<and> a \<le> 32) (profile_amps cmd)"

definition calc_within :: "calculator \<Rightarrow> bool" where
  "calc_within c \<longleftrightarrow> 6 \<le> ca_minAmps c \<and> ca_minAmps c \<le> ca_maxAmps c \<and> ca_maxAmps c \<le> 32 \<and>
     (\<forall>i l. ca_lastLimit c i = Some l \<longrightarrow> 6 \<le> l \<and> l \<le> 32)"

definition amps_inv :: "commander \<Rightarrow> calculator \<Rightarrow> int \<Rightarrow> bool" where
  "amps_inv cmd calc safe \<longleftrightarrow> list_all current_ok (co_sent cmd) \<and> calc_within calc \<and> 6 \<le> safe \<and> safe \<le> 32"

lemma Compute_within_limit:
  assumes "calc_within c" shows "6 \<le> pr_LimitAmps (snd (Compute i s c)) \<and> pr_LimitAmps (snd (Compute i s c)) \<le> 32"
proof -
  have "6 \<le> ca_minAmps c" "ca_minAmps c \<le> ca_maxAmps c" "ca_maxAmps c \<le> 32"
    using assms by (simp_all add: calc_within_def)
  moreover have "ca_lastLimit c i = Some l \<Longrightarrow> 6 \<le> l \<and> l \<le> 32" for l using assms by (simp add: calc_within_def)
  ultimately show ?thesis by (auto simp: Compute_def Let_def split: option.splits)
qed

lemma Compute_within:
  assumes "calc_within c" shows "calc_within (fst (Compute i s c))"
  unfolding calc_within_def Compute_frame
proof (intro conjI allI impI)
  fix j l assume l: "ca_lastLimit (fst (Compute i s c)) j = Some l"
  show "6 \<le> l" "l \<le> 32"
    using l assms Compute_within_limit[OF assms, of i s]
    by (cases "j = i"; simp add: Compute_lastLimit Compute_other calc_within_def)+
qed (use assms in \<open>simp_all add: calc_within_def\<close>)

lemma profile_amps_inv:
  assumes "amps_inv cmd calc safe" "6 \<le> a" "a \<le> 32"
  shows "amps_inv (snd (SetChargingProfile env repo k n a cmd)) calc safe"
proof -
  obtain ps where "co_sent (snd (SetChargingProfile env repo k n a cmd)) =
      co_sent cmd @ map (SetChargingProfileReq k n) ps" "list_all (\<lambda>p. cp_Periods p = [(0, a)]) ps"
    using SetChargingProfile_sent[of env repo k n a cmd] by blast
  then show ?thesis using assms by (auto simp: amps_inv_def current_ok_def list_all_iff)
qed

lemma guarded_amps_inv:
  assumes "amps_inv cmd calc safe" "profile_amps x = []"
  shows "amps_inv (guarded env k x cmd) calc safe"
  using guarded_sent[of env k x cmd] assms by (auto simp: amps_inv_def current_ok_def)

interpretation amps: sys_contract env amps_inv amps_in_range for env :: env
proof
  fix cmd :: commander and calc safe assume inv: "amps_inv cmd calc safe"
  then have within: "calc_within calc" and safe: "6 \<le> safe" "safe \<le> 32" by (simp_all add: amps_inv_def)
  show obs: "amps_inv cmd (fst (Compute i s calc)) safe" for i s
    using inv Compute_within by (simp add: amps_inv_def)
  show "amps_inv (snd (SetChargingProfile env repo k n (pr_LimitAmps (snd (Compute i s calc))) cmd))
      (fst (Compute i s calc)) safe" for repo k n i s
    using profile_amps_inv[OF obs] Compute_within_limit[OF within] by blast
  show "amps_inv (snd (SetChargingProfile env repo k n safe cmd)) calc safe" for repo k n
    by (rule profile_amps_inv[OF inv safe])
  show "amps_inv (snd (RemoteStartTransaction env k n tag cmd)) calc safe" for k n tag
    unfolding start_guarded by (rule guarded_amps_inv[OF inv]) simp
  show "amps_inv (snd (RemoteStopTransaction env k tx cmd)) calc safe" for k tx
    unfolding stop_guarded by (rule guarded_amps_inv[OF inv]) simp
  show "amps_in_range (SetAmpsCmd k' a) \<Longrightarrow> amps_inv (snd (SetChargingProfile env repo k n a cmd)) calc safe" for k' a repo k n
    using profile_amps_inv[OF inv] by simp
  show "amps_inv (SetCooldown (seconds (cp_ContactorCooldownSec p)) cmd)
      (SetLimits (cp_MinAmps p) (cp_MaxAmps p) calc) (wrap32 (cp_DefaultAmps p))"
    if "amps_in_range (UpdateChargingCall p)" "cp_MinAmps p \<ge> 6" "cp_MaxAmps p \<le> 32" "cp_MinAmps p \<le> cp_MaxAmps p" for p
    using that inv by (simp add: amps_inv_def calc_within_def SetCooldown_def SetLimits_def wrap32_id)
qed

subsection \<open>The initial state\<close>

lemma Load_valid: "Load unmarshal getenv path file = Inr c \<Longrightarrow> validate c = None"
  by (auto simp: Load_def split: sum.splits option.splits)

lemma validate_amps:
  assumes "validate c = None"
  shows "6 \<le> chg_MinAmps (cf_Charging c)" "chg_MinAmps (cf_Charging c) \<le> chg_MaxAmps (cf_Charging c)"
    "chg_MaxAmps (cf_Charging c) \<le> 32"
  using assms by (auto simp: validate_def split: if_splits)

lemma buildFacade_controller:
  assumes "buildFacade server cfg = Inr m"
  obtains c where "ms_controller m = new_controller c" "c = internal_config
       \<lparr>fcf_Server = cf_Server cfg, fcf_MQTT = cf_MQTT cfg,
        fcf_Charging = \<lparr>fch_MinAmps = chg_MinAmps (cf_Charging cfg), fch_MaxAmps = chg_MaxAmps (cf_Charging cfg),
          fch_ContactorCooldownSec = chg_ContactorCooldownSec (cf_Charging cfg),
          fch_DefaultAmps = chg_DefaultAmps (cf_Charging cfg)\<rparr>,
        fcf_Energy = cf_Energy cfg\<rparr>"
  using assms by (auto simp: buildFacade_def factory_New_def New_def ocpp_NewServer_def split: if_splits sum.splits)

lemma new_controller_fields [simp]:
  "ctl_commander (new_controller c) = NewCommander"
  "ctl_safeAmps (new_controller c) = wrap32 (chg_MinAmps (cf_Charging c))"
  "ctl_calc (new_controller c) =
     NewCalculator (chg_MinAmps (cf_Charging c)) (chg_MaxAmps (cf_Charging c)) gridVoltage"
  "ctl_enabled (new_controller c) = energy_configured (cf_Energy c)"
  "ctl_solarThreshold (new_controller c) = wrap32 (chg_SolarThresholdW (cf_Charging c))"
  by (simp_all add: new_controller_def Let_def NewController_def SetSolarThreshold_def SetEmitter_def SetEnabled_def)

lemma build_core:
  assumes "buildFacade server cfg = Inr m" "validate cfg = None"
  shows "core m = (NewCommander, NewCalculator (chg_MinAmps (cf_Charging cfg)) (chg_MaxAmps (cf_Charging cfg)) gridVoltage,
    chg_MinAmps (cf_Charging cfg))"
  using validate_amps[OF assms(2)]
  by (rule_tac buildFacade_controller[OF assms(1)])
    (auto simp: core_def internal_config_def Let_def or_default_def wrap32_id)

subsection \<open>Properties\<close>

text \<open>The system of the default configuration, for the witnesses.\<close>

definition default_system :: csms where
  "default_system = projr (buildFacade (Inr ()) defaultConfig)"

lemma default_load: "Load unmarshal (\<lambda>_. '''') '''' file = Inr defaultConfig"
proof -
  have "override parse (\<lambda>_. '''') table c = c" for parse :: "string \<Rightarrow> 'a option" and table and c :: config
    unfolding override_def by (rule fold_id_on) (auto simp: Let_def)
  moreover have "override parse (\<lambda>_. '''') table c = c" for parse :: "string \<Rightarrow> int option" and table and c :: config
    unfolding override_def by (rule fold_id_on) (auto simp: Let_def)
  moreover have "override parse (\<lambda>_. '''') table c = c" for parse :: "string \<Rightarrow> bool option" and table and c :: config
    unfolding override_def by (rule fold_id_on) (auto simp: Let_def)
  moreover have "override parse (\<lambda>_. '''') table c = c" for parse :: "string \<Rightarrow> string option" and table and c :: config
    unfolding override_def by (rule fold_id_on) (auto simp: Let_def)
  ultimately have "applyEnvOverrides (\<lambda>_. '''') defaultConfig = Inr defaultConfig"
    by (simp add: applyEnvOverrides_def topicOverrides_def Let_def)
  moreover have "validate defaultConfig = None" by (simp add: validate_def defaultConfig_def)
  ultimately show ?thesis by (simp add: Load_def read_config_def)
qed

lemma default_build: "buildFacade (Inr ()) defaultConfig = Inr default_system"
  by (simp add: default_system_def buildFacade_def factory_New_def New_def ocpp_NewServer_def defaultConfig_def)


lemma built_amps_sound:
  assumes "buildFacade server cfg = Inr m0" "validate cfg = None" shows "amps.sound m0"
  using build_core[OF assms] validate_amps[OF assms(2)]
  by (simp add: amps.sound_def amps.holds_def core_def amps_inv_def calc_within_def NewCommander_def NewCalculator_def)

lemma amps_sound_sent:
  "amps.sound m \<Longrightarrow> list_all (\<lambda>cmd. list_all (\<lambda>a. 6 \<le> a \<and> a \<le> 32) (profile_amps cmd))
     (co_sent (ctl_commander (ms_controller m)))"
  by (simp add: amps.sound_def amps.holds_def amps_inv_def current_ok_def list_all_iff)

text \<open>
  Whatever configuration the program accepts at startup, in every reachable state every current
  ever commanded, by the control loop, the solar gate's revert or an MQTT command, lies between 6 and
  32 amperes, provided the amperes set by MQTT and the default amperes given to the web UI do: those
  two are the only ones the program does not check.
\<close>

theorem commanded_current_in_range:
  assumes "Load unmarshal getenv path file = Inr cfg" "buildFacade server cfg = Inr m0"
    and "reachable env amps_in_range m0 m"
  shows "list_all (\<lambda>cmd. list_all (\<lambda>a. 6 \<le> a \<and> a \<le> 32) (profile_amps cmd))
    (co_sent (ctl_commander (ms_controller m)))"
  using amps.reachable_sound[OF assms(3) built_amps_sound[OF assms(2) Load_valid[OF assms(1)]]]
  by (rule amps_sound_sent)

theorem commanded_current_in_range_witness:
  "let env = \<lparr>ev_answer = (\<lambda>_ _. Confirmed ''Accepted'' 0), ev_now = (\<lambda>_. 0)\<rparr>;
       m = sys_do env (SetAmpsCmd ''a'' 16) (sys_do env (Inbound
             \<lparr>rd_now = 5, rd_sampled = (\<lambda>_. 5), rd_uuid = ''u'', rd_random = [0, 0, 1, 0],
              rd_net = \<lparr>rn_create = \<lambda>_ _. None, rn_start = \<lambda>_ _. None, rn_call = \<lambda>_ _ _. None, rn_connected = \<lambda>_ _. True\<rparr>\<rparr>
             ''a'' (Request (StatusNotificationRequest
               \<lparr>sn_ConnectorId = 1, sn_ErrorCode = '''', sn_Status = ''Available'', sn_Info = ''''\<rparr>))) default_system)
   in list_all (\<lambda>cmd. list_all (\<lambda>a. 6 \<le> a \<and> a \<le> 32) (profile_amps cmd))
        (co_sent (ctl_commander (ms_controller m)))"
  unfolding Let_def
  by (rule commanded_current_in_range[OF default_load default_build
      reachable.step[OF reachable.step[OF reachable.init]]]) simp_all


lemma built_protected:
  assumes "Load unmarshal getenv path file = Inr cfg" "buildFacade server cfg = Inr m0" "d \<le> defaultContactorCooldown"
  shows "protect.sound env d m0"
  using build_core[OF assms(2) Load_valid[OF assms(1)]] assms(3)
  unfolding protect.sound_def protect.holds_def
  by (auto simp: core_def protected_by_def NewCommander_def) (simp add: NewCommander_def[symmetric])

lemma protected_switchings:
  assumes "protect.sound env d m" "answers_after_send env" "0 \<le> d"
  shows "sorted_wrt (\<lambda>(k, t) (k', t'). k = k' \<longrightarrow> d \<le> t' - t)
    (switchings env (co_sent (ctl_commander (ms_controller m))))"
  using assms unfolding protect.sound_def protect.holds_def
  by (simp add: protected_by_def switchings_ok_def contactor.spaced_def)

text \<open>
  Contactor protection for the whole program. In every reachable state the starts and stops that
  one charger accepted, whether from the solar gate or from MQTT commands, are at least \<open>d\<close> apart, when
  no update sets a shorter cooldown and chargers answer after they are asked.
\<close>

theorem system_contactor_protected:
  assumes "Load unmarshal getenv path file = Inr cfg" "buildFacade server cfg = Inr m0"
    and "answers_after_send env" "0 \<le> d" "d \<le> defaultContactorCooldown"
    and "reachable env (cooldown_kept d) m0 m"
  shows "sorted_wrt (\<lambda>(k, t) (k', t'). k = k' \<longrightarrow> d \<le> t' - t)
    (switchings env (co_sent (ctl_commander (ms_controller m))))"
proof -
  have "protect.sound env d m0" using built_protected assms(1,2,5) by blast
  then have "protect.sound env d m" using assms(6) protect.reachable_sound by blast
  then show ?thesis using assms(3,4) protected_switchings by blast
qed

theorem system_contactor_protected_witness:
  "let env = \<lparr>ev_answer = (\<lambda>sent _. Confirmed ''Accepted'' (200 * second * int (length sent))),
              ev_now = (\<lambda>sent. 200 * second * int (length sent))\<rparr>;
       m = sys_do env (SetStateCmd ''a'' True) (sys_do env (UpdateChargingCall
             \<lparr>cp_MinAmps = 6, cp_MaxAmps = 16, cp_ContactorCooldownSec = 100, cp_DefaultAmps = 6\<rparr>) default_system)
   in sorted_wrt (\<lambda>(k, t) (k', t'). k = k' \<longrightarrow> 100 * second \<le> t' - t)
        (switchings env (co_sent (ctl_commander (ms_controller m))))"
  unfolding Let_def
  by (rule system_contactor_protected[OF default_load default_build _ _ _
      reachable.step[OF reachable.step[OF reachable.init]]])
    (simp_all add: seconds_def wrap64_def answers_after_send_def defaultContactorCooldown_def)

subsection \<open>Who has an active session\<close>

lemma handler_ok_SetMinMax [simp]: "handler_ok (SetMinMax a b h) = handler_ok h"
  by (simp add: handler_ok_def SetMinMax_def)

lemma fold_handler:
  "(\<And>x m. ms_handler (f x m) = ms_handler m) \<Longrightarrow> ms_handler (fold f xs m) = ms_handler m"
  by (rule fold_frame)

lemma bridge_handler [simp]:
  "ms_handler (applyAmps env k a m) = ms_handler m"
  "ms_handler (startCharging env k m) = ms_handler m"
  "ms_handler (stopCharging env k m) = ms_handler m"
proof -
  show "ms_handler (applyAmps env k a m) = ms_handler m"
    by (rule applyAmps_inv[where P = "\<lambda>d. ms_handler d = ms_handler m"])
      (simp_all add: bridge_SetChargingProfile_def)
  show "ms_handler (startCharging env k m) = ms_handler m"
    by (simp add: startCharging_def ListConnectors_def start_conn_def fold_handler)
  show "ms_handler (stopCharging env k m) = ms_handler m"
    by (auto simp: stopCharging_def ListConnectors_def stop_conn_def intro!: fold_handler split: sum.split option.split)
qed

lemma sys_do_handler_ok: "handler_ok (ms_handler m) \<Longrightarrow> handler_ok (ms_handler (sys_do env ev m))"
  by (cases ev)
    (auto simp: inbound_def handle_ok control_tick_def energy_poll_def OnSetAmps_def ListChargers_def
      OnSetState_def OnSetSmartCharging_def OnSetChargingMode_def OnSetSolarThreshold_def UpdateCharging_def
      SetLogLevel_def Start_def Stop_def announce_def mqtt_connected_def facade_Subscribe_def forward_step_def
      cancel_subscriber_def take_event_def Let_def fold_handler split: energy.split option.split prod.split)

lemma built_handler_ok: "buildFacade server cfg = Inr m \<Longrightarrow> handler_ok (ms_handler m)"
  by (auto simp: buildFacade_def factory_New_def New_def ocpp_NewServer_def new_handler_def SetOverrideClearer_def SetHandlerEmitter_def
      handler_ok_def NewHandler_def NewInMemoryChargerRepository_ok session_repo_ok_def NewInMemorySessionRepository_def
      split: if_splits sum.splits)

lemma reachable_handler_ok:
  "reachable env ok m0 m \<Longrightarrow> handler_ok (ms_handler m0) \<Longrightarrow> handler_ok (ms_handler m)"
  by (induction rule: reachable.induct) (auto intro: sys_do_handler_ok)

text \<open>The query looks at the connectors it knows of.\<close>

definition connector_known :: "csms \<Rightarrow> charger_id \<Rightarrow> int \<Rightarrow> bool" where
  "connector_known m k n \<longleftrightarrow> k \<in> ch_ID ` set (vals_of (cr_chargers (chargers_of m))) \<and>
     n \<in> cn_ConnectorID ` set (conns_of (chargers_of m) k)"

lemma has_active_iff:
  "k \<in> set (fst (HasActiveSession m)) \<longleftrightarrow>
     (\<exists>n. connector_known m k n \<and> active_session (sessions_of m) k n \<noteq> None)"
  by (auto simp: HasActiveSession_def ListChargers_def Let_def has_active_def ListConnectors_def list_ex_iff
      connector_known_def active_session_def split: sum.splits option.splits)



subsection \<open>What the construction and the queries leave out\<close>

text \<open>A transaction started on a connector that has not reported its status is active and unknown to
  the query.\<close>

lemma active_session_unreported:
  "let rd = \<lparr>rd_now = 5, rd_sampled = (\<lambda>_. 5), rd_uuid = ''u1'', rd_random = [0, 0, 1, 0],
         rd_net = \<lparr>rn_create = \<lambda>_ _. None, rn_start = \<lambda>_ _. None, rn_call = \<lambda>_ _ _. None, rn_connected = \<lambda>_ _. True\<rparr>\<rparr>;
       m = inbound rd ''a'' (Request (StartTransactionRequest
             \<lparr>st_ConnectorId = 1, st_IdTag = ''tag'', st_MeterStart = 0, st_Timestamp = None\<rparr>))
             (inbound rd ''a'' Connected default_system)
   in active_session (sessions_of m) ''a'' 1 \<noteq> None \<and> HasActiveSession m = ([], False)"
proof -
  let ?rd = "\<lparr>rd_now = 5, rd_sampled = (\<lambda>_. 5), rd_uuid = ''u1'', rd_random = [0, 0, 1, 0],
         rd_net = \<lparr>rn_create = \<lambda>_ _. None, rn_start = \<lambda>_ _. None, rn_call = \<lambda>_ _ _. None, rn_connected = \<lambda>_ _. True\<rparr>\<rparr>"
  let ?req = "\<lparr>st_ConnectorId = 1, st_IdTag = ''tag'', st_MeterStart = 0, st_Timestamp = None\<rparr>"
  define h where "h = OnConnect ?rd ''a'' (ms_handler default_system)"
  have init: "ms_handler default_system = new_handler (internal_config
       \<lparr>fcf_Server = cf_Server defaultConfig, fcf_MQTT = cf_MQTT defaultConfig,
        fcf_Charging = \<lparr>fch_MinAmps = 6, fch_MaxAmps = 32, fch_ContactorCooldownSec = 180, fch_DefaultAmps = 6\<rparr>,
        fcf_Energy = cf_Energy defaultConfig\<rparr>)"
    by (simp add: default_system_def buildFacade_def factory_New_def New_def ocpp_NewServer_def defaultConfig_def)
  have empty: "hd_sessions (ms_handler default_system) = []"
    "cr_connectors (hd_chargers (ms_handler default_system)) = Map.empty"
    by (simp_all add: init new_handler_def SetOverrideClearer_def SetHandlerEmitter_def NewHandler_def
        NewInMemoryChargerRepository_def NewInMemorySessionRepository_def)
  have h: "hd_sessions h = []" using empty(1) connect_sessions(1)[of ?rd "''a''" "ms_handler default_system"]
    by (simp add: h_def)
  have conns: "cr_connectors (hd_chargers h) = Map.empty"
    using empty(2) by (auto simp: h_def OnConnect_def Let_def MarkOnline_def upsert_charger_def UpsertCharger_def split: sum.split option.split)
  let ?h = "snd (OnStartTransaction ?rd ''a'' ?req h)"
  have st: "hd_sessions ?h = [(''u1'', started_session ?rd ''a'' ?req)]" "hd_chargers ?h = hd_chargers h"
    using start_sessions[of ?rd "''a''" ?req h] h by (simp_all add: stores_def)
  have act: "active_session (hd_sessions ?h) ''a'' 1 \<noteq> None"
    unfolding st(1) by (simp add: active_session_def GetActiveSession_def started_session_def IsActive_def)
  let ?m = "inbound ?rd ''a'' (Request (StartTransactionRequest ?req)) (inbound ?rd ''a'' Connected default_system)"
  have mh: "ms_handler ?m = ?h" unfolding inbound_def on_handler_frame handle.simps h_def ..
  have none: "filter (has_active m) xs = []" if "ms_handler m = ?h" for m xs
    using st(2) conns that by (simp add: has_active_def ListConnectors_def conns_of_def filter_empty_conv)
  have "HasActiveSession ?m = ([], False)"
    unfolding HasActiveSession_def ListChargers_def sum.case none[OF mh] Let_def by simp
  moreover have "active_session (sessions_of ?m) ''a'' 1 \<noteq> None" unfolding mh by (rule act)
  ultimately show ?thesis unfolding Let_def by (intro conjI)
qed

text \<open>At startup the configured cooldown, solar threshold and default amperes are not used.\<close>

lemma startup_ignores_settings:
  assumes "buildFacade server cfg = Inr m"
  shows "co_contactorCooldown (ctl_commander (ms_controller m)) = defaultContactorCooldown"
    "GetSolarThreshold (ms_controller m) = 0"
    "ctl_safeAmps (ms_controller m) = wrap32 (or_default 0 6 (chg_MinAmps (cf_Charging cfg)))"
  by (rule buildFacade_controller[OF assms];
      simp add: internal_config_def Let_def GetSolarThreshold_def NewCommander_def wrap32_id)+

text \<open>The amperes of an MQTT command reach the charger as they are.\<close>

lemma manual_amps_unclamped:
  assumes "conns_of (chargers_of m) k = [conn]" "cn_ConnectorID conn \<noteq> 0"
  shows "\<exists>p. SetChargingProfileReq k (cn_ConnectorID conn) p \<in> set (co_sent (ctl_commander (ms_controller (applyAmps env k a m)))) \<and>
    cp_Periods p = [(0, a)]"
proof -
  obtain r d where b: "bridge_SetChargingProfile env k (cn_ConnectorID conn) a m = (r, d)" by fastforce
  then have d: "ctl_commander (ms_controller d) =
      snd (SetChargingProfile env (Some (sessions_of m)) k (cn_ConnectorID conn) a (ctl_commander (ms_controller m)))"
    by (auto simp: bridge_SetChargingProfile_def on_commander_def split_beta)
  obtain ps where "co_sent (ctl_commander (ms_controller d)) = co_sent (ctl_commander (ms_controller m)) @
      map (SetChargingProfileReq k (cn_ConnectorID conn)) ps" "ps \<noteq> []" "list_all (\<lambda>p. cp_Periods p = [(0, a)]) ps"
    unfolding d using SetChargingProfile_sent by blast
  then have "\<exists>p. SetChargingProfileReq k (cn_ConnectorID conn) p \<in> set (co_sent (ctl_commander (ms_controller d))) \<and>
      cp_Periods p = [(0, a)]" by (cases ps) auto
  moreover have "ctl_commander (ms_controller (applyAmps env k a m)) = ctl_commander (ms_controller d)"
    using assms b by (simp add: applyAmps_def ListConnectors_def Let_def split: sum.split)
  ultimately show ?thesis by simp
qed

end
