(* ===== verification/Lifecycle.thy ===== *)
theory Lifecycle
  imports System
begin

section \<open>Lifecycle: stopping the system, and the event streams\<close>

text \<open>
  Two properties of the facade (\<open>internal/csms/csms.go\<close>) that hold across all its components. What a
  subscriber of \<open>Subscribe\<close> gets passes through the emitter's channel, the forwarding goroutine and
  the subscriber's own channel: \<open>stream\<close> puts them together. \<open>Stop\<close> waits for those goroutines. The
  relation \<open>works\<close> says what every other operation of the system does to both: it emits events, in an
  order, and touches no forwarder and nothing of the life cycle.
\<close>

subsection \<open>Operations that only emit\<close>

definition others :: "csms \<Rightarrow> ocpp_server \<times> bool \<times> bool \<times> bool \<times> forwarder list" where
  "others m = (ms_server m, ms_started m, ms_running m, ms_stopping m, ms_forwarders m)"

definition works :: "csms \<Rightarrow> csms \<Rightarrow> bool" where
  "works m m' \<longleftrightarrow> others m' = others m \<and>
     (\<exists>es. ms_emitter m' = fold Emit es (ms_emitter m) \<and> ms_emitted m' = ms_emitted m @ es)"

named_theorems quiet \<open>operations that only emit\<close>

lemma works_refl [quiet]: "works m m"
  unfolding works_def by (intro conjI exI[of _ "[]"]) simp_all

lemma works_trans:
  assumes "works m1 m2" "works m2 m3" shows "works m1 m3"
proof -
  obtain es1 es2 where "ms_emitter m2 = fold Emit es1 (ms_emitter m1)" "ms_emitted m2 = ms_emitted m1 @ es1"
    "ms_emitter m3 = fold Emit es2 (ms_emitter m2)" "ms_emitted m3 = ms_emitted m2 @ es2"
    using assms unfolding works_def by blast
  then show ?thesis using assms unfolding works_def by (intro conjI exI[of _ "es1 @ es2"]) simp_all
qed

lemma works_fold:
  assumes "\<And>x d. works d (f x d)" shows "works m (fold f xs m)"
  by (rule fold_invariant[where P = "works m"]) (use works_refl works_trans assms in blast)+


lemma works_update [quiet]:
  "works m (m\<lparr>ms_controller := c\<rparr>)" "works m (m\<lparr>ms_handler := h\<rparr>)" "works m (m\<lparr>ms_levelVar := lv\<rparr>)"
  "works m (m\<lparr>ms_mqttConnected := b\<rparr>)" "works m (m\<lparr>ms_controller := c, ms_handler := h\<rparr>)"
  "works m (publish eff m)"
  unfolding works_def others_def publish_def by (rule conjI, simp, rule exI[of _ "[]"], simp)+

lemma works_route_controller [quiet]: "works m (route_controller eff m)"
proof (cases eff)
  case (EmitEvent ev)
  then show ?thesis
    unfolding works_def others_def by (intro conjI exI[of _ "[ev]"]) (simp_all add: route_controller_def)
qed (simp_all add: route_controller_def quiet)

lemma works_on_controller [quiet]: "works m (on_controller f m)"
  unfolding on_controller_def Let_def
  by (rule works_trans[OF works_update(1) works_fold]) (rule quiet)

lemma works_on_handler [quiet]: "works m (on_handler f m)"
proof -
  have "works d (route_handler eff d)" for eff d
    by (cases eff) (simp_all add: route_handler_def quiet)
  then show ?thesis
    unfolding on_handler_def Let_def by (intro works_trans[OF works_update(2) works_fold])
qed

lemma works_on_commander [quiet]: "works m (snd (on_commander f m))"
  by (simp add: on_commander_def split_beta quiet)

lemma works_bridge [quiet]:
  "works m (applyAmps env k a m)" "works m (startCharging env k m)" "works m (stopCharging env k m)"
proof -
  show "works m (applyAmps env k a m)"
    by (rule applyAmps_inv[where P = "works m"])
      (auto simp: bridge_SetChargingProfile_def intro: quiet works_trans[OF _ works_on_commander]
        works_trans[OF _ works_on_controller] works_trans[OF _ works_update(6)])
  show "works m (startCharging env k m)"
    by (auto simp: startCharging_def ListConnectors_def start_conn_def quiet intro!: works_fold)
  show "works m (stopCharging env k m)"
    by (auto simp: stopCharging_def ListConnectors_def stop_conn_def quiet intro!: works_fold
        split: sum.split option.split)
qed

text \<open>The events that neither concern the life cycle nor a subscriber.\<close>

fun is_work :: "sys_event \<Rightarrow> bool" where
  "is_work StartCall = False"
| "is_work StopCall = False"
| "is_work (SubscribeCall b) = False"
| "is_work (ForwardCall i) = False"
| "is_work (CancelCall i) = False"
| "is_work (TakeCall i) = False"
| "is_work _ = True"

lemma announce_works [quiet]: "works m (announce m)"
  unfolding announce_def by (rule works_trans) (rule quiet)+

lemma sys_do_works: "is_work ev \<Longrightarrow> works m (sys_do env ev m)"
proof (cases ev)
  case (SetSmartChargingCmd b)
  then show ?thesis
    by (auto simp: OnSetSmartCharging_def Let_def intro: quiet works_trans[OF _ works_update(6)] works_trans[OF _ works_on_controller])
next
  case (SetThresholdCmd k w)
  then show ?thesis
    by (auto simp: OnSetSolarThreshold_def intro: quiet works_trans[OF _ works_update(6)])
next
  case (MqttConnection b)
  then show ?thesis
    by (auto simp: mqtt_connected_def Let_def intro: quiet works_trans[OF _ announce_works])
qed (auto simp: inbound_def control_tick_def energy_poll_def OnSetAmps_def OnSetState_def OnSetChargingMode_def
      ListChargers_def UpdateCharging_def SetLogLevel_def Let_def quiet intro!: works_fold
      split: energy.split)

subsection \<open>Stopping\<close>

text \<open>The system while a stop waits, and after it has returned: nothing runs, and it counts as started
  exactly as long as a forwarding goroutine is left.\<close>

definition alive :: "csms \<Rightarrow> bool list" where
  "alive m = map fw_live (ms_forwarders m)"

definition halted :: "csms \<Rightarrow> bool" where
  "halted m \<longleftrightarrow> ms_stopping m = ms_started m \<and> ms_started m = (True \<in> set (alive m)) \<and>
     \<not> ms_running m \<and> \<not> IsRunning (ms_server m)"

lemma list_ex_alive [simp]: "list_ex fw_live (ms_forwarders m) \<longleftrightarrow> True \<in> set (alive m)"
  by (auto simp: alive_def list_ex_iff)

lemma works_life:
  assumes "works m m'" shows "alive m' = alive m" "halted m' = halted m"
  using assms by (simp_all add: works_def others_def alive_def halted_def)

lemma halted_cong:
  "alive m' = alive m \<Longrightarrow> ms_stopping m' = ms_stopping m \<Longrightarrow> ms_started m' = ms_started m \<Longrightarrow>
   ms_running m' = ms_running m \<Longrightarrow> ms_server m' = ms_server m \<Longrightarrow> halted m' = halted m"
  by (simp add: halted_def)

lemma finish_halted:
  assumes "ms_started d \<longrightarrow> ms_stopping d" "True \<in> set (alive d) \<longrightarrow> ms_started d"
    and "\<not> ms_running d" "\<not> IsRunning (ms_server d)"
  shows "halted (finish_stop d)"
  using assms by (auto simp: finish_stop_def halted_def alive_def)

lemma alive_finish [simp]: "alive (finish_stop d) = alive d"
  by (simp add: finish_stop_def alive_def)

lemma Stop_halted:
  assumes "ms_started m" shows "halted (Stop m)" "alive (Stop m) = alive m"
proof -
  show "halted (Stop m)"
    unfolding Stop_def by (rule finish_halted) (use assms in \<open>simp_all add: ocpp_Stop_def IsRunning_def\<close>)
qed (simp add: Stop_def, simp add: alive_def)

fun no_new_client :: "sys_event \<Rightarrow> bool" where
  "no_new_client StartCall = False"
| "no_new_client (SubscribeCall b) = False"
| "no_new_client _ = True"

text \<open>What an event does to a forwarder's context.\<close>

fun cancelled :: "sys_event \<Rightarrow> bool list \<Rightarrow> bool list" where
  "cancelled (CancelCall i) bs = bs[i := False]"
| "cancelled _ bs = bs"

lemma map_same_update: "f fw = f (xs ! i) \<Longrightarrow> map f (xs[i := fw]) = map f xs"
  by (cases "i < length xs") (simp_all add: map_update list_update_same_conv list_update_beyond)

lemma cancel_halted:
  assumes "halted m"
  shows "halted (cancel_subscriber i m)" "alive (cancel_subscriber i m) = (alive m)[i := False]"
proof -
  let ?d = "m\<lparr>ms_forwarders := (ms_forwarders m)[i := (ms_forwarders m ! i)\<lparr>fw_live := False\<rparr>]\<rparr>"
  have d: "alive ?d = (alive m)[i := False]" by (simp add: alive_def map_update)
  then show "alive (cancel_subscriber i m) = (alive m)[i := False]"
    by (simp add: cancel_subscriber_def alive_def[of m] list_update_beyond)
  have "True \<in> set ((alive m)[i := False]) \<longrightarrow> True \<in> set (alive m)"
    using set_update_subset_insert[of "alive m" i False] by blast
  then have "halted (finish_stop ?d)"
    by (intro finish_halted) (use assms d in \<open>simp_all add: halted_def\<close>)
  then show "halted (cancel_subscriber i m)" using assms by (simp add: cancel_subscriber_def)
qed

text \<open>A forwarder's step or a receive does not change whose context is alive.\<close>

lemma moves_halted:
  "alive (forward_step i m) = alive m" "alive (take_event i m) = alive m"
  "halted (forward_step i m) = halted m" "halted (take_event i m) = halted m"
proof -
  show *: "alive (forward_step i m) = alive m" "alive (take_event i m) = alive m"
    by (auto simp: forward_step_def take_event_def Let_def alive_def map_same_update split: option.split prod.split)
  show "halted (forward_step i m) = halted m" "halted (take_event i m) = halted m"
    by (rule halted_cong, rule *; simp add: forward_step_def take_event_def Let_def split: option.split prod.split)+
qed

lemma sys_do_halted:
  assumes "halted m" "no_new_client ev"
  shows "halted (sys_do env ev m) \<and> alive (sys_do env ev m) = cancelled ev (alive m)"
proof (cases "is_work ev")
  case True
  then have "cancelled ev bs = bs" for bs by (cases ev) simp_all
  then show ?thesis using works_life[OF sys_do_works[OF True]] assms by simp
next
  case False
  then consider "ev = StopCall" | i where "ev = CancelCall i" | i where "ev = ForwardCall i" | i where "ev = TakeCall i"
    using assms(2) by (cases ev) simp_all
  then show ?thesis
  proof cases
    case 1
    have "halted (Stop m)"
      unfolding Stop_def by (rule finish_halted) (use assms in \<open>auto simp: ocpp_Stop_def IsRunning_def halted_def alive_def\<close>)
    then show ?thesis by (simp add: 1 Stop_def) (simp add: alive_def)
  qed (use assms(1) cancel_halted moves_halted in simp_all)
qed

lemma nth_False: "x < length bs \<Longrightarrow> bs[j := False] ! x \<longleftrightarrow> bs ! x \<and> x \<noteq> j"
  by (cases "x = j") simp_all

lemma fold_cancelled:
  "fold cancelled evs bs = map (\<lambda>i. bs ! i \<and> CancelCall i \<notin> set evs) [0..<length bs]"
proof (induction evs arbitrary: bs)
  case (Cons ev evs)
  then show ?case by (cases ev) (auto intro!: nth_equalityI simp: nth_False)
qed (simp add: map_nth)

lemma run_halted:
  "halted m \<Longrightarrow> list_all no_new_client evs \<Longrightarrow>
     halted (fold (sys_do env) evs m) \<and> alive (fold (sys_do env) evs m) = fold cancelled evs (alive m)"
  by (induction evs arbitrary: m) (simp_all add: sys_do_halted)

text \<open>
  C17: stopping takes the whole system out of service at once, the control loop and the OCPP server,
  but the call returns, and a new start is possible, only when the context of every subscriber of the
  event stream has ended: no other event of the program, nor any number of them, brings that about,
  and once each has ended it always does. A rebuild from the web UI waits with it.
\<close>

theorem stop_waits_for_subscribers:
  assumes "ms_started m" "list_all no_new_client evs"
  shows "let m' = fold (sys_do env) evs (Stop m) in
    (fst (Start m') \<longleftrightarrow>
       (\<forall>i < length (ms_forwarders m). fw_live (ms_forwarders m ! i) \<longrightarrow> CancelCall i \<in> set evs)) \<and>
    \<not> ms_running m' \<and> \<not> IsRunning (ms_server m') \<and>
    (fst (Rebuild server cfg m) = None \<longleftrightarrow> list_ex fw_live (ms_forwarders m))"
proof -
  have start: "fst (Start d) = (\<not> ms_started d)" for d by (simp add: Start_def)
  have halt: "halted (fold (sys_do env) evs (Stop m))"
    "alive (fold (sys_do env) evs (Stop m)) = fold cancelled evs (alive m)"
    using run_halted[of "Stop m"] Stop_halted[OF assms(1)] assms(2) by simp_all
  then have "fst (Start (fold (sys_do env) evs (Stop m))) \<longleftrightarrow>
      (\<forall>i < length (ms_forwarders m). fw_live (ms_forwarders m ! i) \<longrightarrow> CancelCall i \<in> set evs)"
    unfolding start using halt(1) unfolding halted_def halt(2) fold_cancelled by (auto simp: alive_def)
  moreover have "fst (Rebuild server cfg m) = None \<longleftrightarrow> list_ex fw_live (ms_forwarders m)"
    using Stop_halted[OF assms(1)] by (auto simp: Rebuild_def Let_def halted_def split: sum.split)
  ultimately show ?thesis using halt(1) by (simp add: Let_def halted_def)
qed

text \<open>The default system, started, with one subscriber that is a slow consumer.\<close>

definition subscribed_system :: csms where
  "subscribed_system = snd (facade_Subscribe 1 (snd (Start default_system)))"

lemma default_fields [simp]:
  "ms_started default_system = False" "ms_forwarders default_system = []"
  by (simp_all add: default_system_def buildFacade_def factory_New_def New_def ocpp_NewServer_def defaultConfig_def)

lemma subscribed_fields [simp]:
  "ms_started subscribed_system = True" "length (ms_forwarders subscribed_system) = 1"
  "fw_live (ms_forwarders subscribed_system ! 0)"
  by (simp_all add: subscribed_system_def facade_Subscribe_def Let_def split_beta Start_def announce_def publish_def)

lemma subscribed_reachable: "reachable env (\<lambda>_. True) default_system subscribed_system"
  using reachable.step[OF reachable.step[OF reachable.init], of "\<lambda>_. True" StartCall "SubscribeCall 1" env default_system]
  by (simp add: subscribed_system_def)

theorem stop_waits_for_subscribers_witness:
  "fst (Start (sys_do undefined (CancelCall 0) (Stop subscribed_system))) \<and>
   \<not> fst (Start (sys_do undefined (TakeCall 0) (Stop subscribed_system))) \<and>
   fst (Rebuild (Inr ()) defaultConfig subscribed_system) = None"
proof -
  have "list_ex fw_live (ms_forwarders subscribed_system)"
    unfolding list_ex_iff
    by (rule bexI[of _ "ms_forwarders subscribed_system ! 0"]) simp_all
  then show ?thesis
    using stop_waits_for_subscribers[of subscribed_system "[CancelCall 0]" undefined "Inr ()" defaultConfig]
      stop_waits_for_subscribers[of subscribed_system "[TakeCall 0]" undefined "Inr ()" defaultConfig]
    by (simp add: Let_def)
qed

subsection \<open>The event stream of a subscriber\<close>

text \<open>What the subscriber \<open>i\<close> has received, and what is on its way to it, oldest first.\<close>

definition held_events :: "forwarder \<Rightarrow> csms_event list" where
  "held_events fw = fw_taken fw @ fw_out fw @ (case fw_held fw of None \<Rightarrow> [] | Some ev \<Rightarrow> [ev])"

definition stream :: "nat \<Rightarrow> csms \<Rightarrow> csms_event list" where
  "stream i m = held_events (ms_forwarders m ! i) @ em_subscribers (ms_emitter m) ! fw_src (ms_forwarders m ! i)"

definition taken :: "nat \<Rightarrow> csms \<Rightarrow> csms_event list" where
  "taken i m = fw_taken (ms_forwarders m ! i)"

text \<open>Every forwarder reads a channel of its own; the channels and the outputs have their capacity.\<close>

definition wired :: "csms \<Rightarrow> bool" where
  "wired m \<longleftrightarrow> map fw_src (ms_forwarders m) = [0..<length (em_subscribers (ms_emitter m))] \<and>
     em_bufSize (ms_emitter m) = DefaultEventBufferSize \<and>
     (\<forall>fw \<in> set (ms_forwarders m). 0 < fw_buffer fw \<and> int (length (fw_out fw)) \<le> fw_buffer fw)"

lemma wired_src:
  assumes "wired m" "i < length (ms_forwarders m)"
  shows "fw_src (ms_forwarders m ! i) = i" "i < length (em_subscribers (ms_emitter m))"
proof -
  have "length (ms_forwarders m) = length (em_subscribers (ms_emitter m))"
    using assms(1) unfolding wired_def by (metis diff_zero length_map length_upt)
  then show "i < length (em_subscribers (ms_emitter m))" using assms(2) by simp
  then show "fw_src (ms_forwarders m ! i) = i"
    using assms unfolding wired_def by (metis add_0 nth_map nth_upt)
qed

lemma wired_stream:
  "wired m \<Longrightarrow> i < length (ms_forwarders m) \<Longrightarrow>
     stream i m = held_events (ms_forwarders m ! i) @ em_subscribers (ms_emitter m) ! i"
  by (simp add: stream_def wired_src)

lemma Emit_simps [simp]:
  "length (em_subscribers (Emit ev e)) = length (em_subscribers e)" "em_bufSize (Emit ev e) = em_bufSize e"
  "s < length (em_subscribers e) \<Longrightarrow> em_subscribers (Emit ev e) ! s = try_send (em_bufSize e) ev (em_subscribers e ! s)"
  by (simp_all add: Emit_def)

lemma fold_Emit_frame [simp]:
  "length (em_subscribers (fold Emit es e)) = length (em_subscribers e)" "em_bufSize (fold Emit es e) = em_bufSize e"
  by (rule fold_frame, simp)+

lemma fold_Emit_channel:
  assumes "s < length (em_subscribers e)"
  shows "\<exists>ys. em_subscribers (fold Emit es e) ! s = em_subscribers e ! s @ ys \<and> subseq ys es \<and>
    (int (length (em_subscribers e ! s) + length es) \<le> em_bufSize e \<longrightarrow> ys = es)"
  using assms
proof (induction es arbitrary: e)
  case (Cons ev es)
  obtain ys where ys: "em_subscribers (fold Emit es (Emit ev e)) ! s = em_subscribers (Emit ev e) ! s @ ys"
    "subseq ys es" "int (length (em_subscribers (Emit ev e) ! s) + length es) \<le> em_bufSize e \<longrightarrow> ys = es"
    using Cons.IH[of "Emit ev e"] Cons.prems by auto
  show ?case
  proof (cases "int (length (em_subscribers e ! s)) < em_bufSize e")
    case True
    then show ?thesis using ys Cons.prems by (intro exI[of _ "ev # ys"]) (simp add: try_send_def)
  next
    case False
    then show ?thesis using ys Cons.prems by (intro exI[of _ ys]) (auto simp: try_send_def)
  qed
qed simp

text \<open>The stream since the events \<open>past\<close>: a subsequence of what was emitted, all of it while no more
  was emitted than a channel holds.\<close>

definition carries :: "nat \<Rightarrow> csms_event list \<Rightarrow> csms \<Rightarrow> bool" where
  "carries i past m \<longleftrightarrow> i < length (ms_forwarders m) \<and>
     (\<exists>es. ms_emitted m = past @ es \<and> subseq (stream i m) es \<and>
        (int (length es) \<le> DefaultEventBufferSize \<longrightarrow> stream i m = es))"

lemma works_wired: "works m m' \<Longrightarrow> wired m \<Longrightarrow> wired m'"
  by (auto simp: works_def others_def wired_def)

lemma works_carries:
  assumes "works m m'" "wired m" "carries i past m" shows "carries i past m'"
proof -
  obtain new where new: "ms_forwarders m' = ms_forwarders m" "ms_emitter m' = fold Emit new (ms_emitter m)"
    "ms_emitted m' = ms_emitted m @ new"
    using assms(1) by (auto simp: works_def others_def)
  obtain es where es: "i < length (ms_forwarders m)" "ms_emitted m = past @ es" "subseq (stream i m) es"
    "int (length es) \<le> DefaultEventBufferSize \<longrightarrow> stream i m = es"
    using assms(3) unfolding carries_def by blast
  have cap: "em_bufSize (ms_emitter m) = DefaultEventBufferSize" using assms(2) by (simp add: wired_def)
  obtain ys where ys: "em_subscribers (ms_emitter m') ! i = em_subscribers (ms_emitter m) ! i @ ys" "subseq ys new"
    "int (length (em_subscribers (ms_emitter m) ! i) + length new) \<le> DefaultEventBufferSize \<longrightarrow> ys = new"
    using fold_Emit_channel[OF wired_src(2)[OF assms(2) es(1)], of new] unfolding new(2) cap by blast
  have stream: "stream i m' = stream i m @ ys"
    using wired_stream[OF assms(2) es(1)] wired_stream[OF works_wired[OF assms(1,2)]] es(1) ys(1) new(1) by simp
  have "length (em_subscribers (ms_emitter m) ! i) \<le> length (stream i m)"
    using wired_stream[OF assms(2) es(1)] by simp
  also have "\<dots> \<le> length es" using es(3) by (rule list_emb_length)
  finally have "stream i m' = es @ new" if "int (length (es @ new)) \<le> DefaultEventBufferSize"
    using that es(4) ys(3) stream by simp
  then show ?thesis
    unfolding carries_def using es(1-3) new(1,3) ys(2) stream
    by (intro conjI exI[of _ "es @ new"]) (simp_all add: list_emb_append_mono)
qed

text \<open>A step of a forwarder or of its consumer moves events along, and changes no stream.\<close>

definition moved :: "nat \<Rightarrow> csms \<Rightarrow> csms \<Rightarrow> bool" where
  "moved j m m' \<longleftrightarrow> wired m' \<and> length (ms_forwarders m') = length (ms_forwarders m) \<and>
     ms_emitted m' = ms_emitted m \<and> (\<forall>i < length (ms_forwarders m). stream i m' = stream i m)"

lemma moved_update:
  assumes "wired m" "j < length (ms_forwarders m)"
    and "fw_src fw = j" "fw_buffer fw = fw_buffer (ms_forwarders m ! j)" "int (length (fw_out fw)) \<le> fw_buffer fw"
    and "length (em_subscribers em) = length (em_subscribers (ms_emitter m))"
      "em_bufSize em = em_bufSize (ms_emitter m)"
    and "\<And>k. k \<noteq> j \<Longrightarrow> em_subscribers em ! k = em_subscribers (ms_emitter m) ! k"
    and "held_events fw @ em_subscribers em ! j = held_events (ms_forwarders m ! j) @ em_subscribers (ms_emitter m) ! j"
  shows "moved j m (m\<lparr>ms_emitter := em, ms_forwarders := (ms_forwarders m)[j := fw]\<rparr>)"
proof -
  let ?m = "m\<lparr>ms_emitter := em, ms_forwarders := (ms_forwarders m)[j := fw]\<rparr>"
  have "map fw_src ((ms_forwarders m)[j := fw]) = map fw_src (ms_forwarders m)"
    using wired_src[OF assms(1,2)] assms(3) by (simp add: map_same_update)
  moreover have "0 < fw_buffer fw" using assms(1,2,4) by (simp add: wired_def)
  then have "\<forall>x \<in> set ((ms_forwarders m)[j := fw]). 0 < fw_buffer x \<and> int (length (fw_out x)) \<le> fw_buffer x"
    using assms(1,5) by (intro all_set_update) (simp_all add: wired_def)
  ultimately have w: "wired ?m"
    using assms(1,6,7) by (simp add: wired_def)
  have "stream i ?m = stream i m" if "i < length (ms_forwarders m)" for i
    using wired_stream[OF assms(1) that] wired_stream[OF w, of i] that assms(8,9)
    by (cases "i = j") simp_all
  then show ?thesis using w by (simp add: moved_def)
qed

lemma moved_refl: "wired m \<Longrightarrow> moved j m m"
  by (simp add: moved_def)

lemma moved_forwarders:
  assumes "wired m" "j < length (ms_forwarders m)" "fw_src fw = j" "fw_buffer fw = fw_buffer (ms_forwarders m ! j)"
    and "int (length (fw_out fw)) \<le> fw_buffer fw" "held_events fw = held_events (ms_forwarders m ! j)"
  shows "moved j m (m\<lparr>ms_forwarders := (ms_forwarders m)[j := fw]\<rparr>)"
  using moved_update[OF assms(1-5), of "ms_emitter m"] assms(6) by simp

lemma forward_moved:
  assumes "wired m" shows "moved j m (forward_step j m)"
proof (cases "j < length (ms_forwarders m) \<and> fw_live (ms_forwarders m ! j)")
  case True
  let ?fw = "ms_forwarders m ! j"
  have j: "j < length (ms_forwarders m)" and src: "fw_src ?fw = j" "j < length (em_subscribers (ms_emitter m))"
    and cap: "int (length (fw_out ?fw)) \<le> fw_buffer ?fw"
    using True wired_src[OF assms] assms by (auto simp: wired_def)
  show ?thesis
  proof (cases "fw_held ?fw")
    case None
    show ?thesis
    proof (cases "em_subscribers (ms_emitter m) ! j")
      case Nil
      then show ?thesis
        using True None src cap receive_Nil moved_forwarders[OF assms j, of "?fw\<lparr>fw_held := None\<rparr>"]
        by (simp add: forward_step_def Let_def held_events_def)
    next
      case (Cons ev ch)
      have eq: "forward_step j m = m\<lparr>ms_emitter := (ms_emitter m)\<lparr>em_subscribers := (em_subscribers (ms_emitter m))[j := ch]\<rparr>,
          ms_forwarders := (ms_forwarders m)[j := ?fw\<lparr>fw_held := Some ev\<rparr>]\<rparr>"
        using True None src Cons by (simp add: forward_step_def Let_def receive_Cons)
      show ?thesis
        unfolding eq by (rule moved_update[OF assms j]) (use None src cap Cons in \<open>simp_all add: held_events_def\<close>)
    qed
  next
    case (Some ev)
    then show ?thesis
      using True src cap
      by (auto simp: forward_step_def Let_def held_events_def intro!: moved_forwarders[OF assms] moved_refl[OF assms])
  qed
qed (auto simp: forward_step_def Let_def moved_refl[OF assms])

lemma take_moved:
  assumes "wired m" shows "moved j m (take_event j m)"
proof (cases "j < length (ms_forwarders m) \<and> fw_out (ms_forwarders m ! j) \<noteq> []")
  case True
  then have "int (length (fw_out (ms_forwarders m ! j))) \<le> fw_buffer (ms_forwarders m ! j)"
    using assms by (auto simp: wired_def)
  then show ?thesis
    using True wired_src[OF assms]
    by (auto simp: take_event_def Let_def held_events_def intro!: moved_forwarders[OF assms])
qed (auto simp: take_event_def Let_def moved_refl[OF assms])

lemma cancel_moved:
  assumes "wired m" shows "moved j m (cancel_subscriber j m)"
proof (cases "j < length (ms_forwarders m)")
  case True
  have fin: "moved j m (finish_stop d)" if "moved j m d" for d
    using that by (auto simp: moved_def finish_stop_def wired_def stream_def)
  have "int (length (fw_out (ms_forwarders m ! j))) \<le> fw_buffer (ms_forwarders m ! j)"
    using True assms by (auto simp: wired_def)
  then show ?thesis
    using True wired_src[OF assms]
    by (auto simp: cancel_subscriber_def held_events_def intro!: fin moved_forwarders[OF assms])
qed (simp add: cancel_subscriber_def moved_refl[OF assms])

lemma moved_carries: "moved j m m' \<Longrightarrow> carries i past m \<Longrightarrow> carries i past m'"
  by (auto simp: moved_def carries_def)

lemma lifecycle_moved:
  assumes "wired m" shows "moved j m (Stop m)" "moved j m (snd (Start m))"
proof -
  have cong: "moved j m d" if "ms_forwarders d = ms_forwarders m" "ms_emitter d = ms_emitter m" "ms_emitted d = ms_emitted m" for d
    using that assms by (simp add: moved_def wired_def stream_def)
  show "moved j m (Stop m)" by (rule cong) (simp_all add: Stop_def finish_stop_def)
  show "moved j m (snd (Start m))" by (rule cong) (simp_all add: Start_def announce_def publish_def Let_def)
qed

lemma subscribe_wired:
  assumes "wired m" shows "wired (snd (facade_Subscribe buffer m))"
  using assms
  by (auto simp: facade_Subscribe_def Let_def Subscribe_def wired_def DefaultEventBufferSize_def)

lemma subscribe_stream:
  assumes "wired m" "i < length (ms_forwarders m)"
  shows "stream i (snd (facade_Subscribe buffer m)) = stream i m"
  using assms wired_src[OF assms]
  by (simp add: facade_Subscribe_def Let_def Subscribe_def stream_def nth_append)

lemma sys_do_wired_carries:
  assumes "wired m"
  shows "wired (sys_do env ev m)" "carries i past m \<Longrightarrow> carries i past (sys_do env ev m)"
proof -
  consider "is_work ev" | "ev = StartCall \<or> ev = StopCall" | b where "ev = SubscribeCall b"
    | j where "ev = ForwardCall j \<or> ev = TakeCall j \<or> ev = CancelCall j"
    by (cases ev) simp_all
  then have "wired (sys_do env ev m) \<and> (carries i past m \<longrightarrow> carries i past (sys_do env ev m))"
  proof cases
    case 1
    then show ?thesis using works_wired works_carries sys_do_works assms by blast
  next
    case 2
    then have "moved 0 m (sys_do env ev m)" using lifecycle_moved[OF assms] by auto
    then show ?thesis using moved_carries by (auto simp: moved_def)
  next
    case (3 b)
    have "carries i past (snd (facade_Subscribe b m))" if "carries i past m"
      using that subscribe_stream[OF assms] unfolding carries_def
      by (auto simp: facade_Subscribe_def Let_def split_beta)
    then show ?thesis using 3 subscribe_wired[OF assms] by simp
  next
    case (4 j)
    then have "moved j m (sys_do env ev m)" using forward_moved take_moved cancel_moved assms by auto
    then show ?thesis using moved_carries by (auto simp: moved_def)
  qed
  then show "wired (sys_do env ev m)" "carries i past m \<Longrightarrow> carries i past (sys_do env ev m)" by simp_all
qed

lemma built_wired: "buildFacade server cfg = Inr m \<Longrightarrow> wired m"
  by (auto simp: buildFacade_def factory_New_def New_def ocpp_NewServer_def NewEmitter_def wired_def
      split: if_splits sum.splits)

lemma reachable_wired: "reachable env ok m0 m \<Longrightarrow> wired m0 \<Longrightarrow> wired m"
  by (induction rule: reachable.induct) (auto intro: sys_do_wired_carries)

lemma reachable_carries: "reachable env ok m0 m \<Longrightarrow> wired m0 \<Longrightarrow> carries i past m0 \<Longrightarrow> carries i past m"
  by (induction rule: reachable.induct) (auto intro: sys_do_wired_carries reachable_wired)

lemma subscribe_carries:
  assumes "wired m" "facade_Subscribe buffer m = (Some i, m1)"
  shows "carries i (ms_emitted m) m1"
proof -
  have "i = length (ms_forwarders m)" "ms_emitted m1 = ms_emitted m" "length (ms_forwarders m1) = Suc i"
    "stream i m1 = []"
    using assms(2) by (auto simp: facade_Subscribe_def Let_def Subscribe_def stream_def held_events_def split: if_splits)
  then show ?thesis by (simp add: carries_def DefaultEventBufferSize_def)
qed

text \<open>
  C5: the event stream, end to end. Whatever happens in the program after a subscription, the events
  the subscriber has received and those on their way to it are events emitted since, in the order of
  emission and each once; none is missing as long as at most 512 were emitted; and what it has
  received comes first. Its consumer can be as slow as it likes, and other subscribers play no part.
\<close>

theorem event_stream_end_to_end:
  assumes "buildFacade server cfg = Inr m0" "reachable env ok m0 m"
    and "facade_Subscribe buffer m = (Some i, m1)" "reachable env ok' m1 m'"
  shows "\<exists>es. ms_emitted m' = ms_emitted m @ es \<and> subseq (stream i m') es \<and>
    (length es \<le> 512 \<longrightarrow> stream i m' = es) \<and> prefix (taken i m') (stream i m')"
proof -
  have m: "wired m" using reachable_wired[OF assms(2) built_wired[OF assms(1)]] .
  then have m1: "wired m1" using subscribe_wired[of m buffer] assms(3) by simp
  have "carries i (ms_emitted m) m'"
    using reachable_carries[OF assms(4) m1 subscribe_carries[OF m assms(3)]] .
  then show ?thesis
    by (auto simp: carries_def taken_def stream_def held_events_def DefaultEventBufferSize_def)
qed

definition disconnect_of :: "charger_id \<Rightarrow> sys_event" where
  "disconnect_of k = Inbound
     \<lparr>rd_now = 5, rd_sampled = (\<lambda>_. 5), rd_uuid = ''u'', rd_random = [0, 0, 1, 0],
      rd_net = \<lparr>rn_create = \<lambda>_ _. None, rn_start = \<lambda>_ _. None, rn_call = \<lambda>_ _ _. None, rn_connected = \<lambda>_ _. True\<rparr>\<rparr>
     k Disconnected"

lemma started_reachable: "reachable env (\<lambda>_. True) default_system (snd (Start default_system))"
  using reachable.step[OF reachable.init, of "\<lambda>_. True" StartCall env default_system] by simp

lemma started_subscribe: "facade_Subscribe 1 (snd (Start default_system)) = (Some 0, subscribed_system)"
  by (simp add: subscribed_system_def facade_Subscribe_def Let_def split_beta Start_def announce_def publish_def)

theorem event_stream_end_to_end_witness:
  "\<exists>es. ms_emitted (sys_do undefined (disconnect_of ''a'') subscribed_system) =
      ms_emitted (snd (Start default_system)) @ es \<and>
    subseq (stream 0 (sys_do undefined (disconnect_of ''a'') subscribed_system)) es \<and>
    (length es \<le> 512 \<longrightarrow> stream 0 (sys_do undefined (disconnect_of ''a'') subscribed_system) = es) \<and>
    prefix (taken 0 (sys_do undefined (disconnect_of ''a'') subscribed_system))
      (stream 0 (sys_do undefined (disconnect_of ''a'') subscribed_system))"
  by (rule event_stream_end_to_end[OF default_build started_reachable started_subscribe
      reachable.step[OF reachable.init, where ok = "\<lambda>_. True"]]) simp

lemma disconnect_stream:
  "stream 0 (sys_do undefined (disconnect_of ''a'') subscribed_system) = [ChargerDisconnected 5 ''a'']"
  by code_simp

subsection \<open>A subscriber catches up\<close>

abbreviation out_of :: "nat \<Rightarrow> csms \<Rightarrow> csms_event list" where "out_of i m \<equiv> fw_out (ms_forwarders m ! i)"

definition serving :: "nat \<Rightarrow> csms \<Rightarrow> bool" where
  "serving i m \<longleftrightarrow> wired m \<and> i < length (ms_forwarders m) \<and> fw_live (ms_forwarders m ! i)"

lemma forward_serving:
  assumes "serving i m"
  shows "serving i (forward_step i m)" "stream i (forward_step i m) = stream i m" "taken i (forward_step i m) = taken i m"
proof -
  have mv: "moved i m (forward_step i m)" using assms forward_moved by (simp add: serving_def)
  have "alive (forward_step i m) ! i = alive m ! i" using moves_halted(1) by simp
  then show "serving i (forward_step i m)" "stream i (forward_step i m) = stream i m"
    using mv assms by (simp_all add: serving_def moved_def alive_def)
  show "taken i (forward_step i m) = taken i m"
    using assms by (simp add: serving_def taken_def forward_step_def Let_def split: option.split prod.split)
qed

lemma forward_fills:
  assumes "serving i m" "out_of i m = []" "stream i m \<noteq> taken i m"
  shows "out_of i (forward_step i m) \<noteq> [] \<or> fw_held (ms_forwarders (forward_step i m) ! i) \<noteq> None"
    "fw_held (ms_forwarders m ! i) \<noteq> None \<Longrightarrow> out_of i (forward_step i m) \<noteq> []"
proof -
  have i: "i < length (ms_forwarders m)" "fw_src (ms_forwarders m ! i) = i" "i < length (em_subscribers (ms_emitter m))"
    and room: "0 < fw_buffer (ms_forwarders m ! i)" and live: "fw_live (ms_forwarders m ! i)"
    using assms(1) wired_src[of m i] by (auto simp: serving_def wired_def)
  show out: "out_of i (forward_step i m) \<noteq> []" if "fw_held (ms_forwarders m ! i) \<noteq> None"
    using that i room live assms(2) by (auto simp: forward_step_def Let_def)
  show "out_of i (forward_step i m) \<noteq> [] \<or> fw_held (ms_forwarders (forward_step i m) ! i) \<noteq> None"
  proof (cases "fw_held (ms_forwarders m ! i)")
    case None
    then obtain ev ch where ch: "em_subscribers (ms_emitter m) ! i = ev # ch"
      using assms(2,3) i(2) by (cases "em_subscribers (ms_emitter m) ! i") (auto simp: stream_def held_events_def taken_def)
    then show ?thesis using None i live by (simp add: forward_step_def Let_def receive_Cons)
  qed (use out in blast)
qed

lemma forward_keeps_out:
  "serving i m \<Longrightarrow> out_of i m \<noteq> [] \<Longrightarrow> out_of i (forward_step i m) \<noteq> []"
  by (auto simp: serving_def forward_step_def Let_def split: option.split prod.split)

lemma two_rounds:
  assumes "serving i m" "stream i m \<noteq> taken i m"
  shows "out_of i (forward_step i (forward_step i m)) \<noteq> []"
proof (cases "out_of i (forward_step i m) = []")
  case True
  then have "out_of i m = []" using forward_keeps_out[OF assms(1)] by blast
  then have "fw_held (ms_forwarders (forward_step i m) ! i) \<noteq> None"
    using forward_fills(1)[OF assms(1) _ assms(2)] True by blast
  then show ?thesis
    using forward_fills(2)[OF forward_serving(1)[OF assms(1)] True] forward_serving(2,3)[OF assms(1)] assms(2) by simp
next
  case False
  then show ?thesis using forward_keeps_out forward_serving(1)[OF assms(1)] by blast
qed

lemma take_serving:
  assumes "serving i m"
  shows "serving i (take_event i m)" "stream i (take_event i m) = stream i m"
    "out_of i m \<noteq> [] \<Longrightarrow> length (taken i (take_event i m)) = Suc (length (taken i m))"
    "length (taken i m) \<le> length (taken i (take_event i m))"
proof -
  have "moved i m (take_event i m)" using assms take_moved by (simp add: serving_def)
  moreover have "alive (take_event i m) ! i = alive m ! i" using moves_halted(2) by simp
  ultimately show "serving i (take_event i m)" "stream i (take_event i m) = stream i m"
    using assms by (simp_all add: serving_def moved_def alive_def)
  show "out_of i m \<noteq> [] \<Longrightarrow> length (taken i (take_event i m)) = Suc (length (taken i m))"
    "length (taken i m) \<le> length (taken i (take_event i m))"
    using assms by (simp_all add: serving_def taken_def take_event_def Let_def)
qed

lemma taken_prefix: "prefix (taken i m) (stream i m)"
  by (simp add: taken_def stream_def held_events_def)

text \<open>Two rounds of the forwarding loop and a receive by the consumer.\<close>

definition round_of :: "nat \<Rightarrow> sys_event list" where
  "round_of i = [ForwardCall i, ForwardCall i, TakeCall i]"

lemma round_progress:
  assumes "serving i m"
  shows "serving i (fold (sys_do env) (round_of i) m)" "stream i (fold (sys_do env) (round_of i) m) = stream i m"
    "min (length (stream i m)) (Suc (length (taken i m))) \<le> length (taken i (fold (sys_do env) (round_of i) m))"
proof -
  let ?d = "forward_step i (forward_step i m)"
  have d: "serving i ?d" "stream i ?d = stream i m" "taken i ?d = taken i m"
    using forward_serving[OF assms] forward_serving[OF forward_serving(1)[OF assms]] by simp_all
  have run: "fold (sys_do env) (round_of i) m = take_event i ?d" by (simp add: round_of_def)
  show "serving i (fold (sys_do env) (round_of i) m)" "stream i (fold (sys_do env) (round_of i) m) = stream i m"
    unfolding run using take_serving(1,2)[OF d(1)] d(2) by simp_all
  show "min (length (stream i m)) (Suc (length (taken i m))) \<le> length (taken i (fold (sys_do env) (round_of i) m))"
    unfolding run using two_rounds[OF assms] take_serving(3,4)[OF d(1)] d(3)
    by (cases "stream i m = taken i m") auto
qed

lemma rounds_progress:
  "serving i m \<Longrightarrow>
     stream i (fold (sys_do env) (concat (replicate n (round_of i))) m) = stream i m \<and>
     min (length (stream i m)) (n + length (taken i m))
       \<le> length (taken i (fold (sys_do env) (concat (replicate n (round_of i))) m))"
proof (induction n arbitrary: m)
  case (Suc n)
  from Suc.IH[OF round_progress(1)[OF Suc.prems, where env = env]] show ?case
    using round_progress(2,3)[OF Suc.prems, where env = env] by auto
qed simp

text \<open>
  C27: no event that is on its way gets stuck: while its context is alive, a subscriber that keeps
  receiving gets the whole stream, in one receive for each event, however full its channels are.
\<close>

theorem subscriber_catches_up:
  assumes "buildFacade server cfg = Inr m0" "reachable env ok m0 m"
    and "i < length (ms_forwarders m)" "fw_live (ms_forwarders m ! i)" "length (stream i m) \<le> n"
  shows "taken i (fold (sys_do env) (concat (replicate n (round_of i))) m) = stream i m"
proof -
  let ?d = "fold (sys_do env) (concat (replicate n (round_of i))) m"
  have "serving i m" using reachable_wired[OF assms(2) built_wired[OF assms(1)]] assms(3,4) by (simp add: serving_def)
  then have "stream i ?d = stream i m" "length (stream i m) \<le> length (taken i ?d)"
    using rounds_progress[of i m env n] assms(5) by (auto simp: min_def split: if_splits)
  then show ?thesis using taken_prefix[of i ?d] by (auto simp: prefix_def)
qed

text \<open>The subscriber is told that the charger is gone: it receives what was emitted for it.\<close>

theorem subscriber_catches_up_witness:
  "taken 0 (fold (sys_do undefined) (round_of 0) (sys_do undefined (disconnect_of ''a'') subscribed_system)) =
    [ChargerDisconnected 5 ''a'']"
proof -
  let ?m = "sys_do undefined (disconnect_of ''a'') subscribed_system"
  have "works subscribed_system ?m" by (rule sys_do_works) (simp add: disconnect_of_def)
  then have "ms_forwarders ?m = ms_forwarders subscribed_system" by (simp add: works_def others_def)
  then have "taken 0 (fold (sys_do undefined) (concat (replicate 1 (round_of 0))) ?m) = stream 0 ?m"
    by (intro subscriber_catches_up[OF default_build
        reachable.step[OF subscribed_reachable[of undefined], of "disconnect_of ''a''"]])
      (simp_all add: disconnect_stream)
  then show ?thesis by (simp add: disconnect_stream)
qed

end
