(* ===== verification/WebUI.thy ===== *)
theory WebUI
  imports Writer System
begin

section \<open>WebUI: the configuration editor and the status page\<close>

text \<open>
  \<open>internal/adapter/inbound/webui\<close>: \<open>server.go\<close> (routes, the configuration form and its
  application), \<open>auth.go\<close> and \<open>status.go\<close>, and the start of the server in
  \<open>cmd/panya-charge-oss/main.go\<close>. A request carries what the handlers read of it: the parsed form, in
  the order in which Go ranges over it, the session cookie, and two headers. A response is what is
  rendered, before templates and JSON. The world is the server, the disk and the facade behind the
  applier (\<open>None\<close> when the applier is nil). What a request takes from outside is in \<open>outside\<close>.
\<close>

subsection \<open>Requests, responses and state\<close>

text \<open>A HEAD request is routed as GET.\<close>

datatype http_method = GET | POST | OtherMethod

record request =
  rq_method :: http_method
  rq_path :: string
  rq_cookie :: "string option"
  rq_formError :: "string option"
  rq_form :: "(string \<times> string list) list"
  rq_htmx :: bool
  rq_html :: bool              \<comment> \<open>the Accept header contains text/html\<close>

record apply_result =
  ar_Action :: string
  ar_FieldsChanged :: "string list"
  ar_RequiresRebuild :: bool
  ar_ActiveSession :: bool
  ar_ConfirmToken :: string
  ar_ChargerReconfigureRequired :: bool
  ar_RestartRequired :: bool

definition empty_result :: apply_result where
  "empty_result = \<lparr>ar_Action = '''', ar_FieldsChanged = [], ar_RequiresRebuild = False, ar_ActiveSession = False,
     ar_ConfirmToken = '''', ar_ChargerReconfigureRequired = False, ar_RestartRequired = False\<rparr>"

record confirm_entry =
  ce_nonce :: string
  ce_fields :: "string list"
  ce_expires :: time
  ce_candidate :: config

record webui =
  wb_configPath :: string
  wb_listenAddr :: string
  wb_token :: string
  wb_isLoopback :: bool
  wb_statusOnly :: bool
  wb_hasStatus :: bool
  wb_entityIDs :: "string \<times> string \<times> string"
  wb_ocppPort :: int
  wb_ocppPath :: string
  wb_confirm :: "confirm_entry option"

record world =
  w_ui :: webui
  w_disk :: disk
  w_app :: "csms option"

record outside =
  ot_unmarshal :: yaml_decoder
  ot_marshal :: "config \<Rightarrow> string + string"
  ot_getenv :: "string \<Rightarrow> string"
  ot_readError :: "string option"
  ot_os :: os
  ot_nonce :: string
  ot_now :: time
  ot_server :: "string + unit"

datatype post_error =
    BadForm string
  | LoadFailed
  | Overridden string string     \<comment> \<open>the field and the environment variable named in the message\<close>
  | Invalid config_error
  | WriteFailed write_error
  | RebuildFailed factory_error
  | UpdateFailed update_error
  | LogLevelFailed string

subsection \<open>Reading and cloning the configuration\<close>

definition config_file :: "outside \<Rightarrow> world \<Rightarrow> file_read" where
  "config_file ot w =
     (case ot_readError ot of
        Some e \<Rightarrow> FileError e
      | None \<Rightarrow> (case cur (w_disk w) (wb_configPath (w_ui w)) of None \<Rightarrow> FileMissing | Some data \<Rightarrow> FileData data))"

definition load_config :: "outside \<Rightarrow> world \<Rightarrow> config_error + config" where
  "load_config ot w = Load (ot_unmarshal ot) (ot_getenv ot) (wb_configPath (w_ui w)) (config_file ot w)"

definition effective :: "outside \<Rightarrow> world \<Rightarrow> config_error + effective_config" where
  "effective ot w = Effective (ot_unmarshal ot) (ot_getenv ot) (wb_configPath (w_ui w)) (config_file ot w)"

definition cloneConfig :: "config \<Rightarrow> config" where
  "cloneConfig c =
     \<lparr>cf_Server = cf_Server c, cf_MQTT = cf_MQTT c, cf_Charging = cf_Charging c, cf_WebUI = cf_WebUI c,
      cf_Energy = \<lparr>enc_GridEntityID = '''', enc_SolarEntityID = '''', enc_ConsumptionEntityID = '''', enc_Token = ''''\<rparr>\<rparr>"

subsection \<open>The form\<close>

definition if_int :: "string \<Rightarrow> (int \<Rightarrow> config \<Rightarrow> config) \<Rightarrow> config \<Rightarrow> config" where
  "if_int v upd c = (case Atoi v of Some n \<Rightarrow> upd n c | None \<Rightarrow> c)"

text \<open>The switch over the field names; an empty password or token leaves the stored one.\<close>

definition set_field :: "string \<Rightarrow> string \<Rightarrow> config \<Rightarrow> config" where
  "set_field field v c =
     (if field = ''server.ocpp_port'' then if_int v (\<lambda>n. on_server (srv_OCPPPort_update (\<lambda>_. n))) c
      else if field = ''server.ocpp_path'' then on_server (srv_OCPPPath_update (\<lambda>_. v)) c
      else if field = ''server.log_level'' then on_server (srv_LogLevel_update (\<lambda>_. v)) c
      else if field = ''server.log_format'' then on_server (srv_LogFormat_update (\<lambda>_. v)) c
      else if field = ''mqtt.broker'' then on_mqtt (mqc_Broker_update (\<lambda>_. v)) c
      else if field = ''mqtt.client_id'' then on_mqtt (mqc_ClientID_update (\<lambda>_. v)) c
      else if field = ''mqtt.username'' then on_mqtt (mqc_Username_update (\<lambda>_. v)) c
      else if field = ''mqtt.password'' then (if v \<noteq> '''' then on_mqtt (mqc_Password_update (\<lambda>_. v)) c else c)
      else if field = ''mqtt.base_topic'' then on_mqtt (mqc_BaseTopic_update (\<lambda>_. v)) c
      else if field = ''mqtt.disconnect_threshold_sec''
        then if_int v (\<lambda>n. on_mqtt (mqc_DisconnectThresholdSec_update (\<lambda>_. n))) c
      else if field = ''charging.min_amps'' then if_int v (\<lambda>n. on_charging (chg_MinAmps_update (\<lambda>_. n))) c
      else if field = ''charging.max_amps'' then if_int v (\<lambda>n. on_charging (chg_MaxAmps_update (\<lambda>_. n))) c
      else if field = ''charging.contactor_cooldown_sec''
        then if_int v (\<lambda>n. on_charging (chg_ContactorCooldownSec_update (\<lambda>_. n))) c
      else if field = ''charging.default_amps'' then if_int v (\<lambda>n. on_charging (chg_DefaultAmps_update (\<lambda>_. n))) c
      else if field = ''webui.enabled''
        then (case ParseBool v of Some b \<Rightarrow> on_webui (web_Enabled_update (\<lambda>_. b)) c | None \<Rightarrow> c)
      else if field = ''webui.listen'' then on_webui (web_Listen_update (\<lambda>_. v)) c
      else if field = ''webui.token'' then (if v \<noteq> '''' then on_webui (web_Token_update (\<lambda>_. v)) c else c)
      else c)"

definition applyFormValues :: "(string \<times> string list) list \<Rightarrow> config \<Rightarrow> config" where
  "applyFormValues form c =
     fold (\<lambda>(field, vals) c. case vals of [] \<Rightarrow> c | v # _ \<Rightarrow> set_field field v c) form c"

definition FormValue :: "string \<Rightarrow> request \<Rightarrow> string" where
  "FormValue k r = (case map_of (rq_form r) k of Some (v # _) \<Rightarrow> v | _ \<Rightarrow> '''')"

text \<open>\<open>toUpper\<close> appends to \<open>out\<close>; the index is positive exactly when \<open>out\<close> is not empty. \<open>dotToEnv\<close>
  splits at the last dot.\<close>

definition upper_step :: "char \<Rightarrow> string \<Rightarrow> string" where
  "upper_step r out =
     (if CHR ''a'' \<le> r \<and> r \<le> CHR ''z'' then out @ [char_of ((of_char r :: nat) - 32)]
      else if CHR ''A'' \<le> r \<and> r \<le> CHR ''Z'' \<and> out \<noteq> '''' \<and> last out < CHR ''_''
        then out @ [CHR ''_'', char_of ((of_char r :: nat) - 32)]
      else out @ [r])"

definition toUpper :: "string \<Rightarrow> string" where
  "toUpper s = fold upper_step s ''''"

definition dotToEnv :: "string \<Rightarrow> string" where
  "dotToEnv field =
     (let after = rev (takeWhile (\<lambda>c. c \<noteq> CHR ''.'') (rev field));
          lastDot = (if CHR ''.'' \<in> set field then length field - length after - 1 else 0)
      in ''PANYA_'' @ toUpper (if CHR ''.'' \<in> set field then take lastDot field else '''') @ ''_'' @
           toUpper (if lastDot > 0 then after else ''''))"

subsection \<open>Applying a change\<close>

definition applyHot :: "config \<Rightarrow> config \<Rightarrow> csms \<Rightarrow> (post_error + unit) \<times> csms" where
  "applyHot old new m =
     (case (if cf_Charging old \<noteq> cf_Charging new
            then applier_UpdateCharging
                   \<lparr>cp_MinAmps = chg_MinAmps (cf_Charging new), cp_MaxAmps = chg_MaxAmps (cf_Charging new),
                    cp_ContactorCooldownSec = chg_ContactorCooldownSec (cf_Charging new),
                    cp_DefaultAmps = chg_DefaultAmps (cf_Charging new)\<rparr> m
            else (Inr (), m)) of
        (Inl e, m) \<Rightarrow> (Inl (UpdateFailed e), m)
      | (Inr _, m) \<Rightarrow>
          if srv_LogLevel (cf_Server old) \<noteq> srv_LogLevel (cf_Server new)
          then (case applier_SetLogLevel (srv_LogLevel (cf_Server new)) m of
                  (False, m) \<Rightarrow> (Inl (LogLevelFailed (srv_LogLevel (cf_Server new))), m)
                | (True, m) \<Rightarrow> (Inr (), m))
          else (Inr (), m))"

definition save :: "outside \<Rightarrow> config \<Rightarrow> world \<Rightarrow> write_error option \<times> world" where
  "save ot candidate w =
     (let (e, d) = WriteAtomic (ot_marshal ot) (ot_os ot) (wb_configPath (w_ui w)) candidate (w_disk w)
      in (e, w\<lparr>w_disk := d\<rparr>))"

text \<open>\<open>Blocked\<close>: no answer yet, the handler waits for \<open>Rebuild\<close>.\<close>

datatype post_outcome = Failed int post_error | Applied apply_result | Blocked

text \<open>The part of \<open>handlePostConfig\<close> after the candidate has been validated.\<close>

definition apply_candidate :: "outside \<Rightarrow> request \<Rightarrow> config \<Rightarrow> config \<Rightarrow> world \<Rightarrow> post_outcome \<times> world" where
  "apply_candidate ot r current candidate w =
     (let report = ClassifyChanges current candidate;
          submittedToken = FormValue ''confirm_token'' r
      in case (if submittedToken = '''' \<and> chr_Class report \<in> {ApplyRebuild, ApplyProcessRestart}
               then wb_confirm (w_ui w) else None) of
           Some ce \<Rightarrow>
             (let res = empty_result\<lparr>ar_Action := ''rebuild'', ar_FieldsChanged := chr_Fields report,
                    ar_RequiresRebuild := True, ar_ActiveSession := False, ar_ConfirmToken := ce_nonce ce,
                    ar_ChargerReconfigureRequired := chr_ChargerReconfigureRequired report\<rparr>;
                  res = (if chr_Class report = ApplyProcessRestart
                         then res\<lparr>ar_Action := ''process_restart'', ar_RestartRequired := True,
                                ar_RequiresRebuild := False, ar_ConfirmToken := ''''\<rparr>
                         else res)
              in (Applied res, w))
         | None \<Rightarrow>
             if chr_Class report = ApplyNone then (Applied (empty_result\<lparr>ar_Action := ''none''\<rparr>), w)
             else if chr_Class report = ApplyProcessRestart then
               (case save ot candidate w of
                  (Some e, w) \<Rightarrow> (Failed 500 (WriteFailed e), w)
                | (None, w) \<Rightarrow> (Applied (empty_result\<lparr>ar_Action := ''process_restart'',
                    ar_FieldsChanged := chr_Fields report, ar_RestartRequired := True\<rparr>), w))
             else (case (if chr_Class report = ApplyRebuild then w_app w else None) of
                Some m \<Rightarrow>
                  if snd (applier_HasActiveSession m) then
                    (Applied (empty_result\<lparr>ar_Action := ''rebuild'', ar_FieldsChanged := chr_Fields report,
                       ar_RequiresRebuild := True, ar_ActiveSession := True, ar_ConfirmToken := ot_nonce ot,
                       ar_ChargerReconfigureRequired := chr_ChargerReconfigureRequired report\<rparr>),
                     w\<lparr>w_ui := (w_ui w)\<lparr>wb_confirm := Some \<lparr>ce_nonce = ot_nonce ot, ce_fields = chr_Fields report,
                        ce_expires = ot_now ot + 300 * second, ce_candidate = candidate\<rparr>\<rparr>\<rparr>)
                  else
                    (case save ot candidate w of
                       (Some e, w) \<Rightarrow> (Failed 500 (WriteFailed e), w)
                     | (None, w) \<Rightarrow>
                         (case Rebuild (ot_server ot) candidate m of
                            (None, m) \<Rightarrow> (Blocked, w\<lparr>w_app := Some m\<rparr>)
                          | (Some (Inl e), m) \<Rightarrow> (Failed 500 (RebuildFailed e), w\<lparr>w_app := Some m\<rparr>)
                          | (Some (Inr _), m) \<Rightarrow> (Applied (empty_result\<lparr>ar_Action := ''rebuild'',
                              ar_FieldsChanged := chr_Fields report,
                              ar_ChargerReconfigureRequired := chr_ChargerReconfigureRequired report\<rparr>),
                              w\<lparr>w_app := Some m\<rparr>)))
              | None \<Rightarrow>
                  (case (if chr_Class report = ApplyHot then w_app w else None) of
                     None \<Rightarrow>
                       (case save ot candidate w of
                          (Some e, w) \<Rightarrow> (Failed 500 (WriteFailed e), w)
                        | (None, w) \<Rightarrow> (Applied (empty_result\<lparr>ar_Action := ''hot_reload'',
                            ar_FieldsChanged := chr_Fields report\<rparr>), w))
                   | Some m \<Rightarrow>
                       (case applyHot current candidate m of
                          (Inl e, m) \<Rightarrow> (Failed 500 e, w\<lparr>w_app := Some m\<rparr>)
                        | (Inr _, m) \<Rightarrow>
                            (case save ot candidate (w\<lparr>w_app := Some m\<rparr>) of
                               (Some e, w) \<Rightarrow> (Failed 500 (WriteFailed e), w)
                             | (None, w) \<Rightarrow> (Applied (empty_result\<lparr>ar_Action := ''hot_reload'',
                                 ar_FieldsChanged := chr_Fields report\<rparr>), w))))))"

definition handlePostConfig :: "outside \<Rightarrow> request \<Rightarrow> world \<Rightarrow> post_outcome \<times> world" where
  "handlePostConfig ot r w =
     (case rq_formError r of
        Some e \<Rightarrow> (Failed 400 (BadForm e), w)
      | None \<Rightarrow>
     (case load_config ot w of
        Inl e \<Rightarrow> (Failed 500 LoadFailed, w)
      | Inr current \<Rightarrow>
     (case effective ot w of
        Inl e \<Rightarrow> (Failed 500 LoadFailed, w)
      | Inr ec \<Rightarrow>
     (case List.find (\<lambda>field. field \<in> set (ef_OverriddenByEnv ec)) (map fst (rq_form r)) of
        Some field \<Rightarrow> (Failed 400 (Overridden field (dotToEnv field)), w)
      | None \<Rightarrow>
     (let candidate = applyFormValues (rq_form r) (cloneConfig current) in
      case Validate candidate of
        Some e \<Rightarrow> (Failed 400 (Invalid e), w)
      | None \<Rightarrow> apply_candidate ot r current candidate w)))))"

subsection \<open>Authentication and routes\<close>

definition sessionCookieName :: string where "sessionCookieName = ''panya_webui_session''"

text \<open>\<open>subtle.ConstantTimeCompare\<close> is equality; \<open>subtleValidate\<close> refuses empty strings first.\<close>

definition subtleValidate :: "string \<Rightarrow> string \<Rightarrow> bool" where
  "subtleValidate a b \<longleftrightarrow>
     (if length a = 0 \<or> length b = 0 \<or> length a \<noteq> length b then False else a = b)"

text \<open>The pages and JSON documents: what they are rendered from.\<close>

record field_dto =
  fd_Value :: "field_value option"
  fd_OverriddenByEnv :: bool
  fd_PasswordSet :: bool
  fd_TokenSet :: bool
  fd_Secret :: bool

record config_dto =
  dto_Fields :: "(string \<times> field_dto) list"
  dto_Topics :: "(string \<times> string) list option"
  dto_ApplyClasses :: "(string \<times> string) list"

record charger_status =
  st_ID :: charger_id
  st_Vendor :: string
  st_Model :: string
  st_Status :: string
  st_ConnectorID :: int
  st_ChargingPower :: float64
  st_LimitAmps :: int

record status_data =
  sd_StatusOnly :: bool
  sd_MQTT :: "bool \<times> string"
  sd_Chargers :: "charger_status list"
  sd_Charging :: charging_state
  sd_OCPP :: "int \<times> string"
  sd_EntityIDs :: "string \<times> string \<times> string"

record config_field_vm =
  vm_Name :: string
  vm_Value :: string
  vm_Disabled :: bool
  vm_Secret :: bool
  vm_ApplyClass :: string
  vm_PasswordSet :: bool
  vm_TokenSet :: bool

datatype response =
    RedirectTo string
  | LoggedIn string           \<comment> \<open>the session cookie set, and a redirect to the editor\<close>
  | LoggedOut
  | LoginPage string
  | Forbidden
  | InternalError
  | NotServed
  | StaticFile
  | StatusPage status_data
  | StatusJSON "bool \<times> string" "charger_status list" charging_state "int \<times> string"
  | ConfigPage bool "(string \<times> config_field_vm list) list"   \<comment> \<open>the fragment or the full page\<close>
  | ConfigJSON config_dto
  | PostResult bool post_outcome

definition applyClasses :: "(string \<times> string) list" where
  "applyClasses =
     [(''server.ocpp_port'', ''rebuild''), (''server.ocpp_path'', ''rebuild''),
      (''server.log_level'', ''hot''), (''server.log_format'', ''rebuild''),
      (''mqtt.broker'', ''rebuild''), (''mqtt.client_id'', ''rebuild''), (''mqtt.username'', ''rebuild''),
      (''mqtt.password'', ''rebuild''), (''mqtt.base_topic'', ''rebuild''), (''mqtt.topics.*'', ''rebuild''),
      (''mqtt.disconnect_threshold_sec'', ''rebuild''), (''charging.min_amps'', ''hot''),
      (''charging.max_amps'', ''hot''), (''charging.contactor_cooldown_sec'', ''hot''),
      (''charging.default_amps'', ''hot''), (''webui.enabled'', ''process_restart''),
      (''webui.listen'', ''process_restart''), (''webui.token'', ''hot'')]"

text \<open>The JSON document has a table of its own.\<close>

definition dto_apply_classes :: "(string \<times> string) list" where
  "dto_apply_classes =
     [(''server.log_level'', ''hot''), (''server.log_format'', ''rebuild''),
      (''server.ocpp_port'', ''rebuild''), (''server.ocpp_path'', ''rebuild''),
      (''charging.min_amps'', ''hot''), (''charging.max_amps'', ''hot''),
      (''charging.contactor_cooldown_sec'', ''hot''), (''charging.default_amps'', ''hot''),
      (''mqtt.broker'', ''rebuild''), (''mqtt.client_id'', ''rebuild''), (''mqtt.username'', ''rebuild''),
      (''mqtt.password'', ''rebuild''), (''mqtt.base_topic'', ''rebuild''), (''mqtt.topics.*'', ''rebuild''),
      (''mqtt.disconnect_threshold_sec'', ''rebuild''), (''webui.enabled'', ''process_restart''),
      (''webui.listen'', ''process_restart''), (''webui.token'', ''hot'')]"

definition field_of :: "effective_config \<Rightarrow> string \<Rightarrow> field_value option \<Rightarrow> string \<times> field_dto" where
  "field_of ec name v =
     (name, \<lparr>fd_Value = v, fd_OverriddenByEnv = (name \<in> set (ef_OverriddenByEnv ec)),
             fd_PasswordSet = False, fd_TokenSet = False, fd_Secret = False\<rparr>)"

definition buildConfigDTO :: "effective_config \<Rightarrow> config_dto" where
  "buildConfigDTO ec =
     \<lparr>dto_Fields =
        [field_of ec ''server.ocpp_port'' (Some (IntV (ef_ServerOCPPPort ec))),
         field_of ec ''server.ocpp_path'' (Some (StrV (ef_ServerOCPPPath ec))),
         field_of ec ''server.log_level'' (Some (StrV (ef_ServerLogLevel ec))),
         field_of ec ''server.log_format'' (Some (StrV (ef_ServerLogFormat ec))),
         field_of ec ''mqtt.broker'' (Some (StrV (ef_MQTTBroker ec))),
         field_of ec ''mqtt.client_id'' (Some (StrV (ef_MQTTClientID ec))),
         field_of ec ''mqtt.username'' (Some (StrV (ef_MQTTUsername ec))),
         (''mqtt.password'', (snd (field_of ec ''mqtt.password'' None))
            \<lparr>fd_Secret := True, fd_PasswordSet := ef_MQTTPasswordSet ec\<rparr>),
         field_of ec ''mqtt.base_topic'' (Some (StrV (ef_MQTTBaseTopic ec))),
         field_of ec ''mqtt.disconnect_threshold_sec'' (Some (IntV (ef_MQTTDisconnectSec ec))),
         field_of ec ''charging.min_amps'' (Some (IntV (ef_ChargingMinAmps ec))),
         field_of ec ''charging.max_amps'' (Some (IntV (ef_ChargingMaxAmps ec))),
         field_of ec ''charging.contactor_cooldown_sec'' (Some (IntV (ef_ChargingContactorsSec ec))),
         field_of ec ''charging.default_amps'' (Some (IntV (ef_ChargingDefaultAmps ec))),
         field_of ec ''webui.enabled'' (Some (BoolV (ef_WebUIEnabled ec))),
         field_of ec ''webui.listen'' (Some (StrV (ef_WebUIListen ec))),
         (''webui.token'', (snd (field_of ec ''webui.token'' None))
            \<lparr>fd_Secret := True, fd_TokenSet := ef_WebUITokenSet ec\<rparr>)],
      dto_Topics = ef_MQTTTopics ec, dto_ApplyClasses = dto_apply_classes\<rparr>"

fun show_value :: "field_value \<Rightarrow> string" where
  "show_value (IntV n) = Itoa n"
| "show_value (BoolV b) = (if b then ''true'' else ''false'')"
| "show_value (StrV s) = s"

definition field_vm :: "effective_config \<Rightarrow> string \<Rightarrow> field_value \<Rightarrow> bool \<Rightarrow> bool \<Rightarrow> bool \<Rightarrow> config_field_vm" where
  "field_vm ec name v secret passwordSet tokenSet =
     \<lparr>vm_Name = name, vm_Value = show_value v, vm_Disabled = (name \<in> set (ef_OverriddenByEnv ec)),
      vm_Secret = secret,
      vm_ApplyClass = (case map_of applyClasses name of Some c \<Rightarrow> c | None \<Rightarrow> ''''),
      vm_PasswordSet = passwordSet, vm_TokenSet = tokenSet\<rparr>"

definition buildConfigFormVM :: "effective_config \<Rightarrow> (string \<times> config_field_vm list) list" where
  "buildConfigFormVM ec =
     [(''server'',
        [field_vm ec ''server.ocpp_port'' (IntV (ef_ServerOCPPPort ec)) False False False,
         field_vm ec ''server.ocpp_path'' (StrV (ef_ServerOCPPPath ec)) False False False,
         field_vm ec ''server.log_level'' (StrV (ef_ServerLogLevel ec)) False False False,
         field_vm ec ''server.log_format'' (StrV (ef_ServerLogFormat ec)) False False False]),
      (''mqtt'',
        [field_vm ec ''mqtt.broker'' (StrV (ef_MQTTBroker ec)) False False False,
         field_vm ec ''mqtt.client_id'' (StrV (ef_MQTTClientID ec)) False False False,
         field_vm ec ''mqtt.username'' (StrV (ef_MQTTUsername ec)) False False False,
         field_vm ec ''mqtt.password'' (StrV '''') True (ef_MQTTPasswordSet ec) False,
         field_vm ec ''mqtt.base_topic'' (StrV (ef_MQTTBaseTopic ec)) False False False,
         field_vm ec ''mqtt.disconnect_threshold_sec'' (IntV (ef_MQTTDisconnectSec ec)) False False False]),
      (''charging'',
        [field_vm ec ''charging.min_amps'' (IntV (ef_ChargingMinAmps ec)) False False False,
         field_vm ec ''charging.max_amps'' (IntV (ef_ChargingMaxAmps ec)) False False False,
         field_vm ec ''charging.contactor_cooldown_sec'' (IntV (ef_ChargingContactorsSec ec)) False False False,
         field_vm ec ''charging.default_amps'' (IntV (ef_ChargingDefaultAmps ec)) False False False]),
      (''webui'',
        [field_vm ec ''webui.enabled'' (BoolV (ef_WebUIEnabled ec)) False False False,
         field_vm ec ''webui.listen'' (StrV (ef_WebUIListen ec)) False False False,
         field_vm ec ''webui.token'' (StrV '''') True False (ef_WebUITokenSet ec)])]"

definition handleGetConfig :: "outside \<Rightarrow> request \<Rightarrow> world \<Rightarrow> response" where
  "handleGetConfig ot r w =
     (case effective ot w of
        Inl e \<Rightarrow> InternalError
      | Inr ec \<Rightarrow>
          if rq_htmx r then ConfigPage True (buildConfigFormVM ec)
          else if rq_html r then ConfigPage False (buildConfigFormVM ec)
          else ConfigJSON (buildConfigDTO ec))"

text \<open>The status handlers read the provider given at the start.\<close>

definition toChargerStatus :: "charger_info list \<Rightarrow> charger_status list" where
  "toChargerStatus = map (\<lambda>c. \<lparr>st_ID = ci_ID c, st_Vendor = ci_Vendor c, st_Model = ci_Model c,
     st_Status = ci_Status c, st_ConnectorID = ci_ConnectorID c, st_ChargingPower = ci_ChargingPower c,
     st_LimitAmps = ci_LimitAmps c\<rparr>)"

definition status_of :: "time \<Rightarrow> webui \<Rightarrow> csms \<Rightarrow> status_data" where
  "status_of now u m =
     \<lparr>sd_StatusOnly = wb_statusOnly u, sd_MQTT = MQTTStatus m, sd_Chargers = toChargerStatus (Chargers now m),
      sd_Charging = ChargingState now m, sd_OCPP = (wb_ocppPort u, wb_ocppPath u), sd_EntityIDs = wb_entityIDs u\<rparr>"

definition handleStatus :: "outside \<Rightarrow> csms \<Rightarrow> webui \<Rightarrow> response" where
  "handleStatus ot provider u =
     (if \<not> wb_hasStatus u then InternalError else StatusPage (status_of (ot_now ot) u provider))"

definition handleStatusJSON :: "outside \<Rightarrow> csms \<Rightarrow> webui \<Rightarrow> response" where
  "handleStatusJSON ot provider u =
     (if \<not> wb_hasStatus u then InternalError
      else StatusJSON (MQTTStatus provider) (toChargerStatus (Chargers (ot_now ot) provider))
             (ChargingState (ot_now ot) provider) (wb_ocppPort u, wb_ocppPath u))"

definition handleIndex :: "outside \<Rightarrow> csms \<Rightarrow> request \<Rightarrow> webui \<Rightarrow> response" where
  "handleIndex ot provider r u =
     (if wb_statusOnly u then handleStatus ot provider u
      else if wb_token u = '''' \<and> wb_isLoopback u then RedirectTo ''/api/config''
      else if (case rq_cookie r of Some v \<Rightarrow> subtleValidate v (wb_token u) | None \<Rightarrow> False)
        then RedirectTo ''/api/config''
      else LoginPage '''')"

definition handleLogin :: "request \<Rightarrow> webui \<Rightarrow> response" where
  "handleLogin r u =
     (if \<not> subtleValidate (FormValue ''token'' r) (wb_token u) then LoginPage ''Invalid token''
      else LoggedIn (wb_token u))"

definition authMiddleware :: "string \<Rightarrow> (request \<Rightarrow> 'w \<Rightarrow> response \<times> 'w) \<Rightarrow> request \<Rightarrow> 'w \<Rightarrow> response \<times> 'w" where
  "authMiddleware token next_handler r w =
     (if token = '''' then next_handler r w
      else case rq_cookie r of
        None \<Rightarrow> (RedirectTo ''/'', w)
      | Some v \<Rightarrow> if v \<noteq> token then (Forbidden, w) else next_handler r w)"

text \<open>The routes of \<open>NewServer\<close> and \<open>WithStatus\<close>. \<open>GET /\<close> is the catch-all of the GET requests.\<close>

definition api_config :: "outside \<Rightarrow> request \<Rightarrow> world \<Rightarrow> response \<times> world" where
  "api_config ot r w =
     (case rq_method r of
        GET \<Rightarrow> (handleGetConfig ot r w, w)
      | POST \<Rightarrow> (let (res, w) = handlePostConfig ot r w in (PostResult (rq_htmx r) res, w))
      | OtherMethod \<Rightarrow> (NotServed, w))"

definition serve :: "outside \<Rightarrow> csms \<Rightarrow> request \<Rightarrow> world \<Rightarrow> response \<times> world" where
  "serve ot provider r w =
     (let u = w_ui w in
      if rq_path r = ''/api/config'' \<and> rq_method r \<noteq> OtherMethod then
        (if wb_token u \<noteq> '''' \<or> \<not> wb_isLoopback u then authMiddleware (wb_token u) (api_config ot) r w
         else api_config ot r w)
      else if rq_method r = POST then
        (if rq_path r = ''/login'' then (handleLogin r u, w)
         else if rq_path r = ''/logout'' then (LoggedOut, w)
         else (NotServed, w))
      else if rq_method r = GET then
        (if HasPrefix (rq_path r) ''/static/'' then (StaticFile, w)
         else if wb_hasStatus u \<and> rq_path r = ''/status'' then (handleStatus ot provider u, w)
         else if wb_hasStatus u \<and> rq_path r = ''/api/status'' then (handleStatusJSON ot provider u, w)
         else (handleIndex ot provider r u, w))
      else (NotServed, w))"

definition NewServer :: "string \<Rightarrow> string \<Rightarrow> string \<Rightarrow> bool \<Rightarrow> webui" where
  "NewServer configPath listenAddr token loopback =
     \<lparr>wb_configPath = configPath, wb_listenAddr = listenAddr, wb_token = token, wb_isLoopback = loopback,
      wb_statusOnly = False, wb_hasStatus = False, wb_entityIDs = ('''', '''', ''''), wb_ocppPort = 0,
      wb_ocppPath = '''', wb_confirm = None\<rparr>"

definition WithStatus :: "int \<Rightarrow> string \<Rightarrow> webui \<Rightarrow> webui" where
  "WithStatus port path u = u\<lparr>wb_hasStatus := True, wb_ocppPort := port, wb_ocppPath := path\<rparr>"

definition WithStatusOnly :: "webui \<Rightarrow> webui" where
  "WithStatusOnly u = u\<lparr>wb_statusOnly := True\<rparr>"

definition SetEntityIDs :: "string \<Rightarrow> string \<Rightarrow> string \<Rightarrow> webui \<Rightarrow> webui" where
  "SetEntityIDs grid solar consumption u = u\<lparr>wb_entityIDs := (grid, solar, consumption)\<rparr>"

text \<open>The fragment that \<open>renderResult\<close> picks for an HTMX request.\<close>

definition result_class :: "apply_result \<Rightarrow> string" where
  "result_class ar =
     (if ar_Action ar = ''hot_reload'' then ''fragHot''
      else if ar_Action ar = ''process_restart'' then ''fragProcessRestart''
      else if ar_Action ar = ''rebuild'' \<or> ar_Action ar = ''active_session'' then
        (if ar_ConfirmToken ar \<noteq> '''' then ''fragConfirm''
         else if ar_ChargerReconfigureRequired ar then ''fragRebuildOcpp'' else ''fragRebuild'')
      else if ar_Action ar = ''none'' then ''fragNone''
      else ''fragHot'')"

subsection \<open>Starting the server\<close>

text \<open>\<open>main.go\<close> has a test of its own for a loopback address.\<close>

definition main_isLoopback :: "string \<Rightarrow> bool" where
  "main_isLoopback addr =
     (case SplitHostPort addr of
        None \<Rightarrow> addr = ''localhost'' \<or> addr = ''::1''
      | Some (host, port) \<Rightarrow> host = ''127.0.0.1'' \<or> host = ''::1'' \<or> host = ''localhost'')"

text \<open>The part of \<open>run\<close> that sets up the web UI; \<open>None\<close> when it is not started.\<close>

definition start_webui :: "string \<Rightarrow> config \<Rightarrow> webui option" where
  "start_webui configPath cfg =
     (let u = cf_WebUI cfg in
      if web_Enabled u \<or> web_StatusEnabled u then
        (let srv = NewServer configPath (web_Listen u) (web_Token u) (main_isLoopback (web_Listen u));
             srv = (if web_StatusEnabled u
                    then SetEntityIDs (enc_GridEntityID (cf_Energy cfg)) (enc_SolarEntityID (cf_Energy cfg))
                           (enc_ConsumptionEntityID (cf_Energy cfg))
                           (WithStatus (srv_OCPPPort (cf_Server cfg)) (srv_OCPPPath (cf_Server cfg)) srv)
                    else srv);
             srv = (if web_StatusEnabled u \<and> \<not> web_Enabled u then WithStatusOnly srv else srv)
         in Some srv)
      else None)"

text \<open>The start of the program: the configuration, the facade and its web UI.\<close>

definition run_main ::
  "yaml_decoder \<Rightarrow> (string \<Rightarrow> string) \<Rightarrow> string \<Rightarrow> file_read \<Rightarrow> (string + unit) \<Rightarrow> (csms \<times> webui option) option" where
  "run_main unmarshal getenv configPath file server =
     (case Load unmarshal getenv configPath file of
        Inl e \<Rightarrow> None
      | Inr cfg \<Rightarrow>
          (case buildFacade server cfg of
             Inl e \<Rightarrow> None
           | Inr m \<Rightarrow> Some (runFacade m, start_webui configPath cfg)))"

end
