(* ===== verification/WebUIForm.thy ===== *)
theory WebUIForm
  imports WebUI
begin

section \<open>WebUI: the form as an update of fields\<close>

text \<open>
  What \<open>applyFormValues\<close> does, one field at a time: the order in which Go ranges over the posted form
  does not matter, and what has no field name is left alone.
\<close>

text \<open>The specification of a posted value: it is parsed by the type of the field, and ignored when it
  does not parse; an empty password or token is ignored too.\<close>

definition secret_keys :: "string set" where
  "secret_keys = {''mqtt.password'', ''webui.token''}"

lemma set_field_unknown: "f \<notin> set config_keys \<Longrightarrow> set_field f v c = c"
  by (simp add: config_keys_def set_field_def)

lemma cfield_unknown: "f \<notin> set config_keys \<Longrightarrow> cfield c f = None"
  using keys_field_table[of c] by (metis cfield_def map_of_eq_None_iff list.set_map)

lemma set_field_unlisted [simp]: "unlisted (set_field f v c) = unlisted c"
  by (simp add: set_field_def unlisted_def if_int_def split: option.split)

lemma map_of_map_key:
  "map_of (map (\<lambda>(k, x). (k, if k = f then g x else x)) xs) k =
     (if k = f then map_option g (map_of xs k) else map_of xs k)"
  by (induction xs) auto

definition posted_value :: "string \<Rightarrow> string \<Rightarrow> field_value \<Rightarrow> field_value" where
  "posted_value f v old =
     (case old of
        IntV n \<Rightarrow> (case Atoi v of Some k \<Rightarrow> IntV k | None \<Rightarrow> IntV n)
      | BoolV b \<Rightarrow> (case ParseBool v of Some k \<Rightarrow> BoolV k | None \<Rightarrow> BoolV b)
      | StrV s \<Rightarrow> (if f \<in> secret_keys \<and> v = '''' then StrV s else StrV v))"

lemma set_field_table:
  "field_table (set_field f v c) =
     map (\<lambda>(k, x). (k, if k = f then posted_value f v x else x)) (field_table c)"
proof (cases "f \<in> set config_keys")
  case False
  moreover from False have "\<forall>k \<in> fst ` set (field_table c). k \<noteq> f"
    using keys_field_table[of c] by (metis list.set_map)
  ultimately show ?thesis by (auto simp: set_field_unknown intro!: map_idI[symmetric])
next
  case True
  then show ?thesis
    unfolding config_keys_def list.set insert_iff empty_iff
    by (elim disjE; hypsubst?)
      (simp_all add: set_field_def field_table_def posted_value_def secret_keys_def if_int_def split: option.split)
qed

lemma set_field_cfield:
  "cfield (set_field f v c) k = (if k = f then map_option (posted_value f v) (cfield c k) else cfield c k)"
  by (simp add: cfield_def set_field_table map_of_map_key)

text \<open>What a posted form leaves in a field: the first value posted for it, if any.\<close>

definition form_field :: "(string \<times> string list) list \<Rightarrow> string \<Rightarrow> field_value option \<Rightarrow> field_value option" where
  "form_field form k old =
     (case map_of form k of Some (v # _) \<Rightarrow> map_option (posted_value k v) old | _ \<Rightarrow> old)"

lemma apply_cons:
  "applyFormValues ((f, vals) # form) c =
     applyFormValues form (case vals of [] \<Rightarrow> c | v # _ \<Rightarrow> set_field f v c)"
  by (simp add: applyFormValues_def)

lemma apply_unlisted [simp]: "unlisted (applyFormValues form c) = unlisted c"
proof (induction form arbitrary: c)
  case (Cons p form)
  then show ?case by (cases p; cases "snd p") (simp_all add: apply_cons)
qed (simp add: applyFormValues_def)

lemma apply_cfield:
  "distinct (map fst form) \<Longrightarrow> cfield (applyFormValues form c) k = form_field form k (cfield c k)"
proof (induction form arbitrary: c)
  case Nil
  then show ?case by (simp add: applyFormValues_def form_field_def)
next
  case (Cons p form)
  obtain f vals where p: "p = (f, vals)" by (cases p)
  have none: "f \<notin> dom (map_of form)" using Cons.prems by (simp add: p dom_map_of_conv_image_fst)
  then have "map_of form f = None" by auto
  then show ?case using Cons by (cases vals) (auto simp: p apply_cons form_field_def set_field_cfield split: option.split list.split)
qed

lemma form_field_perm:
  assumes "mset form' = mset form" "distinct (map fst form)"
  shows "form_field form' k old = form_field form k old"
proof -
  have "distinct (map fst form')" using assms by (metis mset_eq_imp_distinct_iff mset_map)
  then have "map_of form' = map_of form"
    using assms map_of_inject_set[of form' form] mset_eq_setD[OF assms(1)] by simp
  then show ?thesis by (simp add: form_field_def)
qed

lemma apply_perm:
  assumes "distinct (map fst form)" "mset form' = mset form"
  shows "applyFormValues form' c = applyFormValues form c"
proof (rule config_eqI)
  have "distinct (map fst form')" using assms by (metis mset_eq_imp_distinct_iff mset_map)
  then show "cfield (applyFormValues form' c) = cfield (applyFormValues form c)"
    by (simp add: fun_eq_iff apply_cfield assms(1) form_field_perm[OF assms(2,1)])
qed simp

text \<open>
  C30: a posted form sets each field it names to the first value posted for it, parsed by the type of
  the field and ignored when it does not parse, and leaves every other field, the MQTT topics, the
  solar threshold, the status flag and the energy section alone; and the order in which Go ranges over
  the form makes no difference.
\<close>

theorem form_applies_each_field:
  assumes "distinct (map fst form)" "mset form' = mset form"
  shows "cfield (applyFormValues form c) k = form_field form k (cfield c k) \<and>
    unlisted (applyFormValues form c) = unlisted c \<and>
    applyFormValues form' c = applyFormValues form c"
  by (simp add: apply_cfield[OF assms(1)] apply_perm[OF assms])

definition sample_form :: "(string \<times> string list) list" where
  "sample_form = [(''charging.max_amps'', [''24'', ''99'']), (''mqtt.password'', ['''']), (''unknown'', [''x''])]"

theorem form_applies_each_field_witness:
  "cfield (applyFormValues sample_form defaultConfig) ''charging.max_amps'' = Some (IntV 24) \<and>
   unlisted (applyFormValues sample_form defaultConfig) = unlisted defaultConfig \<and>
   applyFormValues (rev sample_form) defaultConfig = applyFormValues sample_form defaultConfig"
proof -
  have "distinct (map fst sample_form)" "mset (rev sample_form) = mset sample_form"
    by (simp_all add: sample_form_def)
  note props = form_applies_each_field[OF this, of defaultConfig "''charging.max_amps''"]
  have "Atoi ''24'' = Some 24" by code_simp
  then have "form_field sample_form ''charging.max_amps'' (cfield defaultConfig ''charging.max_amps'') = Some (IntV 24)"
    by (simp add: form_field_def sample_form_def posted_value_def cfield_def field_table_def defaultConfig_def)
  then show ?thesis using props by simp
qed

end
