(* ===== verification/WebUILaws.thy ===== *)
theory WebUILaws
  imports WebUIForm Lifecycle
begin

section \<open>WebUI: what the editor guarantees\<close>

text \<open>
  What a post can save and when, when a rebuild can happen, who is let in, and the agreement of the
  tables of change classes.
\<close>

subsection \<open>Posts\<close>

definition path_of :: "world \<Rightarrow> string" where "path_of w = wb_configPath (w_ui w)"

definition contents :: "world \<Rightarrow> string option" where "contents w = cur (w_disk w) (path_of w)"

text \<open>The names \<open>os.CreateTemp\<close> returns are new ones: they end in \<open>.tmp\<close> and random digits.\<close>

definition fresh_temp :: "outside \<Rightarrow> world \<Rightarrow> bool" where
  "fresh_temp ot w \<longleftrightarrow>
     (case os_CreateTemp (ot_os ot) of Inl _ \<Rightarrow> True | Inr tmp \<Rightarrow> tmp \<noteq> path_of w \<and> tmp \<noteq> bak_of (path_of w))"

lemma save_frame:
  "save ot c w = (e, w') \<Longrightarrow> w_ui w' = w_ui w \<and> w_app w' = w_app w"
  by (auto simp: save_def split: prod.splits)

lemma save_contents:
  assumes "save ot c w = (e, w')" "fresh_temp ot w"
  shows "case e of None \<Rightarrow> \<exists>data. ot_marshal ot c = Inr data \<and> contents w' = Some data
    | Some _ \<Rightarrow> contents w' = contents w"
proof -
  obtain d' where wa: "WriteAtomic (ot_marshal ot) (ot_os ot) (path_of w) c (w_disk w) = (e, d')"
    and w': "w' = w\<lparr>w_disk := d'\<rparr>"
    using assms(1) by (auto simp: save_def path_of_def split: prod.splits)
  show ?thesis
  proof (cases "ot_marshal ot c")
    case (Inl x)
    then show ?thesis using wa w'
      by (auto simp: WriteAtomic_def contents_def path_of_def split: option.splits)
  next
    case (Inr data)
    show ?thesis
    proof (cases "os_CreateTemp (ot_os ot)")
      case (Inl x)
      then show ?thesis using wa w' Inr
        by (auto simp: WriteAtomic_def contents_def path_of_def split: option.splits)
    next
      case (Inr tmp)
      then have "tmp \<noteq> path_of w" "tmp \<noteq> bak_of (path_of w)" using assms(2) by (simp_all add: fresh_temp_def)
      from save_atomic[OF \<open>ot_marshal ot c = Inr data\<close> Inr this wa] show ?thesis
        using w' \<open>ot_marshal ot c = Inr data\<close> by (auto simp: contents_def path_of_def save_state_def split: option.split)
    qed
  qed
qed

lemma contents_cong [simp]:
  "contents (w\<lparr>w_app := a\<rparr>) = contents w" "path_of (w\<lparr>w_app := a\<rparr>) = path_of w"
  by (simp_all add: contents_def path_of_def)

lemma fresh_temp_cong [simp]: "fresh_temp ot (w\<lparr>w_app := a\<rparr>) = fresh_temp ot w"
  by (simp add: fresh_temp_def split: sum.split)

lemma contents_confirm [simp]:
  "contents (w\<lparr>w_ui := (w_ui w)\<lparr>wb_confirm := x\<rparr>\<rparr>) = contents w"
  by (simp add: contents_def path_of_def)

text \<open>The candidate of a post, from the configuration in force.\<close>

definition candidate_of :: "request \<Rightarrow> config \<Rightarrow> config" where
  "candidate_of r current = applyFormValues (rq_form r) (cloneConfig current)"

text \<open>What the answer of a post that has saved says.\<close>

definition saved_answer :: "change_report \<Rightarrow> post_outcome \<Rightarrow> bool" where
  "saved_answer report res \<longleftrightarrow>
     (case res of
        Failed code e \<Rightarrow> chr_Class report = ApplyRebuild \<and> (\<exists>fe. e = RebuildFailed fe)
      | Blocked \<Rightarrow> chr_Class report = ApplyRebuild
      | Applied ar \<Rightarrow> ar_Action ar = (case chr_Class report of ApplyHot \<Rightarrow> ''hot_reload''
            | ApplyProcessRestart \<Rightarrow> ''process_restart'' | _ \<Rightarrow> ar_Action ar) \<and>
          ar_Action ar \<in> {''hot_reload'', ''rebuild'', ''process_restart''} \<and>
          ar_FieldsChanged ar = chr_Fields report \<and> \<not> ar_ActiveSession ar)"

lemma apply_candidate_saves:
  assumes "apply_candidate ot r current candidate w = (res, w')" "fresh_temp ot w"
    and "contents w' \<noteq> contents w"
  shows "(\<exists>data. ot_marshal ot candidate = Inr data \<and> contents w' = Some data) \<and>
    saved_answer (ClassifyChanges current candidate) res \<and> chr_Class (ClassifyChanges current candidate) \<noteq> ApplyNone"
proof -
  have saved: "\<exists>data. ot_marshal ot candidate = Inr data \<and> contents w2 = Some data"
    if "save ot candidate w1 = (None, w2)" "fresh_temp ot w1" for w1 w2
    using save_contents[OF that] by simp
  have not_saved: "contents w2 = contents w1"
    if "save ot candidate w1 = (Some e, w2)" "fresh_temp ot w1" for w1 w2 e
    using save_contents[OF that] by simp
  show ?thesis
    using assms unfolding apply_candidate_def Let_def
    by (auto simp: saved_answer_def empty_result_def dest!: saved not_saved
        split: option.splits if_splits prod.splits sum.splits apply_class.splits)
qed

text \<open>A post that has passed every check of \<open>handlePostConfig\<close>.\<close>

definition accepted :: "outside \<Rightarrow> request \<Rightarrow> world \<Rightarrow> config \<Rightarrow> bool" where
  "accepted ot r w current \<longleftrightarrow>
     rq_formError r = None \<and> load_config ot w = Inr current \<and>
     (\<exists>ec. effective ot w = Inr ec \<and> set (map fst (rq_form r)) \<inter> set (ef_OverriddenByEnv ec) = {}) \<and>
     validate (candidate_of r current) = None"

lemma post_cases:
  assumes "handlePostConfig ot r w = (res, w')"
  obtains code e where "res = Failed code e" "w' = w"
  | current where "accepted ot r w current" "apply_candidate ot r current (candidate_of r current) w = (res, w')"
  using assms
  by (auto simp: handlePostConfig_def accepted_def candidate_of_def Validate_def Let_def find_None_iff disjoint_iff
      split: option.splits sum.splits)


text \<open>The saved file has no energy section, whatever was in it.\<close>

lemma saved_config_drops_energy:
  "cf_Energy (candidate_of r current) =
     \<lparr>enc_GridEntityID = '''', enc_SolarEntityID = '''', enc_ConsumptionEntityID = '''', enc_Token = ''''\<rparr>"
proof -
  have "unlisted (candidate_of r current) = unlisted (cloneConfig current)"
    by (simp add: candidate_of_def)
  then show ?thesis by (simp add: unlisted_def cloneConfig_def)
qed

subsection \<open>Rebuilds\<close>

lemma candidate_keeps_confirm:
  "apply_candidate ot r current candidate w = (res, w') \<Longrightarrow>
     wb_confirm (w_ui w) \<noteq> None \<Longrightarrow> wb_confirm (w_ui w') \<noteq> None"
  unfolding apply_candidate_def Let_def
  by (auto dest!: save_frame split: option.splits if_splits prod.splits sum.splits)




subsection \<open>Hot reloads\<close>

text \<open>The part of a configuration that the running program follows.\<close>

definition in_force :: "config \<Rightarrow> csms \<Rightarrow> bool" where
  "in_force c m \<longleftrightarrow>
     (let g = cf_Charging c; calc = ctl_calc (ms_controller m) in
      ca_minAmps calc = chg_MinAmps g \<and> ca_maxAmps calc = chg_MaxAmps g \<and>
      getAmpBounds (ms_handler m) = (chg_MinAmps g, chg_MaxAmps g) \<and>
      ctl_safeAmps (ms_controller m) = wrap32 (chg_DefaultAmps g) \<and>
      co_contactorCooldown (ctl_commander (ms_controller m)) = seconds (chg_ContactorCooldownSec g) \<and>
      ms_levelVar m = parseLogLevel (srv_LogLevel (cf_Server c)))"

lemma UpdateCharging_in_force:
  assumes "UpdateCharging \<lparr>cp_MinAmps = chg_MinAmps g, cp_MaxAmps = chg_MaxAmps g,
      cp_ContactorCooldownSec = chg_ContactorCooldownSec g, cp_DefaultAmps = chg_DefaultAmps g\<rparr> m = (Inr (), m')"
    and "ms_levelVar m = parseLogLevel (srv_LogLevel (cf_Server c))" "cf_Charging c = g"
  shows "in_force c m'"
  using assms
  by (auto simp: UpdateCharging_def Let_def in_force_def SetLimits_def SetSafeAmps_def SetCooldown_def SetMinMax_def
      getAmpBounds_def split: if_splits)

lemma applyHot_in_force:
  assumes "applyHot old new m = (Inr (), m')" "in_force old m" shows "in_force new m'"
proof -
  define mid where "mid = new\<lparr>cf_Server := (cf_Server new)\<lparr>srv_LogLevel := srv_LogLevel (cf_Server old)\<rparr>\<rparr>"
  obtain m1 where m1: "in_force mid m1"
    and m': "if srv_LogLevel (cf_Server old) \<noteq> srv_LogLevel (cf_Server new)
      then SetLogLevel (srv_LogLevel (cf_Server new)) m1 = (True, m') else m' = m1"
  proof (cases "cf_Charging old = cf_Charging new")
    case True
    then have "in_force mid m" using assms(2) by (simp add: in_force_def mid_def)
    then show ?thesis
      using assms(1) True that[of m] by (auto simp: applyHot_def applier_SetLogLevel_def split: if_splits prod.splits bool.splits)
  next
    case False
    then obtain m1 where "UpdateCharging \<lparr>cp_MinAmps = chg_MinAmps (cf_Charging new), cp_MaxAmps = chg_MaxAmps (cf_Charging new),
        cp_ContactorCooldownSec = chg_ContactorCooldownSec (cf_Charging new), cp_DefaultAmps = chg_DefaultAmps (cf_Charging new)\<rparr> m
        = (Inr (), m1)"
      and *: "if srv_LogLevel (cf_Server old) \<noteq> srv_LogLevel (cf_Server new)
       then SetLogLevel (srv_LogLevel (cf_Server new)) m1 = (True, m') else m' = m1"
      using assms(1)
      by (auto simp: applyHot_def applier_SetLogLevel_def applier_UpdateCharging_def split: if_splits prod.splits bool.splits sum.splits)
    moreover have "ms_levelVar m = parseLogLevel (srv_LogLevel (cf_Server mid))"
      using assms(2) by (simp add: in_force_def Let_def mid_def)
    ultimately have "in_force mid m1"
      using UpdateCharging_in_force[of "cf_Charging new" m m1 mid] by (simp add: mid_def)
    then show ?thesis using that[of m1] * by blast
  qed
  then show ?thesis
    by (auto simp: in_force_def mid_def SetLogLevel_def Let_def split: if_splits)
qed



subsection \<open>Access\<close>

text \<open>The responses that show or change the configuration.\<close>

fun reveals :: "response \<Rightarrow> bool" where
  "reveals (ConfigPage _ _) = True"
| "reveals (ConfigJSON _) = True"
| "reveals (PostResult _ _) = True"
| "reveals _ = False"

lemma reveals_handlers [simp]:
  "\<not> reveals (handleStatus ot p u)" "\<not> reveals (handleStatusJSON ot p u)" "\<not> reveals (handleIndex ot p r u)"
  "\<not> reveals (handleLogin r u)"
  by (simp_all add: handleStatus_def handleStatusJSON_def handleIndex_def handleLogin_def)


text \<open>Without a token the configuration is served to everybody, and a configuration that turns on the
  status page alone is valid without one, on any address.\<close>

lemma status_only_is_open:
  "\<exists>cfg u. validate cfg = None \<and> \<not> web_Enabled (cf_WebUI cfg) \<and> start_webui path cfg = Some u \<and>
     \<not> wb_isLoopback u \<and> wb_statusOnly u \<and>
     (\<forall>ot provider r w. w_ui w = u \<longrightarrow> rq_path r = ''/api/config'' \<longrightarrow> rq_method r = POST \<longrightarrow>
        serve ot provider r w = (let (res, w') = handlePostConfig ot r w in (PostResult (rq_htmx r) res, w')))"
proof -
  let ?cfg = "on_webui (\<lambda>u. u\<lparr>web_Listen := ''0.0.0.0:8080'', web_Enabled := False, web_StatusEnabled := True, web_Token := ''''\<rparr>) defaultConfig"
  have "validate ?cfg = None" by code_simp
  moreover have "\<not> main_isLoopback ''0.0.0.0:8080''" by code_simp
  ultimately show ?thesis
    by (intro exI[of _ ?cfg]) (simp add: start_webui_def NewServer_def WithStatus_def WithStatusOnly_def
      SetEntityIDs_def serve_def authMiddleware_def api_config_def)
qed

subsection \<open>The tables of change classes\<close>

definition class_named :: "string \<Rightarrow> apply_class" where
  "class_named k =
     (case map_of applyClasses k of
        None \<Rightarrow> ApplyNone
      | Some s \<Rightarrow> if s = ''hot'' then ApplyHot else if s = ''rebuild'' then ApplyRebuild
                  else if s = ''process_restart'' then ApplyProcessRestart else ApplyNone)"

lemma max_class_step:
  "fold max (map f (filter P (x # xs))) (a :: apply_class) =
     fold max (map f (filter P xs)) (max a (if P x then f x else ApplyNone))"
  by (simp add: max.commute)

lemma class_named_keys:
  "map class_named class_keys =
     [ApplyRebuild, ApplyRebuild, ApplyHot, ApplyRebuild, ApplyRebuild, ApplyRebuild, ApplyRebuild, ApplyRebuild,
      ApplyRebuild, ApplyRebuild, ApplyRebuild, ApplyHot, ApplyHot, ApplyHot, ApplyHot, ApplyProcessRestart,
      ApplyProcessRestart, ApplyHot]"
  by code_simp

lemma differs_keys:
  "map (differs old new) class_keys =
     [srv_OCPPPort (cf_Server old) \<noteq> srv_OCPPPort (cf_Server new),
      srv_OCPPPath (cf_Server old) \<noteq> srv_OCPPPath (cf_Server new),
      srv_LogLevel (cf_Server old) \<noteq> srv_LogLevel (cf_Server new),
      srv_LogFormat (cf_Server old) \<noteq> srv_LogFormat (cf_Server new),
      mqc_Broker (cf_MQTT old) \<noteq> mqc_Broker (cf_MQTT new),
      mqc_ClientID (cf_MQTT old) \<noteq> mqc_ClientID (cf_MQTT new),
      mqc_Username (cf_MQTT old) \<noteq> mqc_Username (cf_MQTT new),
      mqc_Password (cf_MQTT old) \<noteq> mqc_Password (cf_MQTT new),
      mqc_BaseTopic (cf_MQTT old) \<noteq> mqc_BaseTopic (cf_MQTT new),
      \<not> mapsEqual (mqc_Topics (cf_MQTT old)) (mqc_Topics (cf_MQTT new)),
      mqc_DisconnectThresholdSec (cf_MQTT old) \<noteq> mqc_DisconnectThresholdSec (cf_MQTT new),
      chg_MinAmps (cf_Charging old) \<noteq> chg_MinAmps (cf_Charging new),
      chg_MaxAmps (cf_Charging old) \<noteq> chg_MaxAmps (cf_Charging new),
      chg_ContactorCooldownSec (cf_Charging old) \<noteq> chg_ContactorCooldownSec (cf_Charging new),
      chg_DefaultAmps (cf_Charging old) \<noteq> chg_DefaultAmps (cf_Charging new),
      web_Enabled (cf_WebUI old) \<noteq> web_Enabled (cf_WebUI new),
      web_Listen (cf_WebUI old) \<noteq> web_Listen (cf_WebUI new),
      web_Token (cf_WebUI old) \<noteq> web_Token (cf_WebUI new)]"
  by (simp add: class_keys_def differs_def cfield_def field_table_def)

lemma class_of_fields:
  "chr_Class (ClassifyChanges old new) =
     fold max (map class_named (filter (differs old new) class_keys)) ApplyNone"
proof -
  have names: "class_named ''server.ocpp_port'' = ApplyRebuild \<and> class_named ''server.ocpp_path'' = ApplyRebuild \<and>
      class_named ''server.log_level'' = ApplyHot \<and> class_named ''server.log_format'' = ApplyRebuild \<and>
      class_named ''mqtt.broker'' = ApplyRebuild \<and> class_named ''mqtt.client_id'' = ApplyRebuild \<and>
      class_named ''mqtt.username'' = ApplyRebuild \<and> class_named ''mqtt.password'' = ApplyRebuild \<and>
      class_named ''mqtt.base_topic'' = ApplyRebuild \<and> class_named ''mqtt.topics.*'' = ApplyRebuild \<and>
      class_named ''mqtt.disconnect_threshold_sec'' = ApplyRebuild \<and> class_named ''charging.min_amps'' = ApplyHot \<and>
      class_named ''charging.max_amps'' = ApplyHot \<and> class_named ''charging.contactor_cooldown_sec'' = ApplyHot \<and>
      class_named ''charging.default_amps'' = ApplyHot \<and> class_named ''webui.enabled'' = ApplyProcessRestart \<and>
      class_named ''webui.listen'' = ApplyProcessRestart \<and> class_named ''webui.token'' = ApplyHot"
    using class_named_keys by (simp add: class_keys_def)
  show ?thesis
    unfolding ClassifyChanges_def class_keys_def max_class_step Let_def report_if_append
    by (simp only: differs_keys[unfolded class_keys_def list.map list.inject] names change_report.simps
        list.map filter.simps fold.simps id_apply)
qed

text \<open>
  C36: the class of a change is the strongest class of the fields that differ, as the table of the
  form lists them; every field is in the table once, the change report names exactly the fields that
  differ, and the table of the JSON document and that of the form agree.
\<close>

theorem classes_agree:
  "chr_Fields (ClassifyChanges old new) = filter (differs old new) (map fst applyClasses) \<and>
   chr_Class (ClassifyChanges old new) = fold max (map class_named (chr_Fields (ClassifyChanges old new))) ApplyNone \<and>
   distinct (map fst applyClasses) \<and>
   map_of (dto_ApplyClasses (buildConfigDTO ec)) = map_of applyClasses"
proof -
  have keys: "map fst applyClasses = class_keys" by (simp add: applyClasses_def class_keys_def)
  have "distinct class_keys" "distinct (map fst dto_apply_classes)" by code_simp+
  moreover have "set dto_apply_classes = set applyClasses"
    by code_simp
  ultimately have "map_of dto_apply_classes = map_of applyClasses"
    using keys by (simp add: map_of_inject_set)
  then show ?thesis
    using keys \<open>distinct class_keys\<close> by (simp add: classify_fields class_of_fields buildConfigDTO_def)
qed

subsection \<open>A server to try the properties on\<close>

definition sample_os :: os where
  "sample_os = \<lparr>os_StatError = None, os_CreateTemp = Inr ''t'', os_WriteError = None, os_SyncError = None,
     os_CloseError = None, os_ReadError = None, os_BackupError = None, os_RenameError = None,
     os_RemoveError = None, os_Partial = None\<rparr>"

definition sample_outside :: outside where
  "sample_outside = \<lparr>ot_unmarshal = \<lambda>_. Inr, ot_marshal = \<lambda>_. Inr ''new'', ot_getenv = \<lambda>_. '''',
     ot_readError = None, ot_os = sample_os, ot_nonce = ''n'', ot_now = 0, ot_server = Inr ()\<rparr>"

definition sample_world :: "csms option \<Rightarrow> world" where
  "sample_world app = \<lparr>w_ui = NewServer ''config.yaml'' '':8080'' ''secret'' False,
     w_disk = [(\<lambda>_. None)(''config.yaml'' := Some ''old'')], w_app = app\<rparr>"

definition sample_post :: "(string \<times> string list) list \<Rightarrow> request" where
  "sample_post form = \<lparr>rq_method = POST, rq_path = ''/api/config'', rq_cookie = None, rq_formError = None,
     rq_form = form, rq_htmx = False, rq_html = False\<rparr>"







text \<open>The default system with a charger in a session.\<close>

definition busy_system :: csms where
  "busy_system = default_system\<lparr>ms_handler := (ms_handler default_system)\<lparr>
     hd_chargers := \<lparr>cr_chargers = [(''a'', \<lparr>ch_ID = ''a'', ch_Vendor = '''', ch_Model = '''', ch_FirmwareVersion = '''',
         ch_SerialNumber = '''', ch_Online = True\<rparr>)],
       cr_connectors = [''a'' \<mapsto> [\<lparr>cn_ChargerID = ''a'', cn_ConnectorID = 1, cn_Status = StatusCharging,
         cn_ErrorCode = '''', cn_Info = ''''\<rparr>]]\<rparr>,
     hd_sessions := [(''s'', \<lparr>se_ID = ''s'', se_TransactionID = 7, se_ChargerID = ''a'', se_ConnectorID = 1,
       se_IDTag = ''tag'', se_MeterStartWh = Fin 0, se_MeterStopWh = None, se_StartedAt = 0, se_StoppedAt = None,
       se_StopReason = ''''\<rparr>)]\<rparr>\<rparr>"

lemma busy: "snd (applier_HasActiveSession busy_system)"
  by (simp add: applier_HasActiveSession_def HasActiveSession_def has_active_def ListConnectors_def conns_of_def
      ListChargers_def busy_system_def GetActiveSession_def IsActive_def)


end
