(* ===== verification/Mqtt.thy ===== *)
theory Mqtt
  imports System
begin

section \<open>Mqtt: commands in, states and discovery out\<close>

text \<open>
  \<open>internal/adapter/inbound/mqtt/subscriber.go\<close> and \<open>internal/adapter/outbound/mqtt\<close>
  (\<open>publisher.go\<close>, \<open>discovery.go\<close>). A handler of the subscriber turns a message into a call of the
  command handler, the command events of \<open>System\<close>; a method of the publisher is the list of messages
  it hands to the client. The client library and the broker are outside: which filters match a topic
  and which subscriptions are accepted are parameters. A discovery payload is the record before it is
  turned into JSON.
\<close>

subsection \<open>Messages\<close>

record ha_device =
  dv_Identifiers :: "string list"
  dv_Manufacturer :: string
  dv_Model :: string
  dv_Name :: string
  dv_SWVersion :: string

record ha_base =
  ha_Name :: string
  ha_StateTopic :: string
  ha_UniqueID :: string
  ha_Device :: ha_device
  ha_AvailabilityTopic :: string
  ha_PayloadAvailable :: string
  ha_PayloadNotAvailable :: string

record ha_sensor = ha_base +
  hs_DeviceClass :: string
  hs_StateClass :: string
  hs_UnitOfMeasurement :: string
  hs_Icon :: string

record ha_number = ha_base +
  hn_CommandTopic :: string
  hn_Min :: rat
  hn_Max :: rat
  hn_Step :: rat
  hn_Mode :: string
  hn_UnitOfMeasurement :: string
  hn_DeviceClass :: string
  hn_EntityCategory :: string

record ha_switch = ha_base +
  hw_CommandTopic :: string
  hw_PayloadOn :: string
  hw_PayloadOff :: string
  hw_StateOn :: string
  hw_StateOff :: string
  hw_Icon :: string
  hw_EntityCategory :: string

record ha_binary_sensor = ha_base +
  hb_PayloadOn :: string
  hb_PayloadOff :: string
  hb_DeviceClass :: string

record ha_select = ha_base +
  hl_CommandTopic :: string
  hl_Options :: "string list"
  hl_Icon :: string
  hl_EntityCategory :: string

datatype ha_entity =
    Sensor ha_sensor
  | Number ha_number
  | Switch ha_switch
  | BinarySensor ha_binary_sensor
  | Select ha_select

datatype payload = Text string | EntityConfig ha_entity

record message =
  msg_topic :: string
  msg_payload :: payload
  msg_retained :: bool

subsection \<open>Numbers in payloads\<close>

text \<open>\<open>%.3f\<close> and \<open>FormatFloat(x, 'f', prec, 64)\<close>: the nearest decimal, ties to even.\<close>

definition round_half_even :: "rat \<Rightarrow> int" where
  "round_half_even x =
     (let n = \<lfloor>x\<rfloor>; r = x - of_int n in
      if r < 1 / 2 then n else if r > 1 / 2 then n + 1 else if even n then n else n + 1)"

definition pad0 :: "nat \<Rightarrow> string \<Rightarrow> string" where
  "pad0 k s = replicate (k - length s) (CHR ''0'') @ s"

fun format_fixed :: "nat \<Rightarrow> float64 \<Rightarrow> string" where
  "format_fixed prec (Fin x) =
     (let n = nat (round_half_even (\<bar>x\<bar> * 10 ^ prec))
      in (if x < 0 then ''-'' else '''') @ nat_str (n div 10 ^ prec) @
         (if prec = 0 then '''' else ''.'' @ pad0 prec (nat_str (n mod 10 ^ prec))))"
| "format_fixed prec PosInf = ''+Inf''"
| "format_fixed prec NegInf = ''-Inf''"
| "format_fixed prec NaN = ''NaN''"

subsection \<open>The publisher\<close>

record client_options =
  op_Broker :: string
  op_ClientID :: string
  op_Credentials :: "(string \<times> string) option"
  op_AutoReconnect :: bool
  op_CleanSession :: bool
  op_ConnectRetry :: bool
  op_ConnectRetryInterval :: duration

record publisher =
  pb_client :: client_options
  pb_baseTopic :: string
  pb_topics :: "(string \<times> string) list option"
  pb_broker :: string
  pb_hasOnReconnect :: bool
  pb_connected :: bool

definition options_of :: "string \<Rightarrow> string \<Rightarrow> string \<Rightarrow> string \<Rightarrow> client_options" where
  "options_of broker clientID username password =
     \<lparr>op_Broker = broker, op_ClientID = clientID,
      op_Credentials = (if username \<noteq> '''' then Some (username, password) else None),
      op_AutoReconnect = True, op_CleanSession = True, op_ConnectRetry = True,
      op_ConnectRetryInterval = 10 * second\<rparr>"

definition NewPublisher ::
  "string \<Rightarrow> string \<Rightarrow> string \<Rightarrow> string \<Rightarrow> string \<Rightarrow> (string \<times> string) list option \<Rightarrow> bool \<Rightarrow> string + publisher" where
  "NewPublisher broker clientID username password baseTopic topics loggerNil =
     (if loggerNil then Inl ''publisher: logger must not be nil''
      else Inr \<lparr>pb_client = options_of broker clientID username password, pb_baseTopic = baseTopic,
                pb_topics = topics, pb_broker = broker, pb_hasOnReconnect = False, pb_connected = False\<rparr>)"

text \<open>The client's two callbacks; the first also tells whether \<open>onReconnect\<close> is called.\<close>

definition on_connect :: "publisher \<Rightarrow> bool \<times> publisher" where
  "on_connect p = (pb_hasOnReconnect p, p\<lparr>pb_connected := True\<rparr>)"

definition on_connection_lost :: "publisher \<Rightarrow> publisher" where
  "on_connection_lost p = p\<lparr>pb_connected := False\<rparr>"

definition SetOnReconnect :: "publisher \<Rightarrow> publisher" where
  "SetOnReconnect p = p\<lparr>pb_hasOnReconnect := True\<rparr>"

definition pub_Status :: "publisher \<Rightarrow> bool \<times> string" where
  "pub_Status p = (pb_connected p, pb_broker p)"

definition publish_to :: "publisher \<Rightarrow> string \<Rightarrow> string \<Rightarrow> bool \<Rightarrow> message" where
  "publish_to p t text retained =
     \<lparr>msg_topic = pb_baseTopic p @ ''/'' @ t, msg_payload = Text text, msg_retained = retained\<rparr>"

definition charge_topic :: "charger_id \<Rightarrow> string \<Rightarrow> string" where
  "charge_topic k leaf = ''charge/'' @ k @ ''/'' @ leaf"

definition pub_ChargerStatus :: "publisher \<Rightarrow> charger_id \<Rightarrow> connector_status \<Rightarrow> message" where
  "pub_ChargerStatus p k status = publish_to p (charge_topic k ''status'') status False"

definition pub_ChargerPower :: "publisher \<Rightarrow> charger_id \<Rightarrow> float64 \<Rightarrow> message" where
  "pub_ChargerPower p k powerKW = publish_to p (charge_topic k ''power'') (format_fixed 3 powerKW) True"

definition pub_SessionEnergy :: "publisher \<Rightarrow> charger_id \<Rightarrow> float64 \<Rightarrow> message" where
  "pub_SessionEnergy p k energyKWh = publish_to p (charge_topic k ''energy'') (format_fixed 3 energyKWh) True"

definition pub_ChargingEnergy :: "publisher \<Rightarrow> charger_id \<Rightarrow> float64 \<Rightarrow> message" where
  "pub_ChargingEnergy p k energyKWh =
     publish_to p (charge_topic k ''charging_energy'') (format_fixed 3 energyKWh) False"

definition pub_ChargerOnline :: "publisher \<Rightarrow> charger_id \<Rightarrow> bool \<Rightarrow> message" where
  "pub_ChargerOnline p k onl =
     publish_to p (charge_topic k ''online'') (if onl then ''online'' else ''offline'') True"

definition pub_ChargerCurrent :: "publisher \<Rightarrow> charger_id \<Rightarrow> int \<Rightarrow> message" where
  "pub_ChargerCurrent p k amps = publish_to p (charge_topic k ''current'') (Itoa amps) True"

definition pub_ChargingState :: "publisher \<Rightarrow> charger_id \<Rightarrow> bool \<Rightarrow> message" where
  "pub_ChargingState p k charging =
     publish_to p (charge_topic k ''charging_state'') (if charging then ''1'' else ''0'') False"

definition pub_ProxyState :: "publisher \<Rightarrow> charger_id \<Rightarrow> bool \<Rightarrow> message" where
  "pub_ProxyState p k conn =
     publish_to p (charge_topic k ''proxy_connected'') (if conn then ''ON'' else ''OFF'') True"

definition pub_ChargerMode :: "publisher \<Rightarrow> charger_id \<Rightarrow> string \<Rightarrow> message" where
  "pub_ChargerMode p k mode = publish_to p (charge_topic k ''mode'') mode True"

definition pub_SmartChargingEnabled :: "publisher \<Rightarrow> bool \<Rightarrow> message" where
  "pub_SmartChargingEnabled p enabled =
     publish_to p ''smart_charging/state'' (if enabled then ''ON'' else ''OFF'') True"

definition pub_SolarThreshold :: "publisher \<Rightarrow> charger_id \<Rightarrow> int \<Rightarrow> message" where
  "pub_SolarThreshold p k watts = publish_to p (charge_topic k ''solar_threshold'') (Itoa watts) True"

definition pub_GridPower :: "publisher \<Rightarrow> float64 \<Rightarrow> message" where
  "pub_GridPower p watts =
     (let t = topic_of (pb_topics p) ''grid_power'';
          grid_topic = (if t \<noteq> '''' then t else ''grid/power'')
      in publish_to p grid_topic (format_fixed 0 watts) False)"

definition pub_SimSetAmps :: "publisher \<Rightarrow> charger_id \<Rightarrow> int \<Rightarrow> message" where
  "pub_SimSetAmps p k amps = publish_to p (charge_topic k ''command/set_amps'') (Itoa amps) False"

definition pub_SimSetState :: "publisher \<Rightarrow> charger_id \<Rightarrow> bool \<Rightarrow> message" where
  "pub_SimSetState p k charging =
     publish_to p (charge_topic k ''command/state'') (if charging then ''start'' else ''stop'') False"

subsection \<open>Home Assistant discovery\<close>

text \<open>The loop keeps the bytes of ASCII letters and digits and hyphens; of any other rune nothing is kept.\<close>

definition ReplaceAll1 :: "char \<Rightarrow> char \<Rightarrow> string \<Rightarrow> string" where
  "ReplaceAll1 c d s = map (\<lambda>x. if x = c then d else x) s"

definition kept_rune :: "char \<Rightarrow> bool" where
  "kept_rune r \<longleftrightarrow> CHR ''a'' \<le> r \<and> r \<le> CHR ''z'' \<or> CHR ''0'' \<le> r \<and> r \<le> CHR ''9'' \<or> r = CHR ''-''"

definition sanitizeID :: "string \<Rightarrow> string" where
  "sanitizeID s =
     (let s = ToLower s;
          s = ReplaceAll1 (CHR '' '') (CHR ''-'') s;
          s = ReplaceAll1 (CHR ''_'') (CHR ''-'') s;
          result = filter kept_rune s
      in if result = '''' then ''unknown'' else result)"

definition discoveryNodeID :: "charger_id \<Rightarrow> string" where
  "discoveryNodeID k = ''panya-charge-'' @ sanitizeID k"

definition strOrDefault :: "string \<Rightarrow> string \<Rightarrow> string" where
  "strOrDefault val def = (if val = '''' then def else val)"

definition device_of :: "charger \<Rightarrow> ha_device" where
  "device_of c =
     \<lparr>dv_Identifiers = [discoveryNodeID (ch_ID c)], dv_Manufacturer = strOrDefault (ch_Vendor c) ''Panya'',
      dv_Model = strOrDefault (ch_Model c) ''EV Charger'', dv_Name = ''Panya Charge '' @ ch_ID c,
      dv_SWVersion = ch_FirmwareVersion c\<rparr>"

text \<open>The fields every entity of a charger has in common.\<close>

definition base_of :: "string \<Rightarrow> string \<Rightarrow> string \<Rightarrow> ha_device \<Rightarrow> string \<Rightarrow> ha_base" where
  "base_of name state uniqueID device availTopic =
     \<lparr>ha_Name = name, ha_StateTopic = state, ha_UniqueID = uniqueID, ha_Device = device,
      ha_AvailabilityTopic = availTopic, ha_PayloadAvailable = ''online'', ha_PayloadNotAvailable = ''offline''\<rparr>"

definition sensor :: "ha_base \<Rightarrow> string \<Rightarrow> string \<Rightarrow> string \<Rightarrow> string \<Rightarrow> ha_entity" where
  "sensor b deviceClass stateClass uom icon =
     Sensor (ha_base.extend b \<lparr>hs_DeviceClass = deviceClass, hs_StateClass = stateClass,
       hs_UnitOfMeasurement = uom, hs_Icon = icon\<rparr>)"

definition discoveryTopic :: "string \<Rightarrow> string \<Rightarrow> string \<Rightarrow> string" where
  "discoveryTopic component nodeID objectID =
     ''homeassistant/'' @ component @ ''/'' @ nodeID @ ''/'' @ objectID @ ''/config''"

definition buildDiscoveryPayloads ::
  "charger \<Rightarrow> string \<Rightarrow> string \<Rightarrow> int \<Rightarrow> int \<Rightarrow> bool \<Rightarrow> (string \<times> ha_entity) list" where
  "buildDiscoveryPayloads c baseTopic gridTopic minAmps maxAmps proxyEnabled =
     (let nodeID = discoveryNodeID (ch_ID c);
          device = device_of c;
          topic = (\<lambda>leaf. baseTopic @ ''/charge/'' @ ch_ID c @ ''/'' @ leaf);
          at_topic = (\<lambda>component objectID. discoveryTopic component nodeID objectID);
          common = (\<lambda>name state uid. base_of name state (nodeID @ uid) device (topic ''online''))
      in
      [(at_topic ''sensor'' ''status'',
          sensor (common ''Status'' (topic ''status'') ''-status'') '''' '''' '''' ''mdi:ev-station''),
       (at_topic ''sensor'' ''power'',
          sensor (common ''Charging Power'' (topic ''power'') ''-power'') ''power'' ''measurement'' ''kW'' ''mdi:flash''),
       (at_topic ''sensor'' ''energy'',
          sensor (common ''Session Energy'' (topic ''energy'') ''-energy'')
            ''energy'' ''total_increasing'' ''kWh'' ''mdi:counter''),
       (at_topic ''sensor'' ''charging_energy'',
          sensor (common ''Charging Energy'' (topic ''charging_energy'') ''-charging-energy'')
            ''energy'' ''total_increasing'' ''kWh'' ''mdi:ev-station''),
       (at_topic ''sensor'' ''grid_power'',
          sensor (common ''Grid Power'' gridTopic ''-grid-power'')
            ''power'' ''measurement'' ''W'' ''mdi:transmission-tower''),
       (at_topic ''number'' ''current'',
          Number (ha_base.extend (common ''Charging Current'' (topic ''current'') ''-current'')
            \<lparr>hn_CommandTopic = topic ''command/set_amps'', hn_Min = of_int minAmps, hn_Max = of_int maxAmps,
             hn_Step = 1, hn_Mode = ''slider'', hn_UnitOfMeasurement = ''A'', hn_DeviceClass = ''current'',
             hn_EntityCategory = ''config''\<rparr>)),
       (at_topic ''switch'' ''charging'',
          Switch (ha_base.extend (common ''Charging'' (topic ''charging_state'') ''-charging'')
            \<lparr>hw_CommandTopic = topic ''command/state'', hw_PayloadOn = ''start'', hw_PayloadOff = ''stop'',
             hw_StateOn = ''1'', hw_StateOff = ''0'', hw_Icon = ''mdi:power-plug'', hw_EntityCategory = ''config''\<rparr>)),
       (at_topic ''select'' ''charging_mode'',
          Select (ha_base.extend (common ''Charging Mode'' (topic ''mode'') ''-charging-mode'')
            \<lparr>hl_CommandTopic = topic ''command/mode'', hl_Options = [''auto'', ''manual''], hl_Icon = ''mdi:cog'',
             hl_EntityCategory = ''config''\<rparr>)),
       (at_topic ''number'' ''solar_threshold'',
          Number (ha_base.extend (common ''Solar Threshold'' (topic ''solar_threshold'') ''-solar-threshold'')
            \<lparr>hn_CommandTopic = topic ''command/solar_threshold'', hn_Min = 0, hn_Max = 10000, hn_Step = 50,
             hn_Mode = ''slider'', hn_UnitOfMeasurement = ''W'', hn_DeviceClass = ''power'',
             hn_EntityCategory = ''config''\<rparr>))] @
      (if proxyEnabled then
         [(at_topic ''binary_sensor'' ''proxy_connected'',
            BinarySensor (ha_base.extend (common ''Proxy Connected'' (topic ''proxy_connected'') ''-proxy-connected'')
              \<lparr>hb_PayloadOn = ''ON'', hb_PayloadOff = ''OFF'', hb_DeviceClass = ''connectivity''\<rparr>))]
       else []))"

definition buildEnergySensorPayloads ::
  "ha_device \<Rightarrow> string \<Rightarrow> string \<Rightarrow> string \<Rightarrow> string \<Rightarrow> (string \<times> ha_entity) list" where
  "buildEnergySensorPayloads device nodeID availTopic solarTopic consumptionTopic =
     (let base = (\<lambda>name topic objectID icon.
            (discoveryTopic ''sensor'' nodeID objectID,
             sensor (base_of name topic (nodeID @ ''-'' @ objectID) device availTopic)
               ''power'' ''measurement'' ''W'' icon))
      in (if solarTopic \<noteq> '''' then [base ''Solar Power'' solarTopic ''solar_power'' ''mdi:solar-power''] else []) @
         (if consumptionTopic \<noteq> ''''
          then [base ''Home Consumption'' consumptionTopic ''consumption_power'' ''mdi:home-lightning-bolt''] else []))"

definition config_message :: "string \<times> ha_entity \<Rightarrow> message" where
  "config_message dp = \<lparr>msg_topic = fst dp, msg_payload = EntityConfig (snd dp), msg_retained = True\<rparr>"

definition pub_Discovery :: "publisher \<Rightarrow> charger \<Rightarrow> int \<Rightarrow> int \<Rightarrow> bool \<Rightarrow> message list" where
  "pub_Discovery p c minAmps maxAmps proxyEnabled =
     (let gridTopic = pb_baseTopic p @ ''/'' @ topic_of (pb_topics p) ''grid_power'';
          payloads = buildDiscoveryPayloads c (pb_baseTopic p) gridTopic minAmps maxAmps proxyEnabled;
          nodeID = discoveryNodeID (ch_ID c);
          availTopic = pb_baseTopic p @ ''/charge/'' @ ch_ID c @ ''/online'';
          device = device_of c;
          topic_at = (\<lambda>k. let t = topic_of (pb_topics p) k in if t \<noteq> '''' then pb_baseTopic p @ ''/'' @ t else '''');
          payloads = payloads @ buildEnergySensorPayloads device nodeID availTopic
            (topic_at ''solar_power'') (topic_at ''consumption_power'')
      in map config_message payloads @ [pub_ChargerMode p (ch_ID c) ''auto'', pub_SolarThreshold p (ch_ID c) 0])"

definition pub_GlobalDiscovery :: "publisher \<Rightarrow> message" where
  "pub_GlobalDiscovery p =
     (let nodeID = ''panya-charge'';
          stateTopic = pb_baseTopic p @ ''/smart_charging/state'';
          commandTopic = pb_baseTopic p @ ''/smart_charging/command'';
          device = \<lparr>dv_Identifiers = [nodeID], dv_Manufacturer = ''Panya'', dv_Model = ''CSMS'',
                    dv_Name = ''Panya Charge'', dv_SWVersion = ''''\<rparr>;
          base = \<lparr>ha_Name = ''Smart Charging'', ha_StateTopic = stateTopic, ha_UniqueID = nodeID @ ''-smart-charging'',
                  ha_Device = device, ha_AvailabilityTopic = '''', ha_PayloadAvailable = '''',
                  ha_PayloadNotAvailable = ''''\<rparr>
      in config_message (discoveryTopic ''switch'' nodeID ''smart_charging'',
           Switch (ha_base.extend base
             \<lparr>hw_CommandTopic = commandTopic, hw_PayloadOn = ''ON'', hw_PayloadOff = ''OFF'', hw_StateOn = ''ON'',
              hw_StateOff = ''OFF'', hw_Icon = ''mdi:solar-power'', hw_EntityCategory = ''''\<rparr>)))"

text \<open>What the calls on the publisher's ports send; the other effects go elsewhere.\<close>

fun effect_messages :: "publisher \<Rightarrow> effect \<Rightarrow> message list" where
  "effect_messages p (PublishChargerStatus k s) = [pub_ChargerStatus p k s]"
| "effect_messages p (PublishChargerPower k x) = [pub_ChargerPower p k x]"
| "effect_messages p (PublishSessionEnergy k x) = [pub_SessionEnergy p k x]"
| "effect_messages p (PublishChargingEnergy k x) = [pub_ChargingEnergy p k x]"
| "effect_messages p (PublishChargerOnline k b) = [pub_ChargerOnline p k b]"
| "effect_messages p (PublishChargerCurrent k n) = [pub_ChargerCurrent p k n]"
| "effect_messages p (PublishChargingState k b) = [pub_ChargingState p k b]"
| "effect_messages p (PublishProxyState k b) = [pub_ProxyState p k b]"
| "effect_messages p (PublishChargerMode k s) = [pub_ChargerMode p k s]"
| "effect_messages p (PublishSmartChargingEnabled b) = [pub_SmartChargingEnabled p b]"
| "effect_messages p (PublishSolarThreshold k n) = [pub_SolarThreshold p k n]"
| "effect_messages p (PublishDiscovery c lo hi proxy) = pub_Discovery p c lo hi proxy"
| "effect_messages p PublishGlobalDiscovery = [pub_GlobalDiscovery p]"
| "effect_messages p _ = []"

subsection \<open>The subscriber\<close>

record subscriber =
  sb_client :: client_options
  sb_baseTopic :: string
  sb_topics :: "(string \<times> string) list option"
  sb_hasHandler :: bool

definition NewSubscriber ::
  "string \<Rightarrow> string \<Rightarrow> string \<Rightarrow> string \<Rightarrow> string \<Rightarrow> (string \<times> string) list option \<Rightarrow> bool \<Rightarrow> bool \<Rightarrow> string + subscriber" where
  "NewSubscriber broker clientID username password baseTopic topics hasHandler loggerNil =
     (if loggerNil then Inl ''subscriber: logger must not be nil''
      else Inr \<lparr>sb_client = options_of broker (clientID @ ''-sub'') username password,
                sb_baseTopic = baseTopic, sb_topics = topics, sb_hasHandler = hasHandler\<rparr>)"

definition fullTopic :: "subscriber \<Rightarrow> string \<Rightarrow> string" where
  "fullTopic sb leaf = sb_baseTopic sb @ ''/'' @ leaf"

definition extractChargerID :: "string \<Rightarrow> string \<Rightarrow> charger_id" where
  "extractChargerID full baseTopic =
     (let pre = baseTopic @ ''/charge/'' in
      if \<not> HasPrefix full pre then ''''
      else case SplitN (CHR ''/'') 2 (drop (length pre) full) of [] \<Rightarrow> '''' | part # _ \<Rightarrow> part)"

definition call_handler :: "subscriber \<Rightarrow> sys_event \<Rightarrow> sys_event option" where
  "call_handler sb ev = (if sb_hasHandler sb then Some ev else None)"

definition is_on :: "string \<Rightarrow> bool" where
  "is_on s \<longleftrightarrow> s = ''1'' \<or> s = ''true'' \<or> s = ''ON''"

definition handleSetAmpsGlobal :: "subscriber \<Rightarrow> string \<Rightarrow> string \<Rightarrow> sys_event option" where
  "handleSetAmpsGlobal sb t text =
     (case Atoi text of None \<Rightarrow> None | Some amps \<Rightarrow> call_handler sb (SetAmpsCmd '''' amps))"

definition handleSetStateGlobal :: "subscriber \<Rightarrow> string \<Rightarrow> string \<Rightarrow> sys_event option" where
  "handleSetStateGlobal sb t text = call_handler sb (SetStateCmd '''' (is_on text \<or> text = ''start''))"

definition handleSmartChargingCommand :: "subscriber \<Rightarrow> string \<Rightarrow> string \<Rightarrow> sys_event option" where
  "handleSmartChargingCommand sb t text = call_handler sb (SetSmartChargingCmd (is_on text))"

definition handleSetAmpsPerCharger :: "subscriber \<Rightarrow> string \<Rightarrow> string \<Rightarrow> sys_event option" where
  "handleSetAmpsPerCharger sb t text =
     (let k = extractChargerID t (sb_baseTopic sb) in
      if k = '''' then None
      else case Atoi text of None \<Rightarrow> None | Some amps \<Rightarrow> call_handler sb (SetAmpsCmd k amps))"

definition handleSetStatePerCharger :: "subscriber \<Rightarrow> string \<Rightarrow> string \<Rightarrow> sys_event option" where
  "handleSetStatePerCharger sb t text =
     (let k = extractChargerID t (sb_baseTopic sb) in
      if k = '''' then None else call_handler sb (SetStateCmd k (is_on text \<or> text = ''start'')))"

definition handleModePerCharger :: "subscriber \<Rightarrow> string \<Rightarrow> string \<Rightarrow> sys_event option" where
  "handleModePerCharger sb t text =
     (let k = extractChargerID t (sb_baseTopic sb) in
      if k = '''' then None
      else if TrimSpace text = ''manual'' then call_handler sb (SetModeCmd k True)
      else if TrimSpace text = ''auto'' then call_handler sb (SetModeCmd k False)
      else None)"

definition handleSolarThresholdPerCharger :: "subscriber \<Rightarrow> string \<Rightarrow> string \<Rightarrow> sys_event option" where
  "handleSolarThresholdPerCharger sb t text =
     (let k = extractChargerID t (sb_baseTopic sb) in
      if k = '''' then None
      else case Atoi text of None \<Rightarrow> None | Some watts \<Rightarrow> call_handler sb (SetThresholdCmd k watts))"

type_synonym msg_handler = "string \<Rightarrow> string \<Rightarrow> sys_event option"

definition subscriptions :: "subscriber \<Rightarrow> (string \<times> msg_handler) list" where
  "subscriptions sb =
     [(fullTopic sb (topic_of (sb_topics sb) ''command_set_amps''), handleSetAmpsGlobal sb),
      (fullTopic sb (topic_of (sb_topics sb) ''command_state''), handleSetStateGlobal sb),
      (fullTopic sb (topic_of (sb_topics sb) ''smart_charging_command''), handleSmartChargingCommand sb),
      (sb_baseTopic sb @ ''/charge/+/command/set_amps'', handleSetAmpsPerCharger sb),
      (sb_baseTopic sb @ ''/charge/+/command/state'', handleSetStatePerCharger sb),
      (sb_baseTopic sb @ ''/charge/+/command/mode'', handleModePerCharger sb),
      (sb_baseTopic sb @ ''/charge/+/command/solar_threshold'', handleSolarThresholdPerCharger sb)]"

text \<open>The loop of \<open>subscribe\<close> stops at the first filter the broker refuses; \<open>refused\<close> is its answer.
  The result is what is subscribed and the error, which \<open>resubscribe\<close> drops.\<close>

fun subscribe :: "(string \<Rightarrow> string option) \<Rightarrow> (string \<times> msg_handler) list \<Rightarrow>
    (string \<times> msg_handler) list \<times> (string \<times> string) option" where
  "subscribe refused [] = ([], None)"
| "subscribe refused ((t, h) # subs) =
     (case refused t of
        Some e \<Rightarrow> ([], Some (t, e))
      | None \<Rightarrow> (let (done, e) = subscribe refused subs in ((t, h) # done, e)))"

definition resubscribe :: "(string \<Rightarrow> string option) \<Rightarrow> subscriber \<Rightarrow> (string \<times> msg_handler) list" where
  "resubscribe refused sb = fst (subscribe refused (subscriptions sb))"

text \<open>A message is handed to the handlers of the filters that match its topic.\<close>

definition received :: "(string \<Rightarrow> string \<Rightarrow> bool) \<Rightarrow> (string \<times> msg_handler) list \<Rightarrow> string \<Rightarrow> string \<Rightarrow> sys_event list" where
  "received matches subs t text = List.map_filter (\<lambda>(flt, h). if matches flt t then h t text else None) subs"

end
