(* ===== verification/MqttLaws.thy ===== *)
theory MqttLaws
  imports Mqtt
begin

section \<open>MqttLaws: what is announced is what is served\<close>

text \<open>
  The command topics and payloads announced to Home Assistant reach the command handler as commands
  for the charger they were announced for, and every state the publisher sends for a charger goes to
  a topic that was announced, in the vocabulary announced for it. Then the identifiers of discovery.
\<close>

subsection \<open>Topic levels\<close>

text \<open>The levels of a topic or filter, and how a filter without \<open>#\<close> matches (MQTT 3.1.1, section
  4.7): this is what the code relies on of the broker and of the client library.\<close>

fun levels :: "string \<Rightarrow> string list" where
  "levels [] = ['''']"
| "levels (c # s) =
     (if c = CHR ''/'' then '''' # levels s else case levels s of [] \<Rightarrow> [[c]] | l # ls \<Rightarrow> (c # l) # ls)"

definition filter_matches :: "string \<Rightarrow> string \<Rightarrow> bool" where
  "filter_matches flt t \<longleftrightarrow> list_all2 (\<lambda>a b. a = ''+'' \<or> a = b) (levels flt) (levels t)"

lemma levels_nonempty [simp]: "levels s \<noteq> []"
  by (induction s) (auto split: list.split)

lemma levels_append: "levels (s @ CHR ''/'' # t) = levels s @ levels t"
  by (induction s) (auto split: list.splits)

lemma levels_plain: "CHR ''/'' \<notin> set s \<Longrightarrow> levels s = [s]"
  by (induction s) auto

lemma matches_refl: "list_all2 (\<lambda>a b. a = ''+'' \<or> a = b) xs xs"
  by (simp add: list_all2_refl)

lemma plus_matches:
  assumes "CHR ''/'' \<notin> set k"
  shows "filter_matches (base @ ''/charge/+/'' @ leaf) (base @ ''/charge/'' @ k @ ''/'' @ leaf)"
  using levels_plain[OF assms]
  by (simp add: filter_matches_def levels_append list_all2_appendI matches_refl)

lemma other_leaf:
  assumes "CHR ''/'' \<notin> set k" "levels leaf \<noteq> levels leaf'" "''+'' \<notin> set (levels leaf)"
  shows "\<not> filter_matches (base @ ''/charge/+/'' @ leaf) (base @ ''/charge/'' @ k @ ''/'' @ leaf')"
proof
  assume "filter_matches (base @ ''/charge/+/'' @ leaf) (base @ ''/charge/'' @ k @ ''/'' @ leaf')"
  then have "list_all2 (\<lambda>a b. a = ''+'' \<or> a = b) (levels leaf) (levels leaf')"
    using levels_plain[OF assms(1)] by (simp add: filter_matches_def levels_append list_all2_append matches_refl)
  then have "list_all2 (=) (levels leaf) (levels leaf')"
    by (rule list.rel_mono_strong) (use assms(3) in auto)
  then have "levels leaf = levels leaf'" by (simp add: list.rel_eq)
  then show False using assms(2) by simp
qed

lemma extract_id:
  assumes "CHR ''/'' \<notin> set k"
  shows "extractChargerID (base @ ''/charge/'' @ k @ ''/'' @ leaf) base = k"
proof -
  have "takeWhile (\<lambda>x. x \<noteq> CHR ''/'') (k @ CHR ''/'' # leaf) = k"
    by (subst takeWhile_append2) (use assms in auto)
  then show ?thesis by (simp add: extractChargerID_def HasPrefix_def numeral_2_eq_2)
qed

subsection \<open>Commands\<close>

definition charger_filter :: "string \<Rightarrow> string \<Rightarrow> string" where
  "charger_filter base leaf = base @ ''/charge/+/'' @ leaf"

definition charger_path :: "string \<Rightarrow> charger_id \<Rightarrow> string \<Rightarrow> string" where
  "charger_path base k leaf = base @ ''/charge/'' @ k @ ''/'' @ leaf"

definition command_leaves :: "string list" where
  "command_leaves = [''command/set_amps'', ''command/state'', ''command/mode'', ''command/solar_threshold'']"

definition leaf_handlers :: "subscriber \<Rightarrow> (string \<times> msg_handler) list" where
  "leaf_handlers sb = zip command_leaves [handleSetAmpsPerCharger sb, handleSetStatePerCharger sb,
     handleModePerCharger sb, handleSolarThresholdPerCharger sb]"

definition global_keys :: "string set" where
  "global_keys = {''command_set_amps'', ''command_state'', ''smart_charging_command''}"

text \<open>The filters of the commands for all chargers, which are configurable, take none of the topics.\<close>

definition globals_apart :: "(string \<Rightarrow> string \<Rightarrow> bool) \<Rightarrow> subscriber \<Rightarrow> charger_id \<Rightarrow> bool" where
  "globals_apart matches sb k \<longleftrightarrow>
     (\<forall>key \<in> global_keys. \<forall>leaf \<in> set command_leaves.
        \<not> matches (fullTopic sb (topic_of (sb_topics sb) key)) (charger_path (sb_baseTopic sb) k leaf))"

lemma command_leaf_match:
  assumes "CHR ''/'' \<notin> set k" "leaf \<in> set command_leaves" "leaf' \<in> set command_leaves"
  shows "filter_matches (charger_filter base leaf) (charger_path base k leaf') \<longleftrightarrow> leaf = leaf'"
proof (cases "leaf = leaf'")
  case True
  then show ?thesis using plus_matches[OF assms(1)] True by (simp only: charger_filter_def charger_path_def simp_thms)
next
  case False
  have "list_all (\<lambda>l. ''+'' \<notin> set (levels l) \<and> list_all (\<lambda>l'. l = l' \<or> levels l \<noteq> levels l') command_leaves) command_leaves"
    by code_simp
  then have "''+'' \<notin> set (levels leaf)" "levels leaf \<noteq> levels leaf'"
    using assms(2,3) False by (auto simp: list_all_iff)
  then show ?thesis
    using other_leaf[OF assms(1)] False by (simp only: charger_filter_def charger_path_def simp_thms)
qed

lemma subscriptions_split:
  "subscriptions sb =
     [(fullTopic sb (topic_of (sb_topics sb) ''command_set_amps''), handleSetAmpsGlobal sb),
      (fullTopic sb (topic_of (sb_topics sb) ''command_state''), handleSetStateGlobal sb),
      (fullTopic sb (topic_of (sb_topics sb) ''smart_charging_command''), handleSmartChargingCommand sb)] @
     map (map_prod (charger_filter (sb_baseTopic sb)) id) (leaf_handlers sb)"
  by (simp add: subscriptions_def leaf_handlers_def command_leaves_def charger_filter_def)

lemma received_append: "received m (xs @ ys) t text = received m xs t text @ received m ys t text"
  by (simp add: received_def List.map_filter_def)

lemma map_filter_unique:
  assumes "distinct (map fst xs)" "(l, h) \<in> set xs"
  shows "List.map_filter (\<lambda>(l', h). if l' = l then f h else None) xs =
    (case f h of None \<Rightarrow> [] | Some ev \<Rightarrow> [ev])"
proof -
  have none: "List.map_filter (\<lambda>(l', h). if l' = l then f h else None) ys = []" if "l \<notin> fst ` set ys" for ys
    using that by (induction ys) (auto simp: List.map_filter_simps)
  show ?thesis
    using assms by (induction xs) (force simp: List.map_filter_simps none split: option.split)+
qed

lemma received_leaf:
  assumes "CHR ''/'' \<notin> set k" "globals_apart filter_matches sb k" "(leaf, h) \<in> set (leaf_handlers sb)"
  shows "received filter_matches (subscriptions sb) (charger_path (sb_baseTopic sb) k leaf) text =
    (case h (charger_path (sb_baseTopic sb) k leaf) text of None \<Rightarrow> [] | Some ev \<Rightarrow> [ev])"
proof -
  let ?t = "charger_path (sb_baseTopic sb) k leaf"
  have leaf: "leaf \<in> set command_leaves" using assms(3) by (auto simp: leaf_handlers_def dest: set_zip_leftD)
  then have glob: "\<not> filter_matches (fullTopic sb (topic_of (sb_topics sb) key)) ?t" if "key \<in> global_keys" for key
    using assms(2) that unfolding globals_apart_def by blast
  have m: "filter_matches (charger_filter (sb_baseTopic sb) l) ?t \<longleftrightarrow> l = leaf" if "l \<in> set command_leaves" for l
    using assms(1) that leaf by (rule command_leaf_match)
  have "received filter_matches (map (map_prod (charger_filter (sb_baseTopic sb)) id) (leaf_handlers sb)) ?t text =
      List.map_filter (\<lambda>(l, h). if l = leaf then h ?t text else None) (leaf_handlers sb)"
    unfolding received_def List.map_filter_def leaf_handlers_def
    using m by (auto simp: command_leaves_def)
  also have "\<dots> = (case h ?t text of None \<Rightarrow> [] | Some ev \<Rightarrow> [ev])"
    using assms(3) by (intro map_filter_unique) (simp_all add: leaf_handlers_def command_leaves_def)
  finally show ?thesis
    using glob by (simp add: subscriptions_split received_append global_keys_def)
      (simp add: received_def List.map_filter_simps)
qed

text \<open>What each entity of a charger stands for, as the events its commands must cause and no others.\<close>

fun serves :: "(string \<Rightarrow> string \<Rightarrow> sys_event list) \<Rightarrow> charger_id \<Rightarrow> ha_entity \<Rightarrow> bool" where
  "serves recv k (Number n) \<longleftrightarrow>
     (\<forall>v. int64_ok v \<longrightarrow> recv (hn_CommandTopic n) (Itoa v) =
        [(if hn_DeviceClass n = ''current'' then SetAmpsCmd else SetThresholdCmd) k v])"
| "serves recv k (Switch w) \<longleftrightarrow>
     recv (hw_CommandTopic w) (hw_PayloadOn w) = [SetStateCmd k True] \<and>
     recv (hw_CommandTopic w) (hw_PayloadOff w) = [SetStateCmd k False]"
| "serves recv k (Select l) \<longleftrightarrow>
     hl_Options l = [''auto'', ''manual''] \<and>
     recv (hl_CommandTopic l) ''auto'' = [SetModeCmd k False] \<and>
     recv (hl_CommandTopic l) ''manual'' = [SetModeCmd k True]"
| "serves recv k (Sensor s) \<longleftrightarrow> True"
| "serves recv k (BinarySensor b) \<longleftrightarrow> True"

lemma subscribe_all: "subscribe (\<lambda>_. None) subs = (subs, None)"
  by (induction subs) auto

lemma received_cong:
  assumes "\<And>flt t. CHR ''#'' \<notin> set flt \<Longrightarrow> matches flt t = filter_matches flt t"
    and "\<forall>(flt, h) \<in> set subs. CHR ''#'' \<notin> set flt"
  shows "received matches subs t text = received filter_matches subs t text"
  using assms(2) by (induction subs) (auto simp: received_def List.map_filter_simps assms(1) split: option.split)

lemma charger_topics:
  "base @ ''/charge/'' @ k @ ''/'' @ leaf = charger_path base k leaf"
  by (simp add: charger_path_def)

lemma extract_path [simp]: "CHR ''/'' \<notin> set k \<Longrightarrow> extractChargerID (charger_path base k leaf) base = k"
  unfolding charger_path_def by (rule extract_id)

text \<open>
  C15: the commands announced to Home Assistant are the commands served. For a charger whose id is a
  level of a topic, when the configurable filters stay apart: each number, switch and select that
  discovery announces has a command topic on which exactly the announced payloads cause the command
  for that charger, and nothing else.
\<close>

theorem announced_commands_served:
  assumes "\<And>flt t. CHR ''#'' \<notin> set flt \<Longrightarrow> matches flt t = filter_matches flt t"
    and "\<forall>(flt, h) \<in> set (subscriptions sb). CHR ''#'' \<notin> set flt"
    and "sb_hasHandler sb" "ch_ID c \<noteq> ''''" "CHR ''/'' \<notin> set (ch_ID c)"
    and "globals_apart filter_matches sb (ch_ID c)"
    and "(t, e) \<in> set (buildDiscoveryPayloads c (sb_baseTopic sb) grid lo hi proxy)"
  shows "serves (received matches (resubscribe (\<lambda>_. None) sb)) (ch_ID c) e"
proof -
  let ?recv = "received matches (resubscribe (\<lambda>_. None) sb)"
  let ?path = "charger_path (sb_baseTopic sb) (ch_ID c)"
  have recv: "?recv t s = received filter_matches (subscriptions sb) t s" for t s
    unfolding resubscribe_def subscribe_all fst_conv using assms(1,2) by (rule received_cong)
  have leaf: "?recv (?path l) s = (case h (?path l) s of None \<Rightarrow> [] | Some ev \<Rightarrow> [ev])"
    if "(l, h) \<in> set (leaf_handlers sb)" for l h s
    unfolding recv using assms(5,6) that by (rule received_leaf)
  have amps: "?recv (?path ''command/set_amps'') (Itoa v) = [SetAmpsCmd (ch_ID c) v]"
      "?recv (?path ''command/solar_threshold'') (Itoa v) = [SetThresholdCmd (ch_ID c) v]" if "int64_ok v" for v
    using that assms(3-5) leaf[of "''command/set_amps''" "handleSetAmpsPerCharger sb" "Itoa v"]
      leaf[of "''command/solar_threshold''" "handleSolarThresholdPerCharger sb" "Itoa v"]
    by (simp_all add: leaf_handlers_def command_leaves_def handleSetAmpsPerCharger_def
        handleSolarThresholdPerCharger_def Atoi_Itoa call_handler_def)
  have state: "?recv (?path ''command/state'') s = [SetStateCmd (ch_ID c) (is_on s \<or> s = ''start'')]" for s
    using assms(3-5) leaf[of "''command/state''" "handleSetStatePerCharger sb" s]
    by (simp add: leaf_handlers_def command_leaves_def handleSetStatePerCharger_def call_handler_def)
  have "TrimSpace ''manual'' = ''manual''" "TrimSpace ''auto'' = ''auto''" by code_simp+
  then have mode: "?recv (?path ''command/mode'') ''auto'' = [SetModeCmd (ch_ID c) False]"
      "?recv (?path ''command/mode'') ''manual'' = [SetModeCmd (ch_ID c) True]"
    using assms(3-5) leaf[of "''command/mode''" "handleModePerCharger sb"]
    by (simp_all add: leaf_handlers_def command_leaves_def handleModePerCharger_def call_handler_def)
  show ?thesis
    using assms(7) amps state mode
    unfolding buildDiscoveryPayloads_def Let_def charger_topics
    by (auto simp: ha_base.defs base_of_def sensor_def is_on_def split: if_splits)
qed

definition sample_subscriber :: subscriber where
  "sample_subscriber = projr (NewSubscriber ''tcp://b'' ''c'' '''' '''' ''panya'' (mqc_Topics (cf_MQTT defaultConfig)) True False)"

definition sample_charger :: charger where
  "sample_charger = \<lparr>ch_ID = ''CP+1'', ch_Vendor = '''', ch_Model = '''', ch_FirmwareVersion = '''',
     ch_SerialNumber = '''', ch_Online = True\<rparr>"

theorem announced_commands_served_witness:
  "serves (received filter_matches (resubscribe (\<lambda>_. None) sample_subscriber)) ''CP+1''
     (snd (buildDiscoveryPayloads sample_charger ''panya'' ''panya/grid/power'' 6 32 True ! 6))"
proof -
  have "\<forall>(flt, h) \<in> set (subscriptions sample_subscriber). CHR ''#'' \<notin> set flt" by code_simp
  moreover have "globals_apart filter_matches sample_subscriber (ch_ID sample_charger)" by code_simp
  moreover have "sb_hasHandler sample_subscriber" "sb_baseTopic sample_subscriber = ''panya''"
    "ch_ID sample_charger = ''CP+1''" by code_simp+
  moreover have "(fst (buildDiscoveryPayloads sample_charger ''panya'' ''panya/grid/power'' 6 32 True ! 6),
       snd (buildDiscoveryPayloads sample_charger ''panya'' ''panya/grid/power'' 6 32 True ! 6))
     \<in> set (buildDiscoveryPayloads sample_charger ''panya'' ''panya/grid/power'' 6 32 True)"
    unfolding prod.collapse by (rule nth_mem) (simp add: buildDiscoveryPayloads_def Let_def)
  ultimately show ?thesis
    using announced_commands_served[of filter_matches sample_subscriber sample_charger
        "fst (buildDiscoveryPayloads sample_charger ''panya'' ''panya/grid/power'' 6 32 True ! 6)"
        "snd (buildDiscoveryPayloads sample_charger ''panya'' ''panya/grid/power'' 6 32 True ! 6)"
        "''panya/grid/power''" 6 32 True] by simp
qed

subsection \<open>States\<close>

fun entity_base :: "ha_entity \<Rightarrow> ha_base" where
  "entity_base (Sensor s) = ha_base.truncate s"
| "entity_base (Number n) = ha_base.truncate n"
| "entity_base (Switch w) = ha_base.truncate w"
| "entity_base (BinarySensor b) = ha_base.truncate b"
| "entity_base (Select l) = ha_base.truncate l"

text \<open>The charger whose state a call on the publisher's port reports.\<close>

fun state_of :: "effect \<Rightarrow> charger_id option" where
  "state_of (PublishChargerStatus k _) = Some k"
| "state_of (PublishChargerPower k _) = Some k"
| "state_of (PublishSessionEnergy k _) = Some k"
| "state_of (PublishChargingEnergy k _) = Some k"
| "state_of (PublishChargerCurrent k _) = Some k"
| "state_of (PublishChargingState k _) = Some k"
| "state_of (PublishProxyState k _) = Some k"
| "state_of (PublishChargerMode k _) = Some k"
| "state_of (PublishSolarThreshold k _) = Some k"
| "state_of _ = None"

text \<open>How an entity reads the payload of such a call.\<close>

definition reads_as :: "ha_entity \<Rightarrow> effect \<Rightarrow> string \<Rightarrow> bool" where
  "reads_as e eff s \<longleftrightarrow>
     (case e of
        Switch w \<Rightarrow> (case eff of
          PublishChargingState k b \<Rightarrow> s = (if b then hw_StateOn w else hw_StateOff w) \<and> hw_StateOn w \<noteq> hw_StateOff w
        | _ \<Rightarrow> False)
      | BinarySensor x \<Rightarrow> (case eff of
          PublishProxyState k b \<Rightarrow> s = (if b then hb_PayloadOn x else hb_PayloadOff x) \<and> hb_PayloadOn x \<noteq> hb_PayloadOff x
        | _ \<Rightarrow> False)
      | Select l \<Rightarrow> (case eff of PublishChargerMode k mode \<Rightarrow> s = mode \<and> mode \<in> set (hl_Options l) | _ \<Rightarrow> False)
      | Number n \<Rightarrow> (case eff of
          PublishChargerCurrent k v \<Rightarrow> s = Itoa v \<and> hn_UnitOfMeasurement n = ''A''
        | PublishSolarThreshold k v \<Rightarrow> s = Itoa v \<and> hn_UnitOfMeasurement n = ''W''
        | _ \<Rightarrow> False)
      | Sensor x \<Rightarrow> (case eff of
          PublishChargerStatus k st \<Rightarrow> s = st \<and> hs_UnitOfMeasurement x = ''''
        | PublishChargerPower k v \<Rightarrow> s = format_fixed 3 v \<and> hs_UnitOfMeasurement x = ''kW''
        | PublishSessionEnergy k v \<Rightarrow> s = format_fixed 3 v \<and> hs_UnitOfMeasurement x = ''kWh''
        | PublishChargingEnergy k v \<Rightarrow> s = format_fixed 3 v \<and> hs_UnitOfMeasurement x = ''kWh''
        | _ \<Rightarrow> False))"

definition announced_for :: "(string \<times> ha_entity) list \<Rightarrow> effect \<Rightarrow> message \<Rightarrow> bool" where
  "announced_for ds eff m \<longleftrightarrow>
     (\<exists>(t, e) \<in> set ds. ha_StateTopic (entity_base e) = msg_topic m \<and> (\<exists>s. msg_payload m = Text s \<and> reads_as e eff s))"

text \<open>What is read of an entity, without the records written out.\<close>

lemma entity_fields:
  "ha_StateTopic (entity_base (sensor (base_of n s u d a) k l v w)) = s"
  "ha_AvailabilityTopic (entity_base (sensor (base_of n s u d a) k l v w)) = a"
  "ha_PayloadAvailable (entity_base (sensor (base_of n s u d a) k l v w)) = ''online''"
  "ha_PayloadNotAvailable (entity_base (sensor (base_of n s u d a) k l v w)) = ''offline''"
  by (simp_all add: sensor_def base_of_def ha_base.defs)

lemma extended_fields:
  "ha_StateTopic (ha_base.truncate (ha_base.extend (base_of n s u d a) x)) = s"
  "ha_AvailabilityTopic (ha_base.truncate (ha_base.extend (base_of n s u d a) x)) = a"
  "ha_PayloadAvailable (ha_base.truncate (ha_base.extend (base_of n s u d a) x)) = ''online''"
  "ha_PayloadNotAvailable (ha_base.truncate (ha_base.extend (base_of n s u d a) x)) = ''offline''"
  by (simp_all add: base_of_def ha_base.defs)

lemma read_fields:
  "hn_UnitOfMeasurement (ha_base.extend b \<lparr>hn_CommandTopic = c1, hn_Min = c2, hn_Max = c3, hn_Step = c4, hn_Mode = c5,
     hn_UnitOfMeasurement = u, hn_DeviceClass = c6, hn_EntityCategory = c7\<rparr>) = u"
  "hw_StateOn (ha_base.extend b \<lparr>hw_CommandTopic = c1, hw_PayloadOn = c8, hw_PayloadOff = c9, hw_StateOn = on,
     hw_StateOff = off, hw_Icon = c10, hw_EntityCategory = c11\<rparr>) = on"
  "hw_StateOff (ha_base.extend b \<lparr>hw_CommandTopic = c1, hw_PayloadOn = c8, hw_PayloadOff = c9, hw_StateOn = on,
     hw_StateOff = off, hw_Icon = c10, hw_EntityCategory = c11\<rparr>) = off"
  "hb_PayloadOn (ha_base.extend b \<lparr>hb_PayloadOn = on, hb_PayloadOff = off, hb_DeviceClass = c12\<rparr>) = on"
  "hb_PayloadOff (ha_base.extend b \<lparr>hb_PayloadOn = on, hb_PayloadOff = off, hb_DeviceClass = c12\<rparr>) = off"
  "hl_Options (ha_base.extend b \<lparr>hl_CommandTopic = c1, hl_Options = opts, hl_Icon = c10, hl_EntityCategory = c11\<rparr>) = opts"
  by (simp_all add: ha_base.defs)

lemma reads_as_sensor:
  "reads_as (sensor b k l v w) (PublishChargerStatus i st) s \<longleftrightarrow> s = st \<and> v = ''''"
  "reads_as (sensor b k l v w) (PublishChargerPower i x) s \<longleftrightarrow> s = format_fixed 3 x \<and> v = ''kW''"
  "reads_as (sensor b k l v w) (PublishSessionEnergy i x) s \<longleftrightarrow> s = format_fixed 3 x \<and> v = ''kWh''"
  "reads_as (sensor b k l v w) (PublishChargingEnergy i x) s \<longleftrightarrow> s = format_fixed 3 x \<and> v = ''kWh''"
  by (simp_all add: reads_as_def sensor_def ha_base.defs)

lemma announced_nth:
  assumes "map (\<lambda>d. ha_StateTopic (entity_base (snd d))) ds = ts" "msg_payload m = Text s" "i < length ts"
    "ts ! i = msg_topic m" "reads_as (snd (ds ! i)) eff s"
  shows "announced_for ds eff m"
proof -
  have "i < length ds" "ha_StateTopic (entity_base (snd (ds ! i))) = msg_topic m" using assms(3,4) by (auto simp: assms(1)[symmetric])
  then show ?thesis using assms(2,5) nth_mem[of i ds] by (auto simp: announced_for_def split_beta intro!: bexI[of _ "ds ! i"])
qed

text \<open>
  C25: every state of a charger is published where discovery announced it: the message of each state
  call goes to the state topic of an announced entity that reads its payload as that state, and every
  announced entity reads the online message as its availability.
\<close>

theorem published_states_announced:
  assumes "state_of eff = Some (ch_ID c)"
    and "\<forall>mode. eff = PublishChargerMode (ch_ID c) mode \<longrightarrow> mode \<in> {''auto'', ''manual''}"
  shows "(\<forall>m \<in> set (effect_messages p eff).
      announced_for (buildDiscoveryPayloads c (pb_baseTopic p) grid lo hi True) eff m) \<and>
    (\<forall>(t, e) \<in> set (buildDiscoveryPayloads c (pb_baseTopic p) grid lo hi True). \<forall>b.
      effect_messages p (PublishChargerOnline (ch_ID c) b) =
        [\<lparr>msg_topic = ha_AvailabilityTopic (entity_base e),
          msg_payload = Text (if b then ha_PayloadAvailable (entity_base e) else ha_PayloadNotAvailable (entity_base e)),
          msg_retained = True\<rparr>])"
proof
  show "\<forall>m \<in> set (effect_messages p eff).
      announced_for (buildDiscoveryPayloads c (pb_baseTopic p) grid lo hi True) eff m"
  proof
    let ?ds = "buildDiscoveryPayloads c (pb_baseTopic p) grid lo hi True"
    let ?i = "case eff of PublishChargerStatus k st \<Rightarrow> 0 | PublishChargerPower k w \<Rightarrow> 1 | PublishSessionEnergy k e \<Rightarrow> 2
      | PublishChargingEnergy k e \<Rightarrow> 3 | PublishChargerCurrent k a \<Rightarrow> 5 | PublishChargingState k b \<Rightarrow> 6
      | PublishChargerMode k mode \<Rightarrow> 7 | PublishSolarThreshold k w \<Rightarrow> 8 | _ \<Rightarrow> (9 :: nat)"
    let ?t = "\<lambda>leaf. pb_baseTopic p @ ''/charge/'' @ ch_ID c @ ''/'' @ leaf"
    have topics: "map (\<lambda>d. ha_StateTopic (entity_base (snd d))) ?ds =
        [?t ''status'', ?t ''power'', ?t ''energy'', ?t ''charging_energy'', grid, ?t ''current'', ?t ''charging_state'',
         ?t ''mode'', ?t ''solar_threshold'', ?t ''proxy_connected'']"
      by (simp add: buildDiscoveryPayloads_def Let_def entity_fields extended_fields)
    fix m assume "m \<in> set (effect_messages p eff)"
    then show "announced_for ?ds eff m"
      using assms
      by (cases eff; rule_tac i = ?i in announced_nth[OF topics])
        (simp_all add: buildDiscoveryPayloads_def Let_def read_fields reads_as_sensor
          reads_as_def[of "Number _"] reads_as_def[of "Switch _"] reads_as_def[of "BinarySensor _"] reads_as_def[of "Select _"]
          publish_to_def charge_topic_def pub_ChargerStatus_def pub_ChargerPower_def pub_SessionEnergy_def
          pub_ChargingEnergy_def pub_ChargerCurrent_def pub_ChargingState_def pub_ProxyState_def pub_ChargerMode_def
          pub_SolarThreshold_def)
  qed
qed (unfold buildDiscoveryPayloads_def Let_def, simp add: entity_fields extended_fields pub_ChargerOnline_def
      publish_to_def charge_topic_def)

theorem published_states_announced_witness:
  "announced_for (buildDiscoveryPayloads sample_charger ''panya'' ''panya/grid/power'' 6 32 True)
     (PublishChargingState ''CP+1'' True)
     (hd (effect_messages (projr (NewPublisher ''tcp://b'' ''c'' '''' '''' ''panya'' None False))
       (PublishChargingState ''CP+1'' True)))"
proof -
  have "ch_ID sample_charger = ''CP+1''" by (simp add: sample_charger_def)
  then show ?thesis
    using published_states_announced[of "PublishChargingState ''CP+1'' True" sample_charger
        "projr (NewPublisher ''tcp://b'' ''c'' '''' '''' ''panya'' None False)" "''panya/grid/power''" 6 32]
    by (simp add: NewPublisher_def)
qed

subsection \<open>Discovery identifiers\<close>

lemma kept_rune_dash: "kept_rune (CHR ''-'')"
  by (simp add: kept_rune_def)

text \<open>A node id is not empty and holds only lower-case letters, digits and hyphens, so it is one level
  of the discovery topic.\<close>

lemma node_id_chars: "list_all kept_rune (discoveryNodeID k)"
proof -
  have "list_all kept_rune ''unknown''" "list_all kept_rune ''panya-charge-''" by code_simp+
  then show ?thesis
    by (auto simp: discoveryNodeID_def sanitizeID_def Let_def list_all_iff)
qed

lemma node_id_level: "levels (discoveryNodeID k) = [discoveryNodeID k]"
proof (rule levels_plain)
  have "\<not> kept_rune (CHR ''/'')" by code_simp
  then show "CHR ''/'' \<notin> set (discoveryNodeID k)" using node_id_chars[of k] by (auto simp: list_all_iff)
qed

text \<open>Different chargers can share a node id, and so their discovery topics.\<close>

lemma node_ids_collide: "discoveryNodeID ''A_1'' = discoveryNodeID ''a-1'' \<and> discoveryNodeID ''@'' = discoveryNodeID ''#''"
  by code_simp

text \<open>Without a grid topic in the configuration, discovery announces another topic than the one the
  grid power is published on.\<close>

lemma grid_topic_differs:
  "topic_of (pb_topics p) ''grid_power'' = '''' \<Longrightarrow>
     msg_topic (pub_GridPower p x) = pb_baseTopic p @ ''/grid/power'' \<and>
     list_ex (\<lambda>m. case msg_payload m of
         EntityConfig (Sensor e) \<Rightarrow> ha_Name e = ''Grid Power'' \<and> ha_StateTopic e = pb_baseTopic p @ ''/''
       | _ \<Rightarrow> False) (pub_Discovery p c lo hi proxy)"
  by (simp add: pub_GridPower_def publish_to_def pub_Discovery_def Let_def buildDiscoveryPayloads_def
      sensor_def base_of_def ha_base.defs config_message_def)

text \<open>Every discovery shows Home Assistant the mode auto and the threshold 0, whatever they are.\<close>

lemma discovery_resets_states:
  "pub_ChargerMode p (ch_ID c) ''auto'' \<in> set (pub_Discovery p c lo hi proxy) \<and>
   pub_SolarThreshold p (ch_ID c) 0 \<in> set (pub_Discovery p c lo hi proxy)"
  by (simp add: pub_Discovery_def Let_def)

text \<open>The global switch announces a fixed command topic; the subscriber listens on the configured one.\<close>

lemma global_switch_topic:
  "case msg_payload (pub_GlobalDiscovery p) of
     EntityConfig (Switch w) \<Rightarrow> hw_CommandTopic w = pb_baseTopic p @ ''/smart_charging/command'' \<and>
       ha_StateTopic w = msg_topic (pub_SmartChargingEnabled p b)
   | _ \<Rightarrow> False"
  by (simp add: pub_GlobalDiscovery_def Let_def ha_base.defs pub_SmartChargingEnabled_def publish_to_def
      config_message_def)

text \<open>The power and the session energy of a charger are retained messages.\<close>

lemma energy_is_retained:
  "msg_retained (pub_ChargerPower p k x)" "msg_retained (pub_SessionEnergy p k x)"
  by (simp_all add: pub_ChargerPower_def pub_SessionEnergy_def publish_to_def)

end
