(* ===== verification/MqttScope.thy ===== *)
theory MqttScope
  imports MqttLaws
begin

section \<open>MqttScope: what a command on a charger's topic can reach\<close>

text \<open>
  The command bridge of \<open>internal/csms/csms.go\<close> behind the subscriber of
  \<open>internal/adapter/inbound/mqtt/subscriber.go\<close>. \<open>confined k\<close> relates two states that differ in what
  concerns charger \<open>k\<close> only; each command of the bridge with an id stays within it, and so does
  everything a message on one of the charger's command topics can cause.
\<close>

subsection \<open>Steps confined to one charger\<close>

fun cmd_charger :: "ocpp_command \<Rightarrow> charger_id" where
  "cmd_charger (SetChargingProfileReq k _ _) = k"
| "cmd_charger (RemoteStartReq k _ _) = k"
| "cmd_charger (RemoteStopReq k _) = k"
| "cmd_charger (ClearChargingProfileReq k _) = k"

definition extended :: "('a \<Rightarrow> bool) \<Rightarrow> 'a list \<Rightarrow> 'a list \<Rightarrow> bool" where
  "extended P xs ys \<longleftrightarrow> (\<exists>zs. ys = xs @ zs \<and> list_all P zs)"

lemma extended_refl [simp]: "extended P xs xs"
  by (simp add: extended_def)

lemma extended_trans: "extended P xs ys \<Longrightarrow> extended P ys zs \<Longrightarrow> extended P xs zs"
  by (auto simp: extended_def)

lemma extended_snoc [simp]: "P z \<Longrightarrow> extended P xs (xs @ [z])"
  by (simp add: extended_def)

text \<open>What the commands never touch: everything but the commands handed over and the cooldown clocks, the
  overrides, the threshold and what has been published.\<close>

definition unscoped :: "csms \<Rightarrow> csms" where
  "unscoped m = m\<lparr>ms_trace := [], ms_controller := (ms_controller m)
     \<lparr>ctl_commander := (ctl_commander (ms_controller m))\<lparr>co_lastStartStop := (\<lambda>_. None), co_sent := []\<rparr>,
      ctl_manualOverride := [], ctl_solarThreshold := 0, ctl_trace := []\<rparr>\<rparr>"

abbreviation commander_of :: "csms \<Rightarrow> commander" where "commander_of m \<equiv> ctl_commander (ms_controller m)"

definition confined :: "charger_id \<Rightarrow> csms \<Rightarrow> csms \<Rightarrow> bool" where
  "confined k m m' \<longleftrightarrow> unscoped m' = unscoped m \<and>
     extended (\<lambda>cmd. cmd_charger cmd = k) (co_sent (commander_of m)) (co_sent (commander_of m')) \<and>
     extended (\<lambda>eff. state_of eff = Some k) (ms_trace m) (ms_trace m') \<and>
     (\<forall>j. j \<noteq> k \<longrightarrow> co_lastStartStop (commander_of m') j = co_lastStartStop (commander_of m) j \<and>
        IsManualOverride j (ms_controller m') = IsManualOverride j (ms_controller m))"

lemma confined_refl [simp]: "confined k m m"
  by (simp add: confined_def)

lemma confined_trans: "confined k m1 m2 \<Longrightarrow> confined k m2 m3 \<Longrightarrow> confined k m1 m3"
  unfolding confined_def by (auto intro: extended_trans)

lemma confined_fold:
  assumes "\<And>x d. confined k d (f x d)" shows "confined k m (fold f xs m)"
  by (rule fold_invariant[where P = "confined k m"]) (auto intro: assms confined_trans)

text \<open>A call on the commander.\<close>

definition commands :: "charger_id \<Rightarrow> commander \<Rightarrow> commander \<Rightarrow> bool" where
  "commands k c c' \<longleftrightarrow> c'\<lparr>co_lastStartStop := (\<lambda>_. None), co_sent := []\<rparr> = c\<lparr>co_lastStartStop := (\<lambda>_. None), co_sent := []\<rparr> \<and>
     extended (\<lambda>cmd. cmd_charger cmd = k) (co_sent c) (co_sent c') \<and>
     (\<forall>j. j \<noteq> k \<longrightarrow> co_lastStartStop c' j = co_lastStartStop c j)"

lemma on_commander_confined:
  assumes "\<And>c. commands k c (snd (f c))" shows "confined k m (snd (on_commander f m))"
  using assms[of "commander_of m"]
  by (simp add: confined_def commands_def on_commander_def split_beta unscoped_def IsManualOverride_def)

lemma send_commands: "commands k c (snd (sendChargingProfile env k n p c))"
  by (auto simp: commands_def sendChargingProfile_def hand_over_def split: answer.split)

lemma commands_trans: "commands k c1 c2 \<Longrightarrow> commands k c2 c3 \<Longrightarrow> commands k c1 c3"
  unfolding commands_def by (auto intro: extended_trans)

lemma profile_commands: "commands k c (snd (SetChargingProfile env repo k n a c))"
  by (auto simp: SetChargingProfile_def split_beta intro: send_commands commands_trans
      split: sum.split option.split)

lemma guarded_commands: "cmd_charger cmd = k \<Longrightarrow> commands k c (guarded env k cmd c)"
  by (auto simp: commands_def guarded_def Let_def markStartStop_def split: answer.split)

lemma publish_confined: "state_of eff = Some k \<Longrightarrow> confined k m (publish eff m)"
  by (simp add: confined_def unscoped_def publish_def)

lemma override_confined:
  "confined k m (on_controller (SetManualOverride k) m)" "confined k m (on_controller (ClearManualOverride k) m)"
  by (auto simp: on_controller_def Let_def SetManualOverride_def ClearManualOverride_def publish_ctl_def note_ctl_def
      route_controller_def publish_def confined_def unscoped_def IsManualOverride_def)

subsection \<open>The commands of the bridge\<close>

lemma applyAmps_confined: "confined k m (applyAmps env k a m)"
proof (rule applyAmps_inv[where P = "confined k m"])
  show "confined k m (snd (bridge_SetChargingProfile env k n a d))" if "confined k m d" for n d
    using that on_commander_confined[OF profile_commands]
    unfolding bridge_SetChargingProfile_def by (rule confined_trans)
  show "confined k m (on_controller (SetManualOverride k) d)" if "confined k m d" for d
    using that override_confined(1) by (rule confined_trans)
  show "confined k m (publish (PublishChargerCurrent k a) d)" if "confined k m d" for d
    using that publish_confined by (rule confined_trans) simp
qed simp

lemma startCharging_confined: "confined k m (startCharging env k m)"
proof -
  have "confined k d (start_conn env k conn d)" for conn d
    using on_commander_confined[of k "RemoteStartTransaction env k (cn_ConnectorID conn) ''default''" d]
    by (simp add: start_conn_def start_guarded guarded_commands publish_confined)
  then show ?thesis
    by (auto simp: startCharging_def ListConnectors_def intro: confined_fold)
qed

lemma stopCharging_confined: "confined k m (stopCharging env k m)"
proof -
  have "confined k d (snd (on_commander (RemoteStopTransaction env k tx) d))" for tx d
    by (intro on_commander_confined) (simp add: stop_guarded guarded_commands)
  then have "confined k d (stop_conn env k conn d)" for conn d
    by (simp add: stop_conn_def split: sum.split option.split)
  then show ?thesis
    by (auto simp: stopCharging_def ListConnectors_def intro: confined_fold)
qed

lemma threshold_confined: "confined k m (OnSetSolarThreshold k watts m)"
  by (simp add: OnSetSolarThreshold_def confined_def unscoped_def on_controller_def Let_def SetSolarThreshold_def
      publish_def IsManualOverride_def)

fun command_for :: "charger_id \<Rightarrow> sys_event \<Rightarrow> bool" where
  "command_for k (SetAmpsCmd j a) \<longleftrightarrow> j = k"
| "command_for k (SetStateCmd j b) \<longleftrightarrow> j = k"
| "command_for k (SetModeCmd j b) \<longleftrightarrow> j = k"
| "command_for k (SetThresholdCmd j w) \<longleftrightarrow> j = k"
| "command_for k _ \<longleftrightarrow> False"

lemma command_confined:
  assumes "command_for k ev" "k \<noteq> ''''" shows "confined k m (sys_do env ev m)"
  using assms
  by (cases ev) (auto simp: OnSetAmps_def OnSetState_def OnSetChargingMode_def Let_def applyAmps_confined
      startCharging_confined stopCharging_confined override_confined threshold_confined)

definition delivered ::
  "env \<Rightarrow> (string \<Rightarrow> string \<Rightarrow> bool) \<Rightarrow> (string \<Rightarrow> string option) \<Rightarrow> subscriber \<Rightarrow> string \<Rightarrow> string \<Rightarrow> csms \<Rightarrow> csms" where
  "delivered env matches refused sb t text m = fold (sys_do env) (received matches (resubscribe refused sb) t text) m"

lemma leaf_command:
  assumes "k \<noteq> ''''" "CHR ''/'' \<notin> set k" "(leaf, h) \<in> set (leaf_handlers sb)"
    and "h (charger_path (sb_baseTopic sb) k leaf) text = Some ev"
  shows "command_for k ev"
  using assms
  by (auto simp: leaf_handlers_def command_leaves_def handleSetAmpsPerCharger_def handleSetStatePerCharger_def
      handleModePerCharger_def handleSolarThresholdPerCharger_def call_handler_def
      split: if_splits option.splits)

subsection \<open>Messages\<close>

text \<open>
  C16: a message on a command topic of one charger, whatever its payload, concerns that charger alone.
  It sends commands to no other charger, changes the override and the cooldown of no other charger,
  publishes states of no other charger, and leaves the sessions, the stores, the settings and the
  rest of the control loop as they are; only the solar threshold, which has a topic for every charger,
  is one for all of them.
\<close>

theorem charger_commands_confined:
  assumes "\<And>flt t. CHR ''#'' \<notin> set flt \<Longrightarrow> matches flt t = filter_matches flt t"
    and "\<forall>(flt, h) \<in> set (subscriptions sb). CHR ''#'' \<notin> set flt"
    and "k \<noteq> ''''" "CHR ''/'' \<notin> set k" "globals_apart filter_matches sb k" "leaf \<in> set command_leaves"
  shows "confined k m (delivered env matches (\<lambda>_. None) sb (charger_path (sb_baseTopic sb) k leaf) text m)"
proof -
  obtain h where h: "(leaf, h) \<in> set (leaf_handlers sb)"
    using assms(6) unfolding leaf_handlers_def by (auto simp: command_leaves_def)
  have "received matches (resubscribe (\<lambda>_. None) sb) t text = received filter_matches (subscriptions sb) t text" for t
    unfolding resubscribe_def subscribe_all fst_conv using assms(1,2) by (rule received_cong)
  then show ?thesis
    unfolding delivered_def using received_leaf[OF assms(4,5) h] leaf_command[OF assms(3,4) h] command_confined[OF _ assms(3)]
    by (auto split: option.split)
qed

theorem charger_commands_confined_witness:
  "\<forall>m env. confined ''CP+1'' m (delivered env filter_matches (\<lambda>_. None) sample_subscriber
     (charger_path (sb_baseTopic sample_subscriber) ''CP+1'' ''command/state'') ''stop'' m)"
proof -
  have "\<forall>(flt, h) \<in> set (subscriptions sample_subscriber). CHR ''#'' \<notin> set flt" by code_simp
  moreover have "globals_apart filter_matches sample_subscriber ''CP+1''" by code_simp
  moreover have "''command/state'' \<in> set command_leaves" by code_simp
  ultimately show ?thesis by (intro allI charger_commands_confined) simp_all
qed

text \<open>The threshold set for one charger holds for the solar gate of all of them, while the new value is
  published for the one.\<close>

lemma threshold_is_global:
  "GetSolarThreshold (ms_controller (sys_do env (SetThresholdCmd k w) m)) = wrap32 w"
  "ms_trace (sys_do env (SetThresholdCmd k w) m) = ms_trace m @ [PublishSolarThreshold k w]"
  by (simp_all add: OnSetSolarThreshold_def on_controller_def Let_def SetSolarThreshold_def GetSolarThreshold_def publish_def)

text \<open>A manual command goes past the controller: it keeps the limit it set last. When that is the limit
  it computes again once the charger is back in automatic mode, it sends nothing, and the charger stays
  at the amperes of the manual command.\<close>

lemma manual_amps_survive_auto:
  assumes "ctl_lastSetAmps (ms_controller m) (connector_key k n) = Some a" "k \<noteq> ''''"
    and "m' = sys_do env (SetModeCmd k False) (sys_do env (SetAmpsCmd k b) m)"
  shows "\<not> IsManualOverride k (ms_controller m')" "apply_limit env sr k n a (ms_controller m') = ms_controller m'"
proof -
  have "confined k m m'"
    unfolding assms(3) using assms(2) by (intro confined_trans[OF command_confined command_confined]) simp_all
  then have "ms_controller (unscoped m') = ms_controller (unscoped m)" by (simp add: confined_def)
  then have "ctl_lastSetAmps (ms_controller m') = ctl_lastSetAmps (ms_controller m)"
    by (auto simp: unscoped_def dest: arg_cong[where f = ctl_lastSetAmps])
  then show "apply_limit env sr k n a (ms_controller m') = ms_controller m'"
    using assms(1) by (simp add: apply_limit_def Let_def abs_int_def)
  show "\<not> IsManualOverride k (ms_controller m')"
    by (simp add: assms(3) OnSetChargingMode_def ClearManualOverride_def IsManualOverride_def publish_ctl_def note_ctl_def)
qed

end
