(* ===== verification/Interleave.thy ===== *)
theory Interleave
  imports MqttScope ControllerLaws "HOL-Library.Multiset_Order"
begin

section \<open>Interleave: a tick beside the messages and commands that arrive meanwhile\<close>

text \<open>
  \<open>controller.go\<close> runs its tick in a goroutine of its own, and a command to a charger waits for the
  answer: messages of the chargers, commands from MQTT and calls of the web UI are served in between.
  Here a tick is a list of the work it has left, one item for each stretch of the code that makes one
  decision or one call on the commander; a step does the first item, which may add items in its
  place, or an event of \<open>System\<close>. What an item reads it reads in that step, the clock included;
  a list of chargers or connectors is the copy the repository returned. The counters and the set of the
  gate are written by this goroutine only. A call on the commander is one step (\<open>Commander\<close> takes it
  apart), and so is an event beside the tick.
\<close>

subsection \<open>The work of a tick\<close>

datatype work =
    RevertCharger int charger
  | GateStop charger
  | GateStopConn charger_id connector
  | GateStart charger
  | GateStartConn charger_id connector
  | Collect "charger list"
  | Process meter_sample charger
  | Decide_amps meter_sample charger connector
  | Apply charger_id int int

datatype gate_decision = GoOn | Skip | StopThem | StartThem

text \<open>The decision of \<open>runSolarGate\<close>, before it looks at the chargers.\<close>

definition gate_plan :: "time \<Rightarrow> charger list \<Rightarrow> controller \<Rightarrow> gate_decision \<times> controller" where
  "gate_plan now chargers c =
     (let threshold = ctl_solarThreshold c in
      if threshold \<le> 0 then (GoOn, c\<lparr>ctl_solarBelowTicks := 0, ctl_solarAboveTicks := 0\<rparr>)
      else if \<not> solar_available now (ctl_staleTimeout c) (ctl_energySource c) then (GoOn, c)
      else let solarW = solar_power (ctl_energySource c); c = gate_forget_offline chargers c in
        if solarW < of_int threshold then
          let below = wrap32 (ctl_solarBelowTicks c + 1);
              c = c\<lparr>ctl_solarAboveTicks := 0, ctl_solarBelowTicks := below\<rparr>
          in if below < solarGateStopTicks then (Skip, c)
             else if below > solarGateStopTicks then (Skip, c)
             else (StopThem, c)
        else
          let above = wrap32 (ctl_solarAboveTicks c + 1);
              c = c\<lparr>ctl_solarBelowTicks := 0, ctl_solarAboveTicks := above\<rparr>
          in if above < solarGateStartTicks then (Skip, c)
             else if above > solarGateStartTicks then (GoOn, c)
             else (StartThem, c))"

text \<open>The part of \<open>processConnector\<close> before the limit is sent.\<close>

definition decide_amps :: "time \<Rightarrow> charger \<Rightarrow> meter_sample \<Rightarrow> connector \<Rightarrow> controller \<Rightarrow> int \<times> controller" where
  "decide_amps now ch sample conn c =
     (let (calc, result) = Compute (ch_ID ch) sample (ctl_calc c);
          c = c\<lparr>ctl_calc := calc\<rparr>;
          key = connector_key (ch_ID ch) (cn_ConnectorID conn);
          c = (if ctl_lastShouldStop c key \<noteq> Some (pr_ShouldStop result)
               then emit_ctl (ChargingProfileUpdated now (ch_ID ch)
                      (if pr_ShouldStop result then ctl_safeAmps c else pr_LimitAmps result)
                      (pr_ShouldStop result) (pr_Reason result))
                    (c\<lparr>ctl_lastShouldStop := (ctl_lastShouldStop c)(key \<mapsto> pr_ShouldStop result)\<rparr>)
               else c)
      in (if pr_ShouldStop result then ctl_safeAmps c else pr_LimitAmps result, c))"

definition first_work :: "time \<Rightarrow> csms \<Rightarrow> work list \<times> csms" where
  "first_work now m =
     (let c = ms_controller m in
      if \<not> ctl_enabled c then ([], m)
      else if is_stale now (ctl_staleTimeout c) (ctl_energySource c) then
        (case ListChargers (chargers_of m) of
           Inl e \<Rightarrow> ([], m)
         | Inr chargers \<Rightarrow> (map (RevertCharger (ctl_safeAmps c)) chargers, m))
      else (case ListChargers (chargers_of m) of
        Inl e \<Rightarrow> ([], m)
      | Inr chargers \<Rightarrow>
          (let (plan, c') = gate_plan now chargers c; m' = on_controller (\<lambda>c. c') m in
           case plan of
             GoOn \<Rightarrow> ([Collect chargers], m')
           | Skip \<Rightarrow> ([], m')
           | StopThem \<Rightarrow> (map GateStop chargers, m')
           | StartThem \<Rightarrow> (map GateStart chargers @ [Collect chargers], m'))))"

fun do_work :: "env \<Rightarrow> time \<Rightarrow> work \<Rightarrow> csms \<Rightarrow> work list \<times> csms" where
  "do_work env now (RevertCharger amps ch) m =
     (if \<not> ch_Online ch then ([], m)
      else case ListConnectors (ch_ID ch) (chargers_of m) of
             Inl e \<Rightarrow> ([], m)
           | Inr conns \<Rightarrow> (map (\<lambda>conn. Apply (ch_ID ch) (cn_ConnectorID conn) amps) (filter controlled conns), m))"
| "do_work env now (GateStop ch) m =
     (let c = ms_controller m in
      if \<not> ch_Online ch \<or> IsManualOverride (ch_ID ch) c \<or> ch_ID ch \<in> ctl_solarGateStopped c then ([], m)
      else let m = on_controller (\<lambda>c. c\<lparr>ctl_solarGateStopped := insert (ch_ID ch) (ctl_solarGateStopped c)\<rparr>) m in
        case ListConnectors (ch_ID ch) (chargers_of m) of
          Inl e \<Rightarrow> ([], m)
        | Inr conns \<Rightarrow> (map (GateStopConn (ch_ID ch)) conns, m))"
| "do_work env now (GateStopConn k conn) m = ([], on_controller (gate_stop_conn env (sessions_of m) k conn) m)"
| "do_work env now (GateStart ch) m =
     (let c = ms_controller m;
          m' = on_controller (\<lambda>c. c\<lparr>ctl_solarGateStopped := ctl_solarGateStopped c - {ch_ID ch}\<rparr>) m
      in if \<not> ch_Online ch then ([], m')
      else if ch_ID ch \<notin> ctl_solarGateStopped c then ([], m)
      else case ListConnectors (ch_ID ch) (chargers_of m') of
          Inl e \<Rightarrow> ([], m')
        | Inr conns \<Rightarrow> (map (GateStartConn (ch_ID ch)) conns, m'))"
| "do_work env now (GateStartConn k conn) m = ([], on_controller (gate_start_conn env k conn) m)"
| "do_work env now (Collect chargers) m =
     (map (Process (fst (collectMeterSample now (ms_controller m)))) chargers, m)"
| "do_work env now (Process sample ch) m =
     (if \<not> ch_Online ch \<or> IsManualOverride (ch_ID ch) (ms_controller m) then ([], m)
      else case ListConnectors (ch_ID ch) (chargers_of m) of
             Inl e \<Rightarrow> ([], m)
           | Inr conns \<Rightarrow> (map (Decide_amps sample ch) (filter controlled conns), m))"
| "do_work env now (Decide_amps sample ch conn) m =
     ([Apply (ch_ID ch) (cn_ConnectorID conn) (fst (decide_amps now ch sample conn (ms_controller m)))],
      on_controller (\<lambda>c. snd (decide_amps now ch sample conn c)) m)"
| "do_work env now (Apply k n amps) m = ([], on_controller (apply_limit env (sessions_of m) k n amps) m)"

subsection \<open>Steps\<close>

text \<open>While a tick is under way the loop is not started again: \<open>Stop\<close> waits for it.\<close>

definition beside :: "work list \<Rightarrow> sys_event \<Rightarrow> bool" where
  "beside ws ev \<longleftrightarrow> (case ev of Tick now \<Rightarrow> False | StartCall \<Rightarrow> ws = [] | _ \<Rightarrow> True)"

inductive conc_step :: "env \<Rightarrow> (sys_event \<Rightarrow> bool) \<Rightarrow> work list \<times> csms \<Rightarrow> work list \<times> csms \<Rightarrow> bool"
  for env :: env and ok :: "sys_event \<Rightarrow> bool"
where
  tick_begins: "ok (Tick now) \<Longrightarrow> ms_running m \<Longrightarrow> conc_step env ok ([], m) (first_work now m)"
| piece: "do_work env now w m = (ws', m') \<Longrightarrow> conc_step env ok (w # ws, m) (ws' @ ws, m')"
| other: "ok ev \<Longrightarrow> beside ws ev \<Longrightarrow> conc_step env ok (ws, m) (ws, sys_do env ev m)"

inductive_cases conc_stepE: "conc_step env ok x y"

abbreviation conc_run :: "env \<Rightarrow> (sys_event \<Rightarrow> bool) \<Rightarrow> work list \<times> csms \<Rightarrow> work list \<times> csms \<Rightarrow> bool" where
  "conc_run env ok \<equiv> rtranclp (conc_step env ok)"

lemma other_step: "ok ev \<Longrightarrow> beside (fst x) ev \<Longrightarrow> conc_step env ok x (fst x, sys_do env ev (snd x))"
  by (cases x) (simp add: other)

subsection \<open>A tick alone\<close>

definition traces :: "controller \<Rightarrow> controller \<Rightarrow> bool" where
  "traces c d \<longleftrightarrow> (\<exists>es. ctl_trace d = ctl_trace c @ es)"

lemma traces_refl [simp]: "traces c c" by (simp add: traces_def)

lemma traces_trans: "traces c d \<Longrightarrow> traces d e \<Longrightarrow> traces c e" by (auto simp: traces_def)

lemma traces_same: "ctl_trace d = ctl_trace c \<Longrightarrow> traces c d" by (simp add: traces_def)

lemma traces_fold: "(\<And>x d. traces d (f x d)) \<Longrightarrow> traces c (fold f xs c)"
  by (rule fold_invariant[where P = "traces c"]) (auto intro: traces_trans)

lemma traces_apply [simp]: "traces c (apply_limit env sr k n a c)"
  by (auto simp: traces_def apply_limit_def Let_def ctl_SetChargingProfile_def publish_ctl_def note_ctl_def split_beta
      split: option.split sum.split)

lemma traces_decide [simp]: "traces c (snd (decide_amps now ch s conn c))"
  by (auto simp: traces_def decide_amps_def Let_def emit_ctl_def note_ctl_def split: prod.split)

lemma traces_gate_conn [simp]:
  "traces c (gate_stop_conn env sr k conn c)" "traces c (gate_start_conn env k conn c)"
  by (auto simp: gate_stop_conn_def gate_start_conn_def intro: traces_same split: sum.split option.split)

lemma gate_plan_trace [simp]: "traces c (snd (gate_plan now chs c))"
proof -
  have "ctl_trace (gate_forget_offline chs d) = ctl_trace d" for d
    unfolding gate_forget_offline_def by (rule fold_frame) simp
  then show ?thesis by (auto simp: gate_plan_def Let_def intro: traces_same)
qed

lemma route_commute:
  "fold route_controller es (m\<lparr>ms_controller := c\<rparr>) = (fold route_controller es m)\<lparr>ms_controller := c\<rparr>"
proof (induction es arbitrary: m)
  case (Cons e es)
  have "route_controller e (m\<lparr>ms_controller := c\<rparr>) = (route_controller e m)\<lparr>ms_controller := c\<rparr>"
    by (simp add: route_controller_def publish_def split: effect.split)
  then show ?case by (simp add: Cons.IH)
qed simp

lemma on_controller_comp:
  assumes "traces (ms_controller m) (g (ms_controller m))" "traces (g (ms_controller m)) (f (g (ms_controller m)))"
  shows "on_controller f (on_controller g m) = on_controller (\<lambda>c. f (g c)) m"
proof -
  obtain xs ys where "ctl_trace (g (ms_controller m)) = ctl_trace (ms_controller m) @ xs"
    "ctl_trace (f (g (ms_controller m))) = ctl_trace (g (ms_controller m)) @ ys"
    using assms by (auto simp: traces_def)
  then show ?thesis
    by (simp add: on_controller_def[of f] on_controller_def[of "\<lambda>c. f (g c)"] Let_def)
      (simp add: on_controller_def Let_def route_commute[symmetric])
qed

lemma on_controller_id [simp]: "on_controller (\<lambda>c. c) m = m" by (simp add: on_controller_def)

lemma on_controller_cong: "f (ms_controller m) = g (ms_controller m) \<Longrightarrow> on_controller f m = on_controller g m"
  by (simp add: on_controller_def Let_def)

text \<open>The stretches put together are the definitions of \<open>Controller\<close>.\<close>

lemma processConnector_stretches:
  "processConnector env sr now ch s conn c =
     apply_limit env sr (ch_ID ch) (cn_ConnectorID conn) (fst (decide_amps now ch s conn c)) (snd (decide_amps now ch s conn c))"
  by (simp add: processConnector_def decide_amps_def split_beta Let_def)

lemma runSolarGate_stretches:
  "runSolarGate env cr sr now chs c =
     (case gate_plan now chs c of
        (GoOn, c) \<Rightarrow> (False, c)
      | (Skip, c) \<Rightarrow> (True, c)
      | (StopThem, c) \<Rightarrow> (True, fold (gate_stop_charger env cr sr) chs c)
      | (StartThem, c) \<Rightarrow> (False, fold (gate_start_charger env cr) chs c))"
  by (simp add: runSolarGate_def gate_plan_def Let_def)

lemma run_map:
  assumes "\<And>x ws d. x \<in> set xs \<Longrightarrow> ms_handler d = ms_handler m \<Longrightarrow> conc_run env ok (I x # ws, d) (ws, on_controller (f x) d)"
    and "\<And>x c. traces c (f x c)"
  shows "conc_run env ok (map I xs @ ws, m) (ws, on_controller (fold f xs) m)"
  using assms(1)
proof (induction xs arbitrary: m)
  case Nil
  then show ?case by (simp add: id_def)
next
  case (Cons x xs)
  let ?d = "on_controller (f x) m"
  have "conc_run env ok (map I xs @ ws, ?d) (ws, on_controller (fold f xs) ?d)"
    by (rule Cons.IH) (simp add: Cons.prems)
  moreover have "on_controller (fold f xs) ?d = on_controller (fold f (x # xs)) m"
    using assms(2) by (subst on_controller_comp) (simp_all add: traces_fold comp_def)
  moreover have "conc_run env ok (I x # map I xs @ ws, m) (map I xs @ ws, ?d)" using Cons.prems by simp
  ultimately show ?case by (auto simp: comp_def intro: rtranclp_trans)
qed

lemma piece_run: "do_work env now w m = (ws', m') \<Longrightarrow> conc_run env ok (w # ws, m) (ws' @ ws, m')"
  by (rule r_into_rtranclp) (rule piece)

lemma apply_run: "conc_run env ok (Apply k n a # ws, m) (ws, on_controller (apply_limit env (sessions_of m) k n a) m)"
  using piece_run[of env undefined "Apply k n a" m "[]"] by simp

lemma decide_run:
  "conc_run env ok (Decide_amps s ch conn # ws, m) (ws, on_controller (processConnector env (sessions_of m) now ch s conn) m)"
proof -
  let ?a = "fst (decide_amps now ch s conn (ms_controller m))" and ?d = "on_controller (\<lambda>c. snd (decide_amps now ch s conn c)) m"
  have "conc_run env ok (Decide_amps s ch conn # ws, m) (Apply (ch_ID ch) (cn_ConnectorID conn) ?a # ws, ?d)"
    using piece_run[of env now "Decide_amps s ch conn" m "[_]" _ ok ws] by simp
  also have "conc_run env ok (Apply (ch_ID ch) (cn_ConnectorID conn) ?a # ws, ?d)
      (ws, on_controller (apply_limit env (sessions_of m) (ch_ID ch) (cn_ConnectorID conn) ?a) ?d)"
    using apply_run[of env ok _ _ _ ws ?d] by simp
  also have "on_controller (apply_limit env (sessions_of m) (ch_ID ch) (cn_ConnectorID conn) ?a) ?d =
      on_controller (processConnector env (sessions_of m) now ch s conn) m"
    by (subst on_controller_comp) (auto simp: processConnector_stretches intro!: on_controller_cong)
  finally show ?thesis .
qed

lemma process_run:
  "conc_run env ok (Process s ch # ws, m)
     (ws, on_controller (\<lambda>c. if \<not> ch_Online ch then c
        else processCharger env (chargers_of m) (sessions_of m) now s ch c) m)"
proof (cases "\<not> ch_Online ch \<or> IsManualOverride (ch_ID ch) (ms_controller m)")
  case True
  then have "on_controller (\<lambda>c. if \<not> ch_Online ch then c
      else processCharger env (chargers_of m) (sessions_of m) now s ch c) m = on_controller (\<lambda>c. c) m"
    by (intro on_controller_cong) (auto simp: processCharger_def)
  then show ?thesis using True piece_run[of env now "Process s ch" m "[]" m ok ws] by auto
next
  case False
  let ?conns = "filter controlled (conns_of (chargers_of m) (ch_ID ch))"
  let ?f = "processConnector env (sessions_of m) now ch s"
  have "conc_run env ok (Process s ch # ws, m) (map (Decide_amps s ch) ?conns @ ws, m)"
    using False by (intro piece_run) (simp add: ListConnectors_def)
  also have "conc_run env ok (map (Decide_amps s ch) ?conns @ ws, m) (ws, on_controller (fold ?f ?conns) m)"
  proof (rule run_map)
    show "conc_run env ok (Decide_amps s ch conn # vs, d) (vs, on_controller (?f conn) d)"
      if "ms_handler d = ms_handler m" for conn vs d using decide_run[of env ok s ch conn vs d now] that by simp
    show "traces c (?f conn c)" for conn c
      unfolding processConnector_stretches by (rule traces_trans[OF traces_decide traces_apply])
  qed
  also have "on_controller (fold ?f ?conns) m = on_controller (\<lambda>c. if \<not> ch_Online ch then c
      else processCharger env (chargers_of m) (sessions_of m) now s ch c) m"
    using False by (intro on_controller_cong) (simp add: processCharger_def ListConnectors_def fold_filter)
  finally show ?thesis .
qed

lemma traces_processCharger: "traces c (processCharger env cr sr now s ch c)"
proof -
  have "traces c (processConnector env sr now ch s conn c)" for conn c
    unfolding processConnector_stretches by (rule traces_trans[OF traces_decide traces_apply])
  then show ?thesis by (auto simp: processCharger_def ListConnectors_def intro!: traces_fold)
qed

lemma collect_run:
  assumes "ms_handler d = ms_handler m"
  shows "conc_run env ok (Collect chs # ws, d)
     (ws, on_controller (\<lambda>c0. fold (\<lambda>ch c. if \<not> ch_Online ch then c
        else processCharger env (chargers_of m) (sessions_of m) now (fst (collectMeterSample now c0)) ch c) chs c0) d)"
proof -
  let ?s = "fst (collectMeterSample now (ms_controller d))"
  let ?f = "\<lambda>s ch c. if \<not> ch_Online ch then c else processCharger env (chargers_of m) (sessions_of m) now s ch c"
  have "conc_run env ok (Collect chs # ws, d) (map (Process ?s) chs @ ws, d)"
    by (rule piece_run[of env now]) simp
  also have "conc_run env ok (map (Process ?s) chs @ ws, d) (ws, on_controller (fold (?f ?s) chs) d)"
  proof (rule run_map)
    show "conc_run env ok (Process ?s ch # vs, e) (vs, on_controller (?f ?s ch) e)"
      if "ms_handler e = ms_handler d" for ch vs and e :: csms
      using process_run[of env ok ?s ch vs e now] unfolding that assms .
  qed (simp add: traces_processCharger)
  also have "on_controller (fold (?f ?s) chs) d = on_controller (\<lambda>c0. fold (?f (fst (collectMeterSample now c0))) chs c0) d"
    by (rule on_controller_cong) (rule refl)
  finally show ?thesis .
qed

lemma revert_run:
  "conc_run env ok (map (RevertCharger (ctl_safeAmps (ms_controller m))) (vals_of (cr_chargers (chargers_of m))) @ ws, m)
     (ws, on_controller (revertAllToSafe env (chargers_of m) (sessions_of m)) m)"
proof -
  let ?a = "ctl_safeAmps (ms_controller m)" and ?conns = "\<lambda>ch. filter controlled (conns_of (chargers_of m) (ch_ID ch))"
  let ?g = "\<lambda>ch conn. apply_limit env (sessions_of m) (ch_ID ch) (cn_ConnectorID conn) ?a"
  let ?f = "\<lambda>ch c. if \<not> ch_Online ch then c else fold (?g ch) (?conns ch) c"
  have "conc_run env ok (RevertCharger ?a ch # vs, d) (vs, on_controller (?f ch) d)"
    if h: "ms_handler d = ms_handler m" for ch vs d
  proof (cases "ch_Online ch")
    case True
    have "conc_run env ok (RevertCharger ?a ch # vs, d) (map (\<lambda>conn. Apply (ch_ID ch) (cn_ConnectorID conn) ?a) (?conns ch) @ vs, d)"
      using True h by (intro piece_run) (simp add: ListConnectors_def)
    also have "conc_run env ok (map (\<lambda>conn. Apply (ch_ID ch) (cn_ConnectorID conn) ?a) (?conns ch) @ vs, d)
        (vs, on_controller (fold (?g ch) (?conns ch)) d)"
    proof (rule run_map)
      show "conc_run env ok (Apply (ch_ID ch) (cn_ConnectorID conn) ?a # us, e) (us, on_controller (?g ch conn) e)"
        if "ms_handler e = ms_handler d" for conn us e
        using apply_run[of env ok "ch_ID ch" "cn_ConnectorID conn" ?a us e] h that by simp
    qed simp
    finally show ?thesis using True by simp
  next
    case False
    then show ?thesis using piece_run[of env undefined "RevertCharger ?a ch" d "[]" d ok vs] by simp
  qed
  then have "conc_run env ok (map (RevertCharger ?a) (vals_of (cr_chargers (chargers_of m))) @ ws, m)
      (ws, on_controller (fold ?f (vals_of (cr_chargers (chargers_of m)))) m)"
    by (intro run_map) (auto intro: traces_fold)
  moreover have "on_controller (fold ?f (vals_of (cr_chargers (chargers_of m)))) m =
      on_controller (revertAllToSafe env (chargers_of m) (sessions_of m)) m"
    by (rule on_controller_cong)
      (simp add: revertAllToSafe_def Let_def ListChargers_def ListConnectors_def fold_filter)
  ultimately show ?thesis by simp
qed

lemma gate_stop_run:
  "conc_run env ok (map GateStop chs @ ws, m)
     (ws, on_controller (fold (gate_stop_charger env (chargers_of m) (sessions_of m)) chs) m)"
proof (rule run_map)
  fix ch :: charger and vs and d :: csms assume h: "ms_handler d = ms_handler m"
  let ?c = "ms_controller d" and ?conns = "conns_of (chargers_of m) (ch_ID ch)"
  let ?F = "gate_stop_charger env (chargers_of m) (sessions_of m) ch"
  let ?mark = "\<lambda>c. c\<lparr>ctl_solarGateStopped := insert (ch_ID ch) (ctl_solarGateStopped c)\<rparr>"
  let ?f = "gate_stop_conn env (sessions_of m) (ch_ID ch)"
  show "conc_run env ok (GateStop ch # vs, d) (vs, on_controller ?F d)"
  proof (cases "\<not> ch_Online ch \<or> IsManualOverride (ch_ID ch) ?c \<or> ch_ID ch \<in> ctl_solarGateStopped ?c")
    case True
    then have "on_controller ?F d = on_controller (\<lambda>c. c) d"
      by (intro on_controller_cong) (auto simp: gate_stop_charger_def)
    then have "do_work env undefined (GateStop ch) d = ([], on_controller ?F d)" using True by (simp add: Let_def)
    then show ?thesis using piece_run[of env undefined "GateStop ch" d "[]" _ ok vs] by (simp del: do_work.simps)
  next
    case False
    have "conc_run env ok (GateStop ch # vs, d) (map (GateStopConn (ch_ID ch)) ?conns @ vs, on_controller ?mark d)"
      using False h by (intro piece_run) (simp add: ListConnectors_def Let_def)
    also have "conc_run env ok (map (GateStopConn (ch_ID ch)) ?conns @ vs, on_controller ?mark d)
        (vs, on_controller (fold ?f ?conns) (on_controller ?mark d))"
    proof (rule run_map)
      show "conc_run env ok (GateStopConn (ch_ID ch) conn # us, e) (us, on_controller (?f conn) e)"
        if "ms_handler e = ms_handler (on_controller ?mark d)" for conn us e
        using piece_run[of env undefined "GateStopConn (ch_ID ch) conn" e "[]" _ ok us] that h by simp
    qed simp
    also have "on_controller (fold ?f ?conns) (on_controller ?mark d) = on_controller ?F d"
      using False by (subst on_controller_comp)
        (auto simp: gate_stop_charger_def ListConnectors_def Let_def traces_fold intro!: on_controller_cong traces_same)
    finally show ?thesis .
  qed
next
  fix ch :: charger and c
  show "traces c (gate_stop_charger env (chargers_of m) (sessions_of m) ch c)"
    by (auto simp: gate_stop_charger_def Let_def ListConnectors_def
        intro!: traces_trans[OF traces_same traces_fold])
qed

lemma gate_start_run:
  "conc_run env ok (map GateStart chs @ ws, m)
     (ws, on_controller (fold (gate_start_charger env (chargers_of m)) chs) m)"
proof (rule run_map)
  fix ch :: charger and vs and d :: csms assume h: "ms_handler d = ms_handler m"
  let ?c = "ms_controller d" and ?conns = "conns_of (chargers_of m) (ch_ID ch)"
  let ?F = "gate_start_charger env (chargers_of m) ch"
  let ?clear = "\<lambda>c. c\<lparr>ctl_solarGateStopped := ctl_solarGateStopped c - {ch_ID ch}\<rparr>"
  let ?f = "gate_start_conn env (ch_ID ch)"
  show "conc_run env ok (GateStart ch # vs, d) (vs, on_controller ?F d)"
  proof (cases "ch_Online ch \<and> ch_ID ch \<in> ctl_solarGateStopped ?c")
    case False
    have "do_work env undefined (GateStart ch) d = ([], on_controller ?F d)"
    proof (cases "ch_Online ch")
      case True
      with False have "on_controller ?F d = on_controller (\<lambda>c. c) d"
        by (intro on_controller_cong) (simp add: gate_start_charger_def)
      then show ?thesis using True False by (simp add: Let_def)
    next
      case False
      then have "on_controller ?F d = on_controller ?clear d"
        by (intro on_controller_cong) (simp add: gate_start_charger_def)
      then show ?thesis using False by (simp add: Let_def)
    qed
    then show ?thesis using piece_run[of env undefined "GateStart ch" d "[]" _ ok vs] by (simp del: do_work.simps)
  next
    case True
    have "conc_run env ok (GateStart ch # vs, d) (map (GateStartConn (ch_ID ch)) ?conns @ vs, on_controller ?clear d)"
      using True h by (intro piece_run) (simp add: ListConnectors_def Let_def)
    also have "conc_run env ok (map (GateStartConn (ch_ID ch)) ?conns @ vs, on_controller ?clear d)
        (vs, on_controller (fold ?f ?conns) (on_controller ?clear d))"
    proof (rule run_map)
      show "conc_run env ok (GateStartConn (ch_ID ch) conn # us, e) (us, on_controller (?f conn) e)" for conn us e
        using piece_run[of env undefined "GateStartConn (ch_ID ch) conn" e "[]" _ ok us] by simp
    qed simp
    also have "on_controller (fold ?f ?conns) (on_controller ?clear d) = on_controller ?F d"
      using True by (subst on_controller_comp)
        (auto simp: gate_start_charger_def ListConnectors_def Let_def traces_fold intro!: on_controller_cong traces_same)
    finally show ?thesis .
  qed
next
  fix ch :: charger and c
  show "traces c (gate_start_charger env (chargers_of m) ch c)"
    by (auto simp: gate_start_charger_def Let_def ListConnectors_def
        intro: traces_same traces_trans[OF traces_same traces_fold])
qed

lemma tick_alone:
  assumes "ok (Tick now)" "ms_running m" shows "conc_run env ok ([], m) ([], control_tick env now m)"
proof -
  let ?c = "ms_controller m" and ?chs = "vals_of (cr_chargers (chargers_of m))"
  let ?tick = "tick env (chargers_of m) (sessions_of m) now"
  have ct: "control_tick env now m = on_controller ?tick m" using assms(2) by (simp add: control_tick_def)
  have first: "conc_run env ok ([], m) (first_work now m)" by (rule r_into_rtranclp) (rule tick_begins[of ok now m env, OF assms])
  show ?thesis
  proof (cases "\<not> ctl_enabled ?c \<or> is_stale now (ctl_staleTimeout ?c) (ctl_energySource ?c)")
    case True
    show ?thesis
    proof (cases "ctl_enabled ?c")
      case on: True
      have "first_work now m = (map (RevertCharger (ctl_safeAmps ?c)) ?chs, m)"
        using True on by (simp add: first_work_def Let_def ListChargers_def)
      moreover have "on_controller ?tick m = on_controller (revertAllToSafe env (chargers_of m) (sessions_of m)) m"
        using True on by (intro on_controller_cong) (simp add: tick_def)
      ultimately show ?thesis unfolding ct using first revert_run[of env ok m "[]"] by (simp add: rtranclp_trans)
    next
      case False
      then have "on_controller ?tick m = on_controller (\<lambda>c. c) m" by (intro on_controller_cong) (simp add: tick_def)
      then show ?thesis unfolding ct using first False by (simp add: first_work_def Let_def)
    qed
  next
    case False
    obtain plan c' where plan: "gate_plan now ?chs ?c = (plan, c')" by fastforce
    let ?m = "on_controller (\<lambda>c. c') m"
    let ?ws = "case plan of GoOn \<Rightarrow> [Collect ?chs] | Skip \<Rightarrow> [] | StopThem \<Rightarrow> map GateStop ?chs
      | StartThem \<Rightarrow> map GateStart ?chs @ [Collect ?chs]"
    let ?process = "\<lambda>c0. fold (\<lambda>ch c. if \<not> ch_Online ch then c
        else processCharger env (chargers_of m) (sessions_of m) now (fst (collectMeterSample now c0)) ch c) ?chs c0"
    let ?f = "case plan of GoOn \<Rightarrow> ?process | Skip \<Rightarrow> (\<lambda>c. c)
      | StopThem \<Rightarrow> fold (gate_stop_charger env (chargers_of m) (sessions_of m)) ?chs
      | StartThem \<Rightarrow> (\<lambda>c. ?process (fold (gate_start_charger env (chargers_of m)) ?chs c))"
    have fw: "first_work now m = (?ws, ?m)"
      using False by (cases plan) (simp_all add: first_work_def Let_def ListChargers_def plan)
    have t: "traces c (gate_stop_charger env (chargers_of m) (sessions_of m) ch c)"
      "traces c (gate_start_charger env (chargers_of m) ch c)" "traces c (?process c)" for ch c
      by (auto simp: gate_stop_charger_def gate_start_charger_def Let_def ListConnectors_def traces_processCharger
          intro: traces_same traces_fold traces_trans[OF traces_same traces_fold])
    have tf: "traces c' (?f c')"
    proof (cases plan)
      case StartThem
      then show ?thesis using traces_trans[OF traces_fold[of _ c', OF t(2)] t(3)] by simp
    qed (auto intro: t(1) t(3) traces_fold)
    have run: "conc_run env ok (?ws, ?m) ([], on_controller ?f ?m)"
    proof (cases plan)
      case GoOn
      then show ?thesis using collect_run[of ?m m env ok ?chs "[]" now] by simp
    next
      case Skip
      then show ?thesis by simp
    next
      case StopThem
      then show ?thesis using gate_stop_run[of env ok ?chs "[]" ?m] by simp
    next
      case StartThem
      let ?start = "fold (gate_start_charger env (chargers_of m)) ?chs"
      have 1: "conc_run env ok (?ws, ?m) ([Collect ?chs], on_controller ?start ?m)"
        using StartThem gate_start_run[of env ok ?chs "[Collect ?chs]" ?m] by simp
      have 2: "conc_run env ok ([Collect ?chs], on_controller ?start ?m) ([], on_controller ?process (on_controller ?start ?m))"
        by (rule collect_run) simp
      have "on_controller ?process (on_controller ?start ?m) = on_controller (\<lambda>c. ?process (?start c)) ?m"
        by (rule on_controller_comp) (rule traces_fold, rule t(2), rule t(3))
      then have "conc_run env ok (?ws, ?m) ([], on_controller (\<lambda>c. ?process (?start c)) ?m)"
        using rtranclp_trans[OF 1 2] by (rule subst)
      then show ?thesis unfolding StartThem gate_decision.case .
    qed
    have "on_controller ?f ?m = on_controller (\<lambda>c. ?f c') m"
      using tf gate_plan_trace[of ?c now ?chs] plan by (subst on_controller_comp) simp_all
    also have "\<dots> = on_controller ?tick m"
      using False plan
      by (intro on_controller_cong)
        (cases plan; simp add: tick_def ListChargers_def runSolarGate_stretches Let_def)
    finally show ?thesis unfolding ct using first run fw by (simp add: rtranclp_trans)
  qed
qed


subsection \<open>What every interleaving keeps\<close>

text \<open>The amperes that an item still has to send.\<close>

fun pending :: "(int \<Rightarrow> bool) \<Rightarrow> work \<Rightarrow> bool" where
  "pending A (RevertCharger amps ch) \<longleftrightarrow> A amps"
| "pending A (Apply k n amps) \<longleftrightarrow> A amps"
| "pending A _ \<longleftrightarrow> True"

lemma decide_fields:
  "ctl_commander (snd (decide_amps now ch s conn c)) = ctl_commander c"
  "ctl_calc (snd (decide_amps now ch s conn c)) = fst (Compute (ch_ID ch) s (ctl_calc c))"
  "ctl_safeAmps (snd (decide_amps now ch s conn c)) = ctl_safeAmps c"
  "fst (decide_amps now ch s conn c) \<in> {ctl_safeAmps c, pr_LimitAmps (snd (Compute (ch_ID ch) s (ctl_calc c)))}"
  by (auto simp: decide_amps_def Let_def emit_ctl_def note_ctl_def split: prod.split)

locale conc_contract = sys_contract +
  fixes A :: "int \<Rightarrow> bool"
  assumes decided: "J cmd calc safe \<Longrightarrow> A safe \<and> A (pr_LimitAmps (snd (Compute i s calc)))"
    and apply_later: "A a \<Longrightarrow> J cmd calc safe \<Longrightarrow> J (snd (SetChargingProfile env repo k n a cmd)) calc safe"
begin

lemma sound_on_controller: "sound (on_controller f m) = holds (f (ms_controller m))"
  by (simp add: sound_def)

lemma do_work_sound:
  assumes "sound m" "pending A w" "do_work env now w m = (ws, m')"
  shows "sound m' \<and> list_all (pending A) ws"
proof (cases w)
  case (Decide_amps s ch conn)
  have "J (ctl_commander (ms_controller m)) (ctl_calc (ms_controller m)) (ctl_safeAmps (ms_controller m))"
    using assms(1) by (simp add: sound_def holds_def)
  then show ?thesis
    using assms(3) observe decided[of "ctl_commander (ms_controller m)"] decide_fields[of now ch s conn "ms_controller m"]
    by (auto simp: Decide_amps sound_on_controller holds_def)
next
  case (Apply k n a)
  then show ?thesis using assms apply_later
    by (auto simp: sound_on_controller sound_def holds_def apply_limit_commander)
next
  case (GateStopConn k conn)
  have "holds (gate_stop_conn env (sessions_of m) k conn (ms_controller m))"
    using assms(1) stop by (auto simp: gate_stop_conn_def sound_def holds_def split: sum.split option.split)
  then show ?thesis using assms(3) by (auto simp: GateStopConn sound_on_controller)
next
  case (GateStartConn k conn)
  have "holds (gate_start_conn env k conn (ms_controller m))"
    using assms(1) start by (auto simp: gate_start_conn_def sound_def holds_def)
  then show ?thesis using assms(3) by (auto simp: GateStartConn sound_on_controller)
qed (use assms in \<open>auto simp: sound_on_controller sound_def Let_def ListConnectors_def list_all_iff split: if_splits\<close>)

lemma first_work_sound:
  assumes "sound m" "first_work now m = (ws, m')" shows "sound m' \<and> list_all (pending A) ws"
proof -
  let ?c = "ms_controller m"
  have c: "holds ?c" using assms(1) by (simp add: sound_def)
  have "holds (gate_forget_offline chs ?c)" for chs
    unfolding gate_forget_offline_def using c by (rule fold_invariant) simp
  then have gate: "holds (snd (gate_plan now chs ?c))" for chs using c by (simp add: gate_plan_def Let_def)
  have "holds c'" if "gate_plan now chs ?c = (plan, c')" for plan c' chs using gate[of chs] that by simp
  moreover have "A (ctl_safeAmps ?c)" using c decided unfolding holds_def by blast
  ultimately show ?thesis using assms
    by (auto simp: first_work_def Let_def ListChargers_def sound_on_controller list_all_iff
        split: if_splits gate_decision.splits prod.splits)
qed

lemma conc_sound:
  assumes "conc_run env ok (ws, m) (ws', m')" "sound m" "list_all (pending A) ws"
  shows "sound m' \<and> list_all (pending A) ws'"
  using assms
proof (induction "(ws', m')" arbitrary: ws' m' rule: rtranclp_induct)
  case (step y)
  obtain vs d where y: "y = (vs, d)" by fastforce
  with step have "sound d" "list_all (pending A) vs" by blast+
  with step.hyps(2) show ?case
    unfolding y by (cases rule: conc_step.cases) (auto dest: do_work_sound sys_do_sound first_work_sound[OF _ sym])
qed simp

end

interpretation protect_conc: conc_contract env "\<lambda>cmd calc safe. protected_by env d cmd" "cooldown_kept d" "\<lambda>_. True"
  for env :: env and d :: duration
proof
  show "protected_by env d cmd \<Longrightarrow> protected_by env d (snd (SetChargingProfile env repo k n a cmd))" for cmd repo k n a
    using protected_run_op[of env d cmd "OpSetProfile repo k n _"] by simp
qed simp

interpretation amps_conc: conc_contract env amps_inv amps_in_range "\<lambda>a. 6 \<le> a \<and> a \<le> 32" for env :: env
proof
  show "amps_inv cmd calc safe \<Longrightarrow> (6 \<le> safe \<and> safe \<le> 32) \<and>
      6 \<le> pr_LimitAmps (snd (Compute i s calc)) \<and> pr_LimitAmps (snd (Compute i s calc)) \<le> 32" for cmd calc safe i s
    using Compute_within_limit by (simp add: amps_inv_def)
  show "6 \<le> a \<and> a \<le> 32 \<Longrightarrow> amps_inv cmd calc safe \<Longrightarrow> amps_inv (snd (SetChargingProfile env repo k n a cmd)) calc safe"
    for a cmd calc safe repo k n using profile_amps_inv by blast
qed

subsection \<open>A tick ends\<close>

definition do_first :: "env \<Rightarrow> time \<Rightarrow> work list \<times> csms \<Rightarrow> work list \<times> csms" where
  "do_first env now x =
     (case x of
        ([], m) \<Rightarrow> ([], m)
      | (w # ws, m) \<Rightarrow> (let (ws', m') = do_work env now w m in (ws' @ ws, m')))"

lemma do_first_step: "fst x \<noteq> [] \<Longrightarrow> conc_step env ok x (do_first env now x)"
  by (auto simp: do_first_def piece split: prod.split list.split)

definition advances :: "env \<Rightarrow> work list \<times> csms \<Rightarrow> work list \<times> csms \<Rightarrow> bool" where
  "advances env x y \<longleftrightarrow> fst x \<noteq> [] \<and> (\<exists>now. y = do_first env now x)"

text \<open>Each item makes items of lower rank only, however many connectors there are.\<close>

fun rank :: "work \<Rightarrow> nat" where
  "rank (Collect chargers) = 3"
| "rank (RevertCharger amps ch) = 2"
| "rank (GateStop ch) = 2"
| "rank (GateStart ch) = 2"
| "rank (Process sample ch) = 2"
| "rank (GateStopConn k conn) = 1"
| "rank (GateStartConn k conn) = 1"
| "rank (Decide_amps sample ch conn) = 1"
| "rank (Apply k n amps) = 0"

lemma do_work_rank: "do_work env now w m = (ws, m') \<Longrightarrow> v \<in> set ws \<Longrightarrow> rank v < rank w"
  by (cases w) (auto simp: Let_def ListConnectors_def split: if_splits)

definition left :: "work list \<times> csms \<Rightarrow> nat multiset" where
  "left x = mset (map rank (fst x))"

lemma do_first_less: "fst x \<noteq> [] \<Longrightarrow> left (do_first env now x) < left x"
proof -
  assume "fst x \<noteq> []"
  then obtain w ws m where x: "x = (w # ws, m)" by (cases x; cases "fst x") auto
  obtain ws' m' where d: "do_work env now w m = (ws', m')" by fastforce
  have "mset (map rank ws') < {#rank w#}"
    using do_work_rank[OF d] by (intro mset_lt_single_right_iff[THEN iffD2]) auto
  then show ?thesis by (simp add: left_def x do_first_def d)
qed

lemma conc_step_left:
  assumes "conc_step env ok x y" "fst x \<noteq> []" shows "left y \<le> left x"
  using assms(1)
proof cases
  case (piece now w m ws' m' ws)
  then have "y = do_first env now x" by (simp add: do_first_def)
  then show ?thesis using do_first_less[OF assms(2)] by (simp add: less_imp_le)
qed (use assms(2) in \<open>auto simp: left_def\<close>)

lemma left_stays:
  assumes "\<And>i. n \<le> i \<Longrightarrow> conc_step env ok (f i) (f (Suc i)) \<and> fst (f i) \<noteq> []" "n \<le> j"
  shows "left (f j) \<le> left (f n)"
  using assms(2)
proof (induction j rule: dec_induct)
  case (step j)
  then have "left (f (Suc j)) \<le> left (f j)" using assms(1)[of j] conc_step_left by blast
  with step.IH show ?case by simp
qed simp


subsection \<open>A manual override takes hold\<close>

abbreviation overridden :: "charger_id \<Rightarrow> csms \<Rightarrow> bool" where
  "overridden k m \<equiv> IsManualOverride k (ms_controller m)"

definition commands_to :: "charger_id \<Rightarrow> csms \<Rightarrow> ocpp_command list" where
  "commands_to k m = filter (\<lambda>cmd. cmd_charger cmd = k) (co_sent (commander_of m))"

abbreviation gate_stopped :: "charger_id \<Rightarrow> csms \<Rightarrow> bool" where
  "gate_stopped k m \<equiv> k \<in> ctl_solarGateStopped (ms_controller m)"

text \<open>The events that do not command the charger themselves.\<close>

fun passes_by :: "charger_id \<Rightarrow> sys_event \<Rightarrow> bool" where
  "passes_by k (SetAmpsCmd j a) \<longleftrightarrow> j \<noteq> k \<and> j \<noteq> ''''"
| "passes_by k (SetStateCmd j b) \<longleftrightarrow> j \<noteq> k \<and> j \<noteq> ''''"
| "passes_by k _ \<longleftrightarrow> True"

text \<open>The items that are not yet past the check of the override of \<open>k\<close>; a revert makes none.\<close>

fun clear_of :: "charger_id \<Rightarrow> work \<Rightarrow> bool" where
  "clear_of k (RevertCharger amps ch) \<longleftrightarrow> ch_ID ch \<noteq> k"
| "clear_of k (GateStopConn j conn) \<longleftrightarrow> j \<noteq> k"
| "clear_of k (GateStartConn j conn) \<longleftrightarrow> j \<noteq> k"
| "clear_of k (Decide_amps sample ch conn) \<longleftrightarrow> ch_ID ch \<noteq> k"
| "clear_of k (Apply j n amps) \<longleftrightarrow> j \<noteq> k"
| "clear_of k _ \<longleftrightarrow> True"

fun reverts :: "charger_id \<Rightarrow> work \<Rightarrow> bool" where
  "reverts k (RevertCharger amps ch) \<longleftrightarrow> ch_ID ch = k"
| "reverts k _ \<longleftrightarrow> False"

lemma commands_other:
  "commands j c c' \<Longrightarrow> j \<noteq> k \<Longrightarrow>
     filter (\<lambda>cmd. cmd_charger cmd = k) (co_sent c') = filter (\<lambda>cmd. cmd_charger cmd = k) (co_sent c)"
  by (auto simp: commands_def extended_def list_all_iff filter_empty_conv)

lemma confined_other:
  assumes "confined j m m'" "j \<noteq> k"
  shows "commands_to k m' = commands_to k m" "gate_stopped k m' = gate_stopped k m"
proof -
  show "commands_to k m' = commands_to k m"
    using assms by (auto simp: commands_to_def confined_def extended_def list_all_iff filter_empty_conv)
  have "unscoped m' = unscoped m" using assms(1) by (simp add: confined_def)
  then have "ctl_solarGateStopped (ms_controller (unscoped m')) = ctl_solarGateStopped (ms_controller (unscoped m))" by simp
  then show "gate_stopped k m' = gate_stopped k m" by (simp add: unscoped_def)
qed

lemma apply_limit_gate_stopped [simp]:
  "ctl_solarGateStopped (apply_limit env sr k n a c) = ctl_solarGateStopped c"
  by (auto simp: apply_limit_def Let_def ctl_SetChargingProfile_def split_beta publish_ctl_def note_ctl_def
      split: option.split sum.split)

lemma apply_limit_other:
  "j \<noteq> k \<Longrightarrow> filter (\<lambda>cmd. cmd_charger cmd = k) (co_sent (ctl_commander (apply_limit env sr j n a c))) =
     filter (\<lambda>cmd. cmd_charger cmd = k) (co_sent (ctl_commander c))"
  by (simp add: apply_limit_commander commands_other[OF profile_commands])

lemma gate_conn_other:
  assumes "j \<noteq> k"
  shows "filter (\<lambda>cmd. cmd_charger cmd = k) (co_sent (ctl_commander (gate_stop_conn env sr j conn c))) =
      filter (\<lambda>cmd. cmd_charger cmd = k) (co_sent (ctl_commander c))"
    "filter (\<lambda>cmd. cmd_charger cmd = k) (co_sent (ctl_commander (gate_start_conn env j conn c))) =
      filter (\<lambda>cmd. cmd_charger cmd = k) (co_sent (ctl_commander c))"
    "ctl_solarGateStopped (gate_stop_conn env sr j conn c) = ctl_solarGateStopped c"
    "ctl_solarGateStopped (gate_start_conn env j conn c) = ctl_solarGateStopped c"
  using assms by (simp_all add: gate_stop_conn_def gate_start_conn_def stop_guarded start_guarded
      commands_other[OF guarded_commands] split: sum.split option.split)

lemma do_work_passes_by:
  assumes "clear_of k w" "overridden k m" "\<not> gate_stopped k m" "do_work env now w m = (ws, m')"
  shows "commands_to k m' = commands_to k m \<and> \<not> gate_stopped k m' \<and> list_all (clear_of k) ws"
  using assms
proof (cases w)
  case (Decide_amps s ch conn)
  have "ctl_solarGateStopped (snd (decide_amps now ch s conn c)) = ctl_solarGateStopped c" for c
    by (auto simp: decide_amps_def Let_def emit_ctl_def note_ctl_def split: prod.split)
  then show ?thesis using assms by (auto simp: Decide_amps commands_to_def decide_fields)
qed (auto simp: commands_to_def apply_limit_other gate_conn_other Let_def ListConnectors_def list_all_iff split: if_splits)

lemma first_work_passes_by:
  assumes "\<not> gate_stopped k m" "list_all (\<lambda>w. \<not> reverts k w) (fst (first_work now m))"
  shows "commands_to k (snd (first_work now m)) = commands_to k m" "\<not> gate_stopped k (snd (first_work now m))"
    "list_all (clear_of k) (fst (first_work now m))"
proof -
  let ?c = "ms_controller m" and ?chs = "vals_of (cr_chargers (chargers_of m))"
  obtain plan c' where plan: "gate_plan now ?chs ?c = (plan, c')" by fastforce
  have "ctl_solarGateStopped (gate_forget_offline chs c) \<subseteq> ctl_solarGateStopped c" for chs c
    unfolding gate_forget_offline_def
    by (rule fold_invariant[where P = "\<lambda>d. ctl_solarGateStopped d \<subseteq> ctl_solarGateStopped c"]) auto
  then have "ctl_solarGateStopped (snd (gate_plan now chs c)) \<subseteq> ctl_solarGateStopped c" for chs c
    by (simp add: gate_plan_def Let_def)
  from this[of ?chs ?c] have sub: "ctl_solarGateStopped c' \<subseteq> ctl_solarGateStopped ?c" by (simp add: plan)
  have "ctl_commander (gate_forget_offline chs c) = ctl_commander c" for chs c
    unfolding gate_forget_offline_def by (rule fold_frame) simp
  then have "ctl_commander (snd (gate_plan now chs c)) = ctl_commander c" for chs c
    by (simp add: gate_plan_def Let_def)
  from this[of ?chs ?c] have cmd: "ctl_commander c' = ctl_commander ?c" by (simp add: plan)
  let ?goal = "commands_to k (snd (first_work now m)) = commands_to k m \<and> \<not> gate_stopped k (snd (first_work now m)) \<and>
    list_all (clear_of k) (fst (first_work now m))"
  have ?goal
    using assms sub cmd
    by (cases plan) (auto simp: first_work_def Let_def ListChargers_def commands_to_def list_all_iff plan split: if_splits)
  then show "commands_to k (snd (first_work now m)) = commands_to k m" "\<not> gate_stopped k (snd (first_work now m))"
    "list_all (clear_of k) (fst (first_work now m))" by blast+
qed

lemma handler_passes_by:
  "commands_to k (on_handler f m) = commands_to k m" "gate_stopped k (on_handler f m) = gate_stopped k m"
proof -
  have "commander_of (route_handler e d) = commander_of d \<and>
      ctl_solarGateStopped (ms_controller (route_handler e d)) = ctl_solarGateStopped (ms_controller d)" for e d
    by (auto simp: route_handler_def ClearManualOverride_def publish_ctl_def note_ctl_def split: effect.split)
  then have "commander_of (fold route_handler es d) = commander_of d"
    "ctl_solarGateStopped (ms_controller (fold route_handler es d)) = ctl_solarGateStopped (ms_controller d)" for es d
    by (rule_tac fold_frame, simp)+
  then show "commands_to k (on_handler f m) = commands_to k m" "gate_stopped k (on_handler f m) = gate_stopped k m"
    by (simp_all add: on_handler_def Let_def commands_to_def)
qed

lemma sys_do_passes_by:
  assumes "passes_by k ev" "beside ws ev"
  shows "commands_to k (sys_do env ev m) = commands_to k m" "gate_stopped k (sys_do env ev m) = gate_stopped k m"
proof -
  have clear: "ctl_solarGateStopped (ClearAllManualOverrides c) = ctl_solarGateStopped c" for c
    by (simp add: ClearAllManualOverrides_def fold_frame publish_ctl_def note_ctl_def)
  have "commands_to k (sys_do env ev m) = commands_to k m \<and> gate_stopped k (sys_do env ev m) = gate_stopped k m"
  proof (cases ev)
    case (SetAmpsCmd j a)
    then show ?thesis using assms(1) confined_other[OF command_confined, of j ev k] by simp
  next
    case (SetStateCmd j b)
    then show ?thesis using assms(1) confined_other[OF command_confined, of j ev k] by simp
  next
    case (Inbound rd j ie)
    then show ?thesis by (simp add: inbound_def handler_passes_by)
  next
    case (UpdateChargingCall p)
    then show ?thesis by (simp add: UpdateCharging_def Let_def commands_to_def SetSafeAmps_def SetCooldown_def)
  qed (use assms(2) in \<open>auto simp: beside_def commands_to_def energy_poll_def OnSetSmartCharging_def OnSetChargingMode_def
      OnSetSolarThreshold_def SetLogLevel_def Start_def Stop_def announce_def mqtt_connected_def
      facade_Subscribe_def forward_step_def cancel_subscriber_def take_event_def Let_def SetEnabled_def SetSolarThreshold_def
      SetManualOverride_def ClearManualOverride_def publish_ctl_def note_ctl_def clear
      split: energy.split option.split prod.split\<close>)
  then show "commands_to k (sys_do env ev m) = commands_to k m" "gate_stopped k (sys_do env ev m) = gate_stopped k m"
    by simp_all
qed

text \<open>
  C8: a manual override takes hold in every interleaving. From a state in which charger \<open>k\<close> is under
  manual override, is not stopped by the solar gate and no item of the tick under way is past its check
  of \<open>k\<close>, no command is sent to \<open>k\<close> for as long as the override stays set, over any number of ticks,
  messages and commands for other chargers, unless a tick finds the energy data stale and reverts \<open>k\<close>.
\<close>

theorem override_takes_hold:
  assumes "rtranclp (\<lambda>x y. conc_step env (passes_by k) x y \<and> overridden k (snd y) \<and> list_all (\<lambda>w. \<not> reverts k w) (fst y))
      (ws, m) (ws', m')"
    and "overridden k m" "\<not> gate_stopped k m" "list_all (clear_of k) ws"
  shows "commands_to k m' = commands_to k m"
proof -
  have "commands_to k (snd y) = commands_to k m \<and> overridden k (snd y) \<and> \<not> gate_stopped k (snd y) \<and> list_all (clear_of k) (fst y)"
    if "rtranclp (\<lambda>x y. conc_step env (passes_by k) x y \<and> overridden k (snd y) \<and> list_all (\<lambda>w. \<not> reverts k w) (fst y)) (ws, m) y" for y
    using that
  proof (induction rule: rtranclp_induct)
    case (step y z)
    from step.hyps(2) have "conc_step env (passes_by k) y z" by blast
    then show ?case using step.IH step.hyps(2)
      by cases (auto dest: do_work_passes_by simp: first_work_passes_by sys_do_passes_by)
  qed (use assms(2-4) in simp)
  from this[OF assms(1)] show ?thesis by simp
qed

subsection \<open>Properties\<close>


text \<open>
  The currents commanded stay between 6 and 32 amperes under interleaving as well, those a tick has
  still to send when the bounds change included.
\<close>

theorem interleaved_current_in_range:
  assumes "Load unmarshal getenv path file = Inr cfg" "buildFacade server cfg = Inr m0"
    and "conc_run env amps_in_range ([], m0) (ws, m)"
  shows "list_all (\<lambda>cmd. list_all (\<lambda>a. 6 \<le> a \<and> a \<le> 32) (profile_amps cmd)) (co_sent (commander_of m))"
    "list_all (pending (\<lambda>a. 6 \<le> a \<and> a \<le> 32)) ws"
proof -
  have "amps.sound m0" by (rule built_amps_sound[OF assms(2) Load_valid[OF assms(1)]])
  then have "amps.sound m \<and> list_all (pending (\<lambda>a. 6 \<le> a \<and> a \<le> 32)) ws"
    using assms(3) amps_conc.conc_sound by fastforce
  then show "list_all (\<lambda>cmd. list_all (\<lambda>a. 6 \<le> a \<and> a \<le> 32) (profile_amps cmd)) (co_sent (commander_of m))"
    "list_all (pending (\<lambda>a. 6 \<le> a \<and> a \<le> 32)) ws"
    using amps_sound_sent by blast+
qed

text \<open>A running system with the charger at home, whose tick is about to set ten amperes.\<close>

definition sunny_system :: csms where
  "sunny_system = default_system\<lparr>ms_running := True, ms_controller := sunny_controller,
     ms_handler := (ms_handler default_system)\<lparr>hd_chargers := home [charging_at 1]\<rparr>\<rparr>"




theorem override_takes_hold_witness:
  "let m = sys_do willing (SetModeCmd ''a'' True) sunny_system
   in commands_to ''a'' (snd (do_first willing 2 (do_first willing 2 (first_work 2 m)))) = commands_to ''a'' m"
proof -
  let ?m = "sys_do willing (SetModeCmd ''a'' True) sunny_system" and ?go = "do_first willing 2"
  let ?x = "first_work 2 ?m"
  let ?R = "\<lambda>x y. conc_step willing (passes_by ''a'') x y \<and> overridden ''a'' (snd y) \<and> list_all (\<lambda>w. \<not> reverts ''a'' w) (fst y)"
  let ?Q = "\<lambda>y. overridden ''a'' (snd y) \<and> list_all (\<lambda>w. \<not> reverts ''a'' w) (fst y)"
  have "let m = ?m; x = first_work 2 m; y = ?go x; z = ?go y
    in (overridden ''a'' m \<and> \<not> gate_stopped ''a'' m \<and> ms_running m) \<and>
       (?Q x \<and> fst x \<noteq> []) \<and> (?Q y \<and> fst y \<noteq> []) \<and> ?Q z" by code_simp
  then have o: "overridden ''a'' ?m \<and> \<not> gate_stopped ''a'' ?m \<and> ms_running ?m" and 1: "?Q ?x \<and> fst ?x \<noteq> []"
    and 2: "?Q (?go ?x) \<and> fst (?go ?x) \<noteq> []" and 3: "?Q (?go (?go ?x))"
    unfolding Let_def by blast+
  have "conc_step willing (passes_by ''a'') ([], ?m) ?x" by (rule tick_begins) (use o in simp_all)
  then have "rtranclp ?R ([], ?m) (?go (?go ?x))"
    using 1 2 3 do_first_step by (blast intro: converse_rtranclp_into_rtranclp rtranclp.rtrancl_refl)
  then show ?thesis
    using override_takes_hold[of willing "''a''" "[]" ?m "fst (?go (?go ?x))" "snd (?go (?go ?x))"] o
    unfolding Let_def prod.collapse by simp
qed

text \<open>The tick checks the override of the charger and then waits, for the answer to another command, say; a
  manual command for sixteen amperes arrives and is carried out; the tick goes on and sends its ten. The
  charger is now under manual override at the amperes of the tick, and stays there.\<close>

lemma manual_amps_overtaken:
  "\<exists>m. conc_run willing (\<lambda>_. True) ([], sunny_system) ([], m) \<and> overridden ''a'' m \<and>
     map profile_amps (commands_to ''a'' m) = [[16], [10]] \<and>
     ms_trace m = [PublishChargerMode ''a'' ''manual'', PublishChargerCurrent ''a'' 16, PublishChargerCurrent ''a'' 10]"
proof -
  let ?go = "do_first willing 2" and ?man = "\<lambda>x. (fst x, sys_do willing (SetAmpsCmd ''a'' 16) (snd x))"
  let ?x1 = "first_work 2 sunny_system"
  let ?x3 = "?go (?go ?x1)"
  let ?x5 = "?go (?man ?x3)"
  have "let x1 = first_work 2 sunny_system; x2 = ?go x1; x3 = ?go x2; x4 = ?man x3; x5 = ?go x4; x6 = ?go x5
    in (fst x1 \<noteq> [] \<and> fst x2 \<noteq> [] \<and> fst x4 \<noteq> [] \<and> fst x5 \<noteq> [] \<and> fst x6 = []) \<and>
       (overridden ''a'' (snd x6) \<and> map profile_amps (commands_to ''a'' (snd x6)) = [[16], [10]] \<and>
        ms_trace (snd x6) = [PublishChargerMode ''a'' ''manual'', PublishChargerCurrent ''a'' 16, PublishChargerCurrent ''a'' 10])"
    by code_simp
  then have pc: "fst ?x1 \<noteq> [] \<and> fst (?go ?x1) \<noteq> [] \<and> fst (?man ?x3) \<noteq> [] \<and> fst ?x5 \<noteq> [] \<and> fst (?go ?x5) = []"
    and final: "overridden ''a'' (snd (?go ?x5)) \<and> map profile_amps (commands_to ''a'' (snd (?go ?x5))) = [[16], [10]] \<and>
     ms_trace (snd (?go ?x5)) = [PublishChargerMode ''a'' ''manual'', PublishChargerCurrent ''a'' 16, PublishChargerCurrent ''a'' 10]"
    unfolding Let_def by blast+
  let ?R = "conc_step willing (\<lambda>_. True)"
  have "?R ([], sunny_system) ?x1" by (rule tick_begins) (simp_all add: sunny_system_def)
  moreover have "?R ?x1 (?go ?x1)" "?R (?go ?x1) ?x3" "?R (?man ?x3) ?x5" "?R ?x5 (?go ?x5)"
    using pc by (intro do_first_step; blast)+
  moreover have "?R ?x3 (?man ?x3)" by (rule other_step) (simp_all add: beside_def)
  ultimately have "conc_run willing (\<lambda>_. True) ([], sunny_system) (?go ?x5)"
    by (meson rtranclp.rtrancl_into_rtrancl rtranclp.rtrancl_refl)
  moreover note final
  moreover have "?go ?x5 = ([], snd (?go ?x5))" by (rule prod_eqI) (use pc in \<open>simp_all only: fst_conv snd_conv\<close>)
  ultimately show ?thesis by metis
qed

end
