(* ===== verification/Pages.thy ===== *)
theory Pages
  imports WebUILaws Mqtt
begin

section \<open>Pages: what the web UI sends to the browser\<close>

text \<open>
  The outer layer of \<open>internal/adapter/inbound/webui\<close>: the session cookie (\<open>auth.go\<close>), the answers of
  a post as an HTML fragment or as JSON, the escaping of error messages and the formatting of powers
  (\<open>server.go\<close>, \<open>status.go\<close>), and the confirm token. The templates themselves are not modelled: a page is
  the name of its template with its data. The texts of the errors of Go's library are a parameter.
\<close>

subsection \<open>The session cookie\<close>

record cookie =
  ck_Name :: string
  ck_Value :: string
  ck_Path :: string
  ck_MaxAge :: int
  ck_HttpOnly :: bool
  ck_SameSiteStrict :: bool

definition setSessionCookie :: "string \<Rightarrow> cookie" where
  "setSessionCookie v =
     \<lparr>ck_Name = sessionCookieName, ck_Value = v, ck_Path = ''/'', ck_MaxAge = 86400, ck_HttpOnly = True,
      ck_SameSiteStrict = True\<rparr>"

definition clearSessionCookie :: cookie where
  "clearSessionCookie =
     \<lparr>ck_Name = sessionCookieName, ck_Value = '''', ck_Path = ''/'', ck_MaxAge = -1, ck_HttpOnly = True,
      ck_SameSiteStrict = True\<rparr>"

definition set_cookie :: "response \<Rightarrow> cookie option" where
  "set_cookie resp =
     (case resp of LoggedIn v \<Rightarrow> Some (setSessionCookie v) | LoggedOut \<Rightarrow> Some clearSessionCookie | _ \<Rightarrow> None)"

text \<open>The bytes that Go's cookies carry as they are.\<close>

definition cookie_byte :: "char \<Rightarrow> bool" where
  "cookie_byte b \<longleftrightarrow> (of_char b :: nat) \<in> {33..126} \<and> b \<notin> {CHR 0x22, CHR '','', CHR '';'', CHR 0x5C}"

definition after_response :: "(cookie \<Rightarrow> string option \<Rightarrow> string option) \<Rightarrow> response \<Rightarrow> string option \<Rightarrow> string option" where
  "after_response keep resp jar = (case set_cookie resp of Some c \<Rightarrow> keep c jar | None \<Rightarrow> jar)"

definition to_config :: "request \<Rightarrow> bool" where
  "to_config r \<longleftrightarrow> rq_path r = ''/api/config'' \<and> rq_method r = GET"

text \<open>
  C37: a session, from login to logout. For a browser that keeps a cookie while its age is positive and
  drops it when it is negative, and a token of bytes that cookies carry: after a login with the token
  the editor is served, after a login with anything else the browser has what it had before, and after
  a logout the editor is out of reach again.
\<close>

theorem login_session_roundtrip:
  assumes "\<And>c jar. 0 < ck_MaxAge c \<Longrightarrow> list_all cookie_byte (ck_Value c) \<Longrightarrow> keep c jar = Some (ck_Value c)"
    and "\<And>c jar. ck_MaxAge c < 0 \<Longrightarrow> keep c jar = None"
    and "wb_token (w_ui w) \<noteq> ''''" "list_all cookie_byte (wb_token (w_ui w))"
    and "rq_method login = POST" "rq_path login = ''/login''"
    and "rq_method logout = POST" "rq_path logout = ''/logout''" "to_config r"
  shows "let jar' = after_response keep (fst (serve ot provider login w)) jar;
             jar'' = after_response keep (fst (serve ot provider logout w)) jar'
    in (FormValue ''token'' login = wb_token (w_ui w) \<longrightarrow>
          serve ot provider (r\<lparr>rq_cookie := jar'\<rparr>) w = (handleGetConfig ot r w, w)) \<and>
       (FormValue ''token'' login \<noteq> wb_token (w_ui w) \<longrightarrow> jar' = jar) \<and>
       serve ot provider (r\<lparr>rq_cookie := jar''\<rparr>) w = (RedirectTo ''/'', w)"
proof -
  have get: "handleGetConfig ot (r\<lparr>rq_cookie := x\<rparr>) w = handleGetConfig ot r w" for x
    by (simp add: handleGetConfig_def split: sum.split)
  have "fst (serve ot provider login w) = handleLogin login (w_ui w)" "fst (serve ot provider logout w) = LoggedOut"
    using assms(5-8) by (simp_all add: serve_def Let_def)
  then show ?thesis
    using assms(1)[of "setSessionCookie (wb_token (w_ui w))"] assms(2)[of clearSessionCookie] assms(3,4,9) get
    by (auto simp: after_response_def set_cookie_def handleLogin_def subtleValidate_def setSessionCookie_def
        clearSessionCookie_def serve_def Let_def authMiddleware_def to_config_def api_config_def)
qed

definition sample_browser :: "cookie \<Rightarrow> string option \<Rightarrow> string option" where
  "sample_browser c jar = (if ck_MaxAge c < 0 then None else Some (ck_Value c))"

theorem login_session_roundtrip_witness:
  "let w = sample_world None;
       login = (sample_post [(''token'', [''secret''])])\<lparr>rq_path := ''/login''\<rparr>;
       logout = (sample_post [])\<lparr>rq_path := ''/logout''\<rparr>;
       r = (sample_post [])\<lparr>rq_method := GET\<rparr>;
       jar' = after_response sample_browser (fst (serve sample_outside default_system login w)) None;
       jar'' = after_response sample_browser (fst (serve sample_outside default_system logout w)) jar'
   in serve sample_outside default_system (r\<lparr>rq_cookie := jar'\<rparr>) w = (handleGetConfig sample_outside r w, w) \<and>
      serve sample_outside default_system (r\<lparr>rq_cookie := jar''\<rparr>) w = (RedirectTo ''/'', w)"
proof -
  have "list_all cookie_byte ''secret''" by code_simp
  then show ?thesis
    using login_session_roundtrip[of sample_browser "sample_world None"
        "(sample_post [(''token'', [''secret''])])\<lparr>rq_path := ''/login''\<rparr>" "(sample_post [])\<lparr>rq_path := ''/logout''\<rparr>"
        "(sample_post [])\<lparr>rq_method := GET\<rparr>" sample_outside default_system None]
    by (simp add: sample_browser_def sample_world_def sample_post_def NewServer_def to_config_def FormValue_def Let_def)
qed

subsection \<open>Fragments\<close>

text \<open>\<open>template.HTMLEscapeString\<close>; a NUL becomes the replacement character in UTF-8.\<close>

definition escape_char :: "char \<Rightarrow> string" where
  "escape_char c =
     (if c = CHR 0x22 then ''&#34;'' else if c = CHR 0x27 then ''&#39;'' else if c = CHR ''&'' then ''&amp;''
      else if c = CHR ''<'' then ''&lt;'' else if c = CHR ''>'' then ''&gt;''
      else if c = CHR 0x00 then [CHR 0xEF, CHR 0xBF, CHR 0xBD] else [c])"

definition HTMLEscapeString :: "string \<Rightarrow> string" where
  "HTMLEscapeString s = concat (map escape_char s)"

definition error_div :: "string \<Rightarrow> string" where
  "error_div msg =
     ''<div class='' @ [CHR 0x22] @ ''frag-error'' @ [CHR 0x22] @ ''>'' @ HTMLEscapeString msg @ ''</div>''"

record result_vm =
  rv_FieldsChanged :: "string list"
  rv_ActiveSession :: bool
  rv_ChargerReconfigureRequired :: bool
  rv_ConfirmToken :: string
  rv_ResultClass :: string

datatype rendered =
    HTMLError int string
  | JSONError int string
  | Fragment string result_vm
  | JSONResult apply_result

definition renderHTMLError :: "string \<Rightarrow> int \<Rightarrow> rendered" where
  "renderHTMLError msg code = HTMLError code (error_div msg)"

definition jsonError :: "string \<Rightarrow> int \<Rightarrow> rendered" where
  "jsonError msg code = JSONError code msg"

definition renderResult :: "bool \<Rightarrow> apply_result \<Rightarrow> rendered" where
  "renderResult htmx ar =
     (if \<not> htmx then JSONResult ar
      else Fragment (result_class ar @ ''.html'')
        \<lparr>rv_FieldsChanged = ar_FieldsChanged ar, rv_ActiveSession = ar_ActiveSession ar,
         rv_ChargerReconfigureRequired = ar_ChargerReconfigureRequired ar, rv_ConfirmToken = ar_ConfirmToken ar,
         rv_ResultClass = result_class ar\<rparr>)"

text \<open>\<open>text\<close> gives the text of an error value.\<close>

fun error_message :: "(post_error \<Rightarrow> string) \<Rightarrow> post_error \<Rightarrow> string" where
  "error_message txt (BadForm e) = ''parse form: '' @ e"
| "error_message txt LoadFailed = ''internal server error''"
| "error_message txt (Overridden field envVar) =
     ''cannot change '' @ field @ '': overridden by environment variable '' @ envVar"
| "error_message txt (Invalid e) = ''validation failed: '' @ txt (Invalid e)"
| "error_message txt (WriteFailed e) = ''atomic write failed: '' @ txt (WriteFailed e)"
| "error_message txt (RebuildFailed e) = ''rebuild failed: '' @ txt (RebuildFailed e)"
| "error_message txt e = ''apply failed: '' @ txt e"

fun render_post :: "(post_error \<Rightarrow> string) \<Rightarrow> bool \<Rightarrow> post_outcome \<Rightarrow> rendered option" where
  "render_post txt htmx (Failed code e) =
     Some (if htmx then renderHTMLError (error_message txt e) code else jsonError (error_message txt e) code)"
| "render_post txt htmx (Applied ar) = Some (renderResult htmx ar)"
| "render_post txt htmx Blocked = None"

text \<open>No message can put markup or an attribute into the page, whatever field name or text is in it.\<close>

lemma escape_no_markup:
  "set (HTMLEscapeString s) \<inter> {CHR 0x22, CHR 0x27, CHR ''<'', CHR ''>''} = {}"
proof -
  have "set (escape_char c) \<inter> {CHR 0x22, CHR 0x27, CHR ''<'', CHR ''>''} = {}" for c
    by (auto simp: escape_char_def split: if_splits)
  then show ?thesis by (auto simp: HTMLEscapeString_def disjoint_iff)
qed

lemma error_fragments_escaped:
  "render_post txt htmx res = Some (HTMLError code body) \<Longrightarrow>
     \<exists>msg. body = error_div msg \<and> set (HTMLEscapeString msg) \<inter> {CHR 0x22, CHR 0x27, CHR ''<'', CHR ''>''} = {}"
  using escape_no_markup
  by (cases res) (auto simp: renderHTMLError_def jsonError_def renderResult_def split: if_splits)

subsection \<open>Tokens and powers\<close>

definition hex_digit :: "nat \<Rightarrow> char" where
  "hex_digit n = (if n < 10 then char_of (48 + n) else char_of (87 + n))"

text \<open>The bytes are those of \<open>rand.Read\<close>.\<close>

definition newConfirmToken :: "nat list \<Rightarrow> string" where
  "newConfirmToken b = concat (map (\<lambda>x. [hex_digit (x div 16), hex_digit (x mod 16)]) b)"

lemma hex_digit_inj: "m < 16 \<Longrightarrow> n < 16 \<Longrightarrow> hex_digit m = hex_digit n \<Longrightarrow> m = n"
  by (auto simp: hex_digit_def split: if_splits dest!: arg_cong[where f = "of_char :: char \<Rightarrow> nat"])

text \<open>Different random bytes give different tokens, of 32 characters for 16 bytes.\<close>

lemma newConfirmToken_inj:
  "list_all (\<lambda>x. x < 256) b \<Longrightarrow> list_all (\<lambda>x. x < 256) b' \<Longrightarrow> newConfirmToken b = newConfirmToken b' \<Longrightarrow> b = b'"
proof (induction b arbitrary: b')
  case Nil
  then show ?case by (cases b') (simp_all add: newConfirmToken_def)
next
  case (Cons x b)
  then obtain y c where b': "b' = y # c" by (cases b') (simp_all add: newConfirmToken_def)
  have "x < 256" "y < 256" using Cons.prems b' by simp_all
  then have "x div 16 < 16" "y div 16 < 16" by simp_all
  then have "x div 16 = y div 16" "x mod 16 = y mod 16"
    using Cons.prems hex_digit_inj[of "x div 16" "y div 16"] hex_digit_inj[of "x mod 16" "y mod 16"]
    by (simp_all add: b' newConfirmToken_def)
  then have "x = y" by (metis div_mult_mod_eq)
  then show ?case using Cons b' by (simp add: newConfirmToken_def)
qed

lemma newConfirmToken_length: "length (newConfirmToken b) = 2 * length b"
  by (induction b) (simp_all add: newConfirmToken_def)

definition per_thousand :: "float64 \<Rightarrow> float64" where
  "per_thousand x = (case x of Fin q \<Rightarrow> Fin (q / 1000) | y \<Rightarrow> y)"

definition formatPower :: "float64 \<Rightarrow> string" where
  "formatPower watts = format_fixed 1 (per_thousand watts) @ '' kW''"

definition ChargerPowerKW :: "charger_status \<Rightarrow> string" where
  "ChargerPowerKW c = formatPower (st_ChargingPower c)"

subsection \<open>What a save takes along\<close>

text \<open>The candidate is made from the configuration in force, so a save writes the values of environment
  variables into the file, here a password.\<close>

lemma environment_is_saved:
  "let ot = sample_outside\<lparr>ot_getenv := (\<lambda>k. if k = ''PANYA_MQTT_PASSWORD'' then ''pw'' else '''')\<rparr>;
       r = sample_post [(''charging.max_amps'', [''24''])]
   in case load_config ot (sample_world None) of
        Inl e \<Rightarrow> False
      | Inr current \<Rightarrow> accepted ot r (sample_world None) current \<and>
          mqc_Password (cf_MQTT (candidate_of r current)) = ''pw''"
proof -
  let ?ot = "sample_outside\<lparr>ot_getenv := (\<lambda>k. if k = ''PANYA_MQTT_PASSWORD'' then ''pw'' else '''')\<rparr>"
  let ?r = "sample_post [(''charging.max_amps'', [''24''])]"
  have "case load_config ?ot (sample_world None) of Inl e \<Rightarrow> False
    | Inr current \<Rightarrow> (case effective ?ot (sample_world None) of Inl e \<Rightarrow> False
      | Inr ec \<Rightarrow> set (map fst (rq_form ?r)) \<inter> set (ef_OverriddenByEnv ec) = {}) \<and>
        validate (candidate_of ?r current) = None \<and> mqc_Password (cf_MQTT (candidate_of ?r current)) = ''pw''"
    by code_simp
  then show ?thesis
    by (auto simp: Let_def accepted_def sample_post_def split: sum.splits)
qed

end
