(* ===== verification/Program.thy ===== *)
theory Program
  imports Pages
begin

section \<open>Program: the process, its loops and its log\<close>

text \<open>
  \<open>cmd/panya-charge-oss/main.go\<close> as a whole: after the start (\<open>run_main\<close> of WebUI) the process handles
  requests of the web UI, events of the system and the signal that ends it. The applier holds the
  facade in use; the status page has the facade of the start, which is the same object until a rebuild
  replaces the applier's. Beside it the two loops that run on a timer, \<open>Run\<close> of the controller and
  \<open>pollLoop\<close> of the energy source, and the loggers that \<open>main.go\<close> and \<open>csms.go\<close> build.
\<close>

subsection \<open>Loops\<close>

text \<open>A loop that selects between a done context and a ticker.\<close>

datatype 'a loop_event = CtxDone | Fired 'a

fun select_loop :: "('a \<Rightarrow> 's \<Rightarrow> 's) \<Rightarrow> 'a loop_event list \<Rightarrow> 's \<Rightarrow> 's" where
  "select_loop f [] s = s"
| "select_loop f (CtxDone # evs) s = s"
| "select_loop f (Fired x # evs) s = select_loop f evs (f x s)"

definition Run :: "tick_input loop_event list \<Rightarrow> controller \<Rightarrow> controller" where
  "Run evs c = select_loop (\<lambda>(env, cr, sr, now, e) c. tick env cr sr now (c\<lparr>ctl_energySource := e\<rparr>)) evs c"

definition pollLoop ::
  "(float64 \<Rightarrow> int) \<Rightarrow> ((string \<Rightarrow> time \<times> ha_reply) \<times> string list) loop_event list \<Rightarrow> energy_source \<Rightarrow> energy_source" where
  "pollLoop plat evs e = select_loop (\<lambda>(net, order). pollOnce plat net order) evs e"

fun fired :: "'a loop_event list \<Rightarrow> 'a list" where
  "fired [] = []"
| "fired (CtxDone # evs) = []"
| "fired (Fired x # evs) = x # fired evs"

lemma select_loop_fold: "select_loop f evs s = fold f (fired evs) s"
  by (induction f evs s rule: select_loop.induct) simp_all

text \<open>The loops do the rounds that the properties of Controller and Energy are about, and none after the
  context is done.\<close>

lemma loops_rounds:
  "Run evs c = run_ticks (fired evs) c" "pollLoop plat pevs e = poll_rounds plat (fired pevs) e"
  by (simp_all add: Run_def run_ticks_def pollLoop_def poll_rounds_def select_loop_fold)

lemma select_loop_done: "CtxDone \<in> set evs \<Longrightarrow> select_loop f (evs @ rest) s = select_loop f evs s"
  by (induction f evs s rule: select_loop.induct) simp_all

subsection \<open>Loggers\<close>

datatype log_target = Stdout | Stderr

record logger =
  lg_target :: log_target
  lg_json :: bool
  lg_level :: log_level

text \<open>The logger of \<open>main.go\<close> has a fixed level, that of \<open>csms.go\<close> the level variable.\<close>

definition main_logger :: "config \<Rightarrow> logger" where
  "main_logger cfg =
     \<lparr>lg_target = Stdout, lg_json = (srv_LogFormat (cf_Server cfg) = ''json''),
      lg_level = (let u = LogLevelUpper cfg in
        if u = ''DEBUG'' then LevelDebug else if u = ''WARN'' then LevelWarn
        else if u = ''ERROR'' then LevelError else LevelInfo)\<rparr>"

definition buildLogger :: "log_level \<Rightarrow> string \<Rightarrow> logger" where
  "buildLogger level fmt = \<lparr>lg_target = Stderr, lg_json = (ToLower fmt = ''json''), lg_level = level\<rparr>"

text \<open>For a configuration that is accepted the two agree but for where they write.\<close>

lemma loggers_agree:
  assumes "validate cfg = None"
  shows "buildLogger (parseLogLevel (srv_LogLevel (cf_Server cfg))) (srv_LogFormat (cf_Server cfg)) =
    (main_logger cfg)\<lparr>lg_target := Stderr\<rparr>"
proof -
  have "ToLower ''json'' = ''json''" "ToLower ''text'' \<noteq> ''json''" "ToLower '''' \<noteq> ''json''" by code_simp+
  moreover have "srv_LogFormat (cf_Server cfg) \<in> {'''', ''json'', ''text''}"
    using assms by (auto simp: validate_def split: if_splits)
  ultimately have "(ToLower (srv_LogFormat (cf_Server cfg)) = ''json'') = (srv_LogFormat (cf_Server cfg) = ''json'')"
    by auto
  then show ?thesis by (simp add: buildLogger_def main_logger_def parseLogLevel_def LogLevelUpper_def Let_def)
qed

subsection \<open>The process\<close>

text \<open>\<open>pr_first\<close> is the facade of the start once the applier has another.\<close>

record process =
  pr_world :: world
  pr_serving :: bool
  pr_first :: "csms option"

definition start_process ::
  "yaml_decoder \<Rightarrow> (string \<Rightarrow> string) \<Rightarrow> string \<Rightarrow> file_read \<Rightarrow> (string + unit) \<Rightarrow> disk \<Rightarrow> process option" where
  "start_process unmarshal getenv path file server dsk =
     (case run_main unmarshal getenv path file server of
        None \<Rightarrow> None
      | Some (m, ui) \<Rightarrow> Some
          \<lparr>pr_world = \<lparr>w_ui = (case ui of Some u \<Rightarrow> u | None \<Rightarrow> NewServer path '''' '''' True), w_disk = dsk, w_app = Some m\<rparr>,
           pr_serving = (ui \<noteq> None), pr_first = None\<rparr>)"

definition status_provider :: "process \<Rightarrow> csms option" where
  "status_provider p = (case pr_first p of Some m \<Rightarrow> Some m | None \<Rightarrow> w_app (pr_world p))"

text \<open>The answers after which the applier holds a new facade.\<close>

definition rebuilt :: "response \<Rightarrow> bool" where
  "rebuilt resp \<longleftrightarrow>
     (case resp of PostResult _ (Applied ar) \<Rightarrow> ar_Action ar = ''rebuild'' \<and> \<not> ar_RequiresRebuild ar | _ \<Rightarrow> False)"

definition request_step :: "outside \<Rightarrow> request \<Rightarrow> process \<Rightarrow> response option \<times> process" where
  "request_step ot r p =
     (if \<not> pr_serving p then (None, p)
      else case (status_provider p, w_app (pr_world p)) of
        (Some provider, Some m) \<Rightarrow>
          (let (resp, w) = serve ot provider r (pr_world p)
           in (Some resp, p\<lparr>pr_world := w,
                 pr_first := (if rebuilt resp \<and> pr_first p = None then Some (Stop m) else pr_first p)\<rparr>))
      | _ \<Rightarrow> (None, p))"

datatype process_event = WebRequest outside request | SysEvent env sys_event | Signal

fun process_step :: "process_event \<Rightarrow> process \<Rightarrow> process" where
  "process_step (WebRequest ot r) p = snd (request_step ot r p)"
| "process_step (SysEvent env ev) p =
     p\<lparr>pr_world := (pr_world p)\<lparr>w_app := map_option (sys_do env ev) (w_app (pr_world p))\<rparr>\<rparr>"
| "process_step Signal p =
     p\<lparr>pr_world := (pr_world p)\<lparr>w_app := map_option Shutdown (w_app (pr_world p))\<rparr>, pr_serving := False\<rparr>"

text \<open>After the first rebuild the status page reads the old facade, stopped, for the rest of the process:
  no later event of the system, no request and no further rebuild is seen on it.\<close>

lemma first_kept: "pr_first p = Some m \<Longrightarrow> pr_first (process_step ev p) = Some m"
  by (cases ev) (simp_all add: request_step_def split: prod.split option.split)

lemma status_page_reads_old_facade:
  assumes "request_step ot r p = (Some resp, p')" "rebuilt resp" "pr_first p = None" "w_app (pr_world p) = Some m"
  shows "status_provider (fold process_step evs p') = Some (Stop m)"
proof -
  have "pr_first p' = Some (Stop m)"
    using assms by (auto simp: request_step_def split: if_splits option.splits prod.splits)
  then have "pr_first (fold process_step evs p') = Some (Stop m)"
    by (induction evs arbitrary: p') (simp_all add: first_kept)
  then show ?thesis by (simp add: status_provider_def)
qed

subsection \<open>The commanded current in the whole process\<close>

text \<open>What a request can do to the facade of the applier.\<close>

lemma candidate_app:
  assumes "apply_candidate ot r current c w = (res, w')"
  shows "w_app w' = w_app w \<or>
    (\<exists>m. w_app w = Some m \<and> (w_app w' = Some (snd (applyHot current c m)) \<or>
       w_app w' = Some (snd (Rebuild (ot_server ot) c m))))"
  using assms unfolding apply_candidate_def Let_def
  by (auto dest!: save_frame split: option.splits if_splits prod.splits sum.splits)

lemma serve_app:
  assumes "serve ot provider r w = (resp, w')"
  shows "w_app w' = w_app w \<or>
    (\<exists>current m. accepted ot r w current \<and> w_app w = Some m \<and>
       (w_app w' = Some (snd (applyHot current (candidate_of r current) m)) \<or>
        w_app w' = Some (snd (Rebuild (ot_server ot) (candidate_of r current) m))))"
proof -
  consider "w' = w" | res where "handlePostConfig ot r w = (res, w')"
    using assms by (auto simp: serve_def Let_def authMiddleware_def api_config_def split: if_splits option.splits http_method.splits prod.splits)
  then show ?thesis
  proof cases
    case (2 res)
    then show ?thesis
      by (cases rule: post_cases) (use candidate_app in blast)+
  qed simp
qed

lemma applyHot_amps_sound:
  assumes "amps.sound m" "6 \<le> chg_DefaultAmps (cf_Charging new)" "chg_DefaultAmps (cf_Charging new) \<le> 32"
  shows "amps.sound (snd (applyHot old new m))"
proof -
  have up: "amps.sound (snd (UpdateCharging p m))" if "6 \<le> cp_DefaultAmps p" "cp_DefaultAmps p \<le> 32" for p
    using amps.sys_do_sound[of "UpdateChargingCall p" m undefined] assms(1) that by simp
  have lv: "amps.sound (snd (SetLogLevel l d))" if "amps.sound d" for l d
    using amps.sys_do_sound[of "SetLogLevelCall l" d undefined] that by simp
  obtain e d where d: "(if cf_Charging old \<noteq> cf_Charging new
            then applier_UpdateCharging
                   \<lparr>cp_MinAmps = chg_MinAmps (cf_Charging new), cp_MaxAmps = chg_MaxAmps (cf_Charging new),
                    cp_ContactorCooldownSec = chg_ContactorCooldownSec (cf_Charging new),
                    cp_DefaultAmps = chg_DefaultAmps (cf_Charging new)\<rparr> m
            else (Inr (), m)) = (e, d)" by fastforce
  then have "amps.sound d"
    using up[of "\<lparr>cp_MinAmps = chg_MinAmps (cf_Charging new), cp_MaxAmps = chg_MaxAmps (cf_Charging new),
                    cp_ContactorCooldownSec = chg_ContactorCooldownSec (cf_Charging new),
                    cp_DefaultAmps = chg_DefaultAmps (cf_Charging new)\<rparr>"] assms
    by (auto simp: applier_UpdateCharging_def split: if_splits)
  then show ?thesis
    using lv[of d "srv_LogLevel (cf_Server new)"] unfolding applyHot_def d
    by (auto simp: applier_SetLogLevel_def split: sum.split prod.split bool.split)
qed

lemma Rebuild_amps_sound:
  assumes "amps.sound m" "validate cfg = None" shows "amps.sound (snd (Rebuild server cfg m))"
proof -
  have "amps.sound (Stop m)" using amps.sys_do_sound[of StopCall m undefined] assms(1) by simp
  moreover have "amps.sound (runFacade m')" if "buildFacade server cfg = Inr m'" for m'
    using amps.sys_do_sound[of StartCall m' undefined] built_amps_sound[OF that assms(2)] by (simp add: runFacade_def)
  ultimately show ?thesis by (auto simp: Rebuild_def Let_def split: sum.split)
qed

text \<open>The events of a process whose requests and MQTT commands name amperes in range.\<close>

fun amps_given :: "process_event \<Rightarrow> process \<Rightarrow> bool" where
  "amps_given (SysEvent env ev) p \<longleftrightarrow> amps_in_range ev"
| "amps_given (WebRequest ot r) p \<longleftrightarrow>
     (case load_config ot (pr_world p) of
        Inl e \<Rightarrow> True
      | Inr current \<Rightarrow> 6 \<le> chg_DefaultAmps (cf_Charging (candidate_of r current)) \<and>
          chg_DefaultAmps (cf_Charging (candidate_of r current)) \<le> 32)"
| "amps_given Signal p \<longleftrightarrow> True"

inductive process_run :: "process \<Rightarrow> process \<Rightarrow> bool" for p0 :: process where
  init: "process_run p0 p0"
| step: "process_run p0 p \<Longrightarrow> amps_given ev p \<Longrightarrow> process_run p0 (process_step ev p)"

definition facade_sound :: "process \<Rightarrow> bool" where
  "facade_sound p \<longleftrightarrow> (\<forall>m. w_app (pr_world p) = Some m \<longrightarrow> amps.sound m)"

lemma request_sound:
  assumes "facade_sound p" "amps_given (WebRequest ot r) p"
  shows "facade_sound (snd (request_step ot r p))"
proof (cases "snd (request_step ot r p) = p")
  case False
  then obtain provider m where pm: "pr_serving p" "status_provider p = Some provider" "w_app (pr_world p) = Some m"
    by (auto simp: request_step_def split: if_splits option.splits)
  obtain resp w' where serve: "serve ot provider r (pr_world p) = (resp, w')" by fastforce
  then have w': "pr_world (snd (request_step ot r p)) = w'" using pm by (simp add: request_step_def)
  have m: "amps.sound m" using assms(1) pm(3) by (simp add: facade_sound_def)
  from serve_app[OF serve] show ?thesis
  proof (elim disjE exE conjE)
    assume "w_app w' = w_app (pr_world p)"
    then show ?thesis using m pm(3) by (simp add: facade_sound_def w')
  next
    fix current m1 assume acc: "accepted ot r (pr_world p) current" "w_app (pr_world p) = Some m1"
      and app: "w_app w' = Some (snd (applyHot current (candidate_of r current) m1))"
    then have "amps.sound (snd (applyHot current (candidate_of r current) m))"
      using applyHot_amps_sound[OF m] assms(2) by (simp add: accepted_def)
    then show ?thesis using app acc(2) pm(3) by (simp add: facade_sound_def w')
  next
    fix current m1 assume acc: "accepted ot r (pr_world p) current" "w_app (pr_world p) = Some m1"
      and app: "w_app w' = Some (snd (Rebuild (ot_server ot) (candidate_of r current) m1))"
    then have "amps.sound (snd (Rebuild (ot_server ot) (candidate_of r current) m))"
      using Rebuild_amps_sound[OF m] by (simp add: accepted_def)
    then show ?thesis using app acc(2) pm(3) by (simp add: facade_sound_def w')
  qed
qed (use assms in simp)

lemma process_step_sound:
  assumes "facade_sound p" "amps_given ev p" shows "facade_sound (process_step ev p)"
proof (cases ev)
  case (WebRequest ot r)
  then show ?thesis using request_sound assms by simp
next
  case (SysEvent env e)
  then show ?thesis using assms amps.sys_do_sound by (auto simp: facade_sound_def)
next
  case Signal
  then show ?thesis
    using assms amps.sys_do_sound[of StopCall _ undefined] by (auto simp: facade_sound_def Shutdown_def)
qed

text \<open>
  C1: the range of the commanded current, for the process. From any configuration the program accepts,
  through any run of chargers' messages, ticks, polls, MQTT commands, web requests with their hot reloads
  and rebuilds, and the shutdown: every current the facade in use ever commanded lies between 6 and
  32 amperes, when the amperes of MQTT commands and the default amperes of posted configurations do.
\<close>

theorem process_current_in_range:
  assumes "start_process unmarshal getenv path file server dsk = Some p0" "process_run p0 p"
    and "w_app (pr_world p) = Some m"
  shows "list_all (\<lambda>cmd. list_all (\<lambda>a. 6 \<le> a \<and> a \<le> 32) (profile_amps cmd))
    (co_sent (ctl_commander (ms_controller m)))"
proof -
  have "facade_sound p0"
  proof -
    obtain cfg m0 where "Load unmarshal getenv path file = Inr cfg" "buildFacade server cfg = Inr m0"
      "w_app (pr_world p0) = Some (runFacade m0)"
      using assms(1) by (auto simp: start_process_def run_main_def split: sum.splits)
    then show ?thesis
      using amps.sys_do_sound[of StartCall m0 undefined] built_amps_sound Load_valid
      by (auto simp: facade_sound_def runFacade_def)
  qed
  with assms(2) have "facade_sound p"
    by (induction rule: process_run.induct) (auto intro: process_step_sound)
  then show ?thesis using assms(3) amps_sound_sent by (simp add: facade_sound_def)
qed

text \<open>A process with the editor, in which a command arrives and a new maximum is posted.\<close>

definition editor_config :: config where
  "editor_config = on_webui (\<lambda>u. u\<lparr>web_Enabled := True, web_Listen := ''127.0.0.1:8080'', web_Token := ''secret''\<rparr>) defaultConfig"

definition editor_process :: process where
  "editor_process = the (start_process (\<lambda>_ _. Inr editor_config) (\<lambda>_. '''') ''config.yaml'' (FileData ''x'') (Inr ())
     [(\<lambda>_. None)(''config.yaml'' := Some ''x'')])"

definition editor_post :: process_event where
  "editor_post = WebRequest (sample_outside\<lparr>ot_unmarshal := (\<lambda>_ _. Inr editor_config)\<rparr>)
     ((sample_post [(''charging.max_amps'', [''24''])])\<lparr>rq_cookie := Some ''secret''\<rparr>)"

theorem process_current_in_range_witness:
  "let p = process_step editor_post (process_step (SysEvent undefined (SetAmpsCmd ''a'' 16)) editor_process);
       m = the (w_app (pr_world p))
   in ca_maxAmps (ctl_calc (ms_controller m)) = 24 \<and>
      list_all (\<lambda>cmd. list_all (\<lambda>a. 6 \<le> a \<and> a \<le> 32) (profile_amps cmd)) (co_sent (ctl_commander (ms_controller m)))"
proof -
  let ?ev = "SysEvent undefined (SetAmpsCmd ''a'' 16)"
  let ?p = "process_step editor_post (process_step ?ev editor_process)"
  have "start_process (\<lambda>_ _. Inr editor_config) (\<lambda>_. '''') ''config.yaml'' (FileData ''x'') (Inr ())
     [(\<lambda>_. None)(''config.yaml'' := Some ''x'')] \<noteq> None" by code_simp
  then have start: "start_process (\<lambda>_ _. Inr editor_config) (\<lambda>_. '''') ''config.yaml'' (FileData ''x'') (Inr ())
     [(\<lambda>_. None)(''config.yaml'' := Some ''x'')] = Some editor_process" by (simp add: editor_process_def)
  have "amps_given editor_post (process_step ?ev editor_process)" by code_simp
  moreover have "amps_given ?ev editor_process" by simp
  ultimately have run: "process_run editor_process ?p" by (intro process_run.intros)
  have "case w_app (pr_world ?p) of None \<Rightarrow> False | Some m \<Rightarrow> ca_maxAmps (ctl_calc (ms_controller m)) = 24" by code_simp
  then obtain m where "w_app (pr_world ?p) = Some m" "ca_maxAmps (ctl_calc (ms_controller m)) = 24"
    by (auto split: option.splits)
  then show ?thesis using process_current_in_range[OF start run] by (simp add: Let_def)
qed

text \<open>A rebuild starts with a new commander, which knows of no start or stop: the contactors are not
  protected across it, and the cooldown is the default one.\<close>

lemma rebuild_forgets_cooldowns:
  assumes "Rebuild server cfg m = (Some (Inr ()), m')" "validate cfg = None"
  shows "ctl_commander (ms_controller m') = NewCommander"
proof -
  obtain m1 where "buildFacade server cfg = Inr m1" "m' = runFacade m1"
    using assms(1) by (auto simp: Rebuild_def Let_def split: if_splits sum.splits)
  then show ?thesis
    using build_core[of server cfg m1] assms(2) by (simp add: core_def runFacade_def Start_def announce_def Let_def)
qed

end
