(* ===== verification/Spec2Isabelle.thy ===== *)
theory Spec2Isabelle
  imports Prelude GoLib Domain Repos Policy Calculator Energy Spacing Commander Ocpp Relay Router Events
    Effects Controller ControllerLaws Handler HandlerLaws Config Writer Facade System Lifecycle WebUI WebUIForm WebUILaws
    Mqtt MqttLaws MqttScope Interleave Pages Program
begin

text \<open>
  A model of panya-charge-oss: an OCPP 1.6-J central system that bridges EV chargers to Home Assistant over
  MQTT, adjusts the charging current to the solar surplus, can relay the chargers' messages to an upstream
  central system, and has a web page to edit its configuration.

  \<^bold>\<open>The program and the theories.\<close> A charger's message arrives at the OCPP handler
  (\<open>internal/adapter/outbound/ocpp/handler.go\<close>, theories Handler and HandlerLaws), which asks
  the router (\<open>router.go\<close>, Router) by the policy (\<open>internal/domain/proxy\<close>, Policy)
  whether to forward it, hands it to the relay (\<open>relay.go\<close>, Relay) if so, and updates the
  stores (\<open>internal/domain/ports/inmemory.go\<close>, Repos) and calls the outbound ports
  (\<open>ports.go\<close>, Effects, and \<open>pkg/csms\<close>, Events). The controller
  (\<open>controller.go\<close>, Controller and ControllerLaws) runs on a timer: it reads the energy source
  (\<open>internal/adapter/inbound/ha\<close>, Energy), lets the calculator
  (\<open>internal/domain/smartcharging\<close>, Calculator) compute a limit for each connector, and
  commands it through the commander (\<open>commander.go\<close> and \<open>profile.go\<close>, Commander).
  The facade (\<open>internal/csms/csms.go\<close>, \<open>pkg/csmsfactory\<close>,
  \<open>applier.go\<close>; Facade) builds all this, starts and stops it, and executes the MQTT commands;
  System is its state machine, Lifecycle follows its stop and its event streams, and Interleave takes the
  tick apart and lets everything else happen in between. Mqtt has the subscriber that turns messages into
  those commands and the publisher and discovery that turn port calls into messages, MqttScope what a
  message can reach. Config is the configuration with its environment overrides and the classes of its
  changes, Writer its atomic save, and WebUI the server of the editor and of the status page, Pages what it
  sends to the browser, and Program the process of \<open>main.go\<close> with its requests, its timer loops
  and its end. Domain has the plain data, Ocpp the requests, GoLib what is used of Go's library, Prelude and
  Spacing what several components share.

  \<^bold>\<open>State and operations.\<close> A struct is a record with a prefix on its fields, a method is
  a definition of the same name that takes the state and returns it updated, and a handler is modelled
  whole, with every early return. Errors are \<open>Inl\<close> values. Calls on a port are appended to a
  trace (the commander's \<open>co_sent\<close>, the relay's \<open>ur_trace\<close>, the traces of the
  handler, the controller and the facade), and the facade carries an effect on to the component behind the
  port. A map that the code ranges over is an association list in the order of the iteration, and what is
  proved holds for every order. \<open>time.Now()\<close> is an argument of each operation that reads it; a
  time is an integer of nanoseconds.

  \<^bold>\<open>Interfaces.\<close> The locales \<open>keyed_store\<close> and \<open>session_store\<close>
  (Repos) state what a store promises, \<open>spacing\<close> (Spacing) what a record of last times
  promises, \<open>energy_port\<close> (Energy), \<open>relay_port\<close> (Relay) and
  \<open>charger_commander\<close> (Commander) what the controller and the router rely on,
  \<open>tick_contract\<close> and \<open>sys_contract\<close> (System) and \<open>conc_contract\<close>
  (Interleave) what a property of the commander, the calculator and the safe current needs to hold in every
  reachable state. Each is interpreted on the model's own operations, and the properties of the whole system
  are instances of the last three.

  \<^bold>\<open>What the lemmas show.\<close> Calculator: the stop decision is a debounce of each charger's
  own observations, limits stay between the bounds and follow the surplus, and chargers do not influence
  each other. Commander and Relay: accepted starts and stops, and throttled meter values, are spaced.
  Controller: every command of a tick is one that the specification of the tick allows, and (ControllerLaws)
  a tick leaves each controlled connector at the limit computed for it. Handler: the stores stay well formed
  over every history, and a transaction lives from its start to its stop. System: in every reachable state
  the currents commanded are in range and the contactors are protected. Config, Writer and WebUI: what a
  posted form can change, when it is saved, that the save is atomic, when the system is rebuilt, what a hot
  reload and a rebuild leave behind, who is let in and for how long. Mqtt: what is announced to Home
  Assistant is what is served and published, and a message for one charger reaches no other. Lifecycle: a
  stop ends when the last subscriber has gone, a subscriber gets its events in order and, up to the size of
  a channel, all of them. Interleave: contactors and currents are safe when ticks are interleaved with
  messages, commands and settings, a tick ends, and an override takes hold. Program: the range of the
  commanded current over every run of the process. A number of lemmas document behaviour that looks
  unintended; they stand beside the property they qualify.

  \<^bold>\<open>Outside the model.\<close> The OCPP library, the MQTT client and broker, HTTP, the YAML and
  JSON codecs, the environment, the operating system and random bytes are parameters: the record
  \<open>env\<close> answers the commands sent to chargers and gives the clock, \<open>relay_net\<close> the
  upstream clients, \<open>os\<close> the file system calls, \<open>outside\<close> what a web request takes
  from outside, \<open>ha_reply\<close> the answer of the Home Assistant interface. An answer may depend on
  the whole trace of what was sent before. What the code relies on is a hypothesis of the theorem: that a
  broker matches filters by levels, that names of temporary files are fresh, that \<open>sleep\<close>
  sleeps.

  \<^bold>\<open>Idealisations.\<close> A finite \<open>float64\<close> is an exact rational, with the
  infinities and NaN as values of their own; operations whose rounding could change a decision are compared
  with integers. \<open>int\<close> is unbounded except where the code converts (\<open>int32\<close>,
  \<open>time.Duration\<close>, \<open>Atoi\<close>), where the wrap or the range is written out. A Go
  string is its bytes; case folding and trimming act on ASCII. A mutex makes the operation it guards one
  step; where the code takes it twice (the commander's cooldown) the steps are separate and their
  interleavings are a relation (Commander), and so are the pieces of a tick (Interleave). The only loop that
  is not bounded by its data, \<open>WaitForIdle\<close>, is a partial function that is proved to return. No
  fuel is used.

  \<^bold>\<open>Blocking.\<close> A call that waits is a value: \<open>Rebuild\<close> returns
  \<open>None\<close> and a post is \<open>Blocked\<close> while the old facade waits in
  \<open>Stop\<close>, whose flag \<open>ms_stopping\<close> is cleared by the event that ends the wait. The
  goroutine of a subscriber is a record of the event it holds and its output channel, and makes a step at a
  time; what the consumer has received is kept beside it, as the history of the emitted events is beside the
  emitter.

  \<^bold>\<open>Not modelled.\<close> \<open>ocpp/logger.go\<close> only passes log lines on; what is
  logged, throughout; templates, static files and the encoding of JSON, of which the records are modelled;
  the sockets of the web server and the flag of \<open>main.go\<close>; interface declarations, whose calls
  are effects of the traces; \<open>standalone.go\<close>, a development server;
  \<open>internal/testutil\<close>, test doubles.

  \<^bold>\<open>Left open.\<close> A message, a command and a call of the web UI are single steps, also
  where they make several calls on a charger; the contactors over rebuilds, which forget the cooldowns; the
  effect of rounding; the JSON and YAML documents as text.
\<close>

end
